(* ===== verification/Kroxy_Prelude.thy ===== *)
theory Kroxy_Prelude
  imports Main "HOL-Library.Word" "HOL-Library.Sublist"
begin

unbundle bit_operations_syntax

text \<open>
  The part of the Go language and of its standard library that kroxy uses, shared by every
  component of the development.

  \<^item> Machine integers are words: \<open>byte\<close>, \<open>int8\<close>, \<open>int16\<close>, \<open>int32\<close>, \<open>uint32\<close> and
    \<open>uint64\<close>. Where the code compares a signed value the model reads it with \<open>sint\<close>. Go's
    \<open>int\<close> (64 bits on the platforms kroxy is built for) is an \<open>int\<close> whose additions wrap
    through \<open>wrap64\<close> wherever the operands are not bounded by the length of a buffer.
  \<^item> A Go string is a sequence of bytes, as a HOL \<open>string\<close> is; \<open>[]byte(s)\<close> and
    \<open>string(b)\<close> are \<open>bytes_of\<close> and \<open>str_of\<close>.
  \<^item> A returned error is a value of \<open>go_error\<close>. The free constructors \<open>Wrap\<close> and
    \<open>Errorf\<close> stand for the documented behaviour of \<open>errors.Wrap\<close> and \<open>errors.Errorf\<close>:
    \<open>errors_Is\<close> sees through the first and not through the second.
  \<^item> A call that can also panic (an out-of-range slice) has the outcome type \<open>go\<close>.
  \<^item> \<open>BigEndian_Uint32\<close> and its kin, \<open>strings.HasPrefix\<close>, \<open>strings.TrimPrefix\<close> and
    \<open>strings.IndexByte\<close> are those of Go's library.
\<close>

subsection \<open>Collections\<close>

named_theorems go_simps \<open>evaluation of outcomes, slices and library calls\<close>
named_theorems rewrite_defs \<open>the definitions of the message rewriters\<close>
named_theorems names_defs \<open>the names a message carries\<close>

subsection \<open>Types\<close>

type_synonym byte = "8 word"
type_synonym int8 = "8 word"
type_synonym int16 = "16 word"
type_synonym int32 = "32 word"
type_synonym uint32 = "32 word"
type_synonym uint64 = "64 word"

datatype fmt_arg = FInt int | FStr string

datatype go_error =
    EOF
  | ErrUnexpectedEOF
  | ErrNet string
  | ErrClosed
  | ErrCtx string
  | ErrUnauthorized
  | ErrDuplicate
  | ErrNotFound
  | ErrInvalidTenant
  | ErrClientClosed
  | ErrNew string
  | Errorf string "fmt_arg list"
  | Wrap go_error string

fun errors_Is :: "go_error \<Rightarrow> go_error \<Rightarrow> bool" where
  "errors_Is (Wrap e m) t = (Wrap e m = t \<or> errors_Is e t)"
| "errors_Is e t = (e = t)"

datatype 'a go = Ok 'a | Err go_error | Panic

definition go_bind :: "'a go \<Rightarrow> ('a \<Rightarrow> 'b go) \<Rightarrow> 'b go" where
  "go_bind m f = (case m of Ok a \<Rightarrow> f a | Err e \<Rightarrow> Err e | Panic \<Rightarrow> Panic)"

definition go_wrap :: "string \<Rightarrow> go_error + 'a \<Rightarrow> 'a go" where
  "go_wrap msg r = (case r of Inl e \<Rightarrow> Err (Wrap e msg) | Inr a \<Rightarrow> Ok a)"

subsection \<open>Strings and bytes\<close>

definition byte_of_char :: "char \<Rightarrow> byte" where
  "byte_of_char c = word_of_nat (of_char c)"

definition char_of_byte :: "byte \<Rightarrow> char" where
  "char_of_byte b = char_of (unat b)"

definition bytes_of :: "string \<Rightarrow> byte list" where
  "bytes_of s = map byte_of_char s"

definition str_of :: "byte list \<Rightarrow> string" where
  "str_of bs = map char_of_byte bs"

definition HasPrefix :: "string \<Rightarrow> string \<Rightarrow> bool" where
  "HasPrefix s p \<longleftrightarrow> length p \<le> length s \<and> take (length p) s = p"

definition TrimPrefix :: "string \<Rightarrow> string \<Rightarrow> string" where
  "TrimPrefix s p = (if HasPrefix s p then drop (length p) s else s)"

fun IndexByte :: "'a list \<Rightarrow> 'a \<Rightarrow> nat option" where
  "IndexByte [] c = None"
| "IndexByte (x # xs) c = (if x = c then Some 0 else map_option Suc (IndexByte xs c))"

subsection \<open>Machine arithmetic and slices\<close>

definition wrap64 :: "int \<Rightarrow> int" where
  "wrap64 i = signed_take_bit 63 i"

definition slice_from :: "'a list \<Rightarrow> int \<Rightarrow> 'a list go" where
  "slice_from xs i = (if 0 \<le> i \<and> i \<le> int (length xs) then Ok (drop (nat i) xs) else Panic)"

definition BigEndian_Uint16 :: "byte list \<Rightarrow> 16 word" where
  "BigEndian_Uint16 b = ucast (b ! 1) OR push_bit 8 (ucast (b ! 0))"

definition BigEndian_Uint32 :: "byte list \<Rightarrow> uint32" where
  "BigEndian_Uint32 b =
     ucast (b ! 3) OR push_bit 8 (ucast (b ! 2)) OR push_bit 16 (ucast (b ! 1))
       OR push_bit 24 (ucast (b ! 0))"

definition PutUint16 :: "16 word \<Rightarrow> byte list" where
  "PutUint16 v = [ucast (drop_bit 8 v), ucast v]"

definition PutUint32 :: "uint32 \<Rightarrow> byte list" where
  "PutUint32 v = [ucast (drop_bit 24 v), ucast (drop_bit 16 v), ucast (drop_bit 8 v), ucast v]"

subsection \<open>Outcomes\<close>

lemma go_bind_simps [simp, go_simps]:
  "go_bind (Ok a) f = f a"
  "go_bind (Err e) f = Err e"
  "go_bind Panic f = Panic"
  by (simp_all add: go_bind_def)

lemma go_bind_Ok_iff: "go_bind m f = Ok b \<longleftrightarrow> (\<exists>a. m = Ok a \<and> f a = Ok b)"
  by (cases m) auto

lemma go_bind_Panic_iff: "go_bind m f = Panic \<longleftrightarrow> m = Panic \<or> (\<exists>a. m = Ok a \<and> f a = Panic)"
  by (cases m) auto

lemma go_wrap_simps [simp, go_simps]:
  "go_wrap msg (Inl e) = Err (Wrap e msg)"
  "go_wrap msg (Inr a) = Ok a"
  by (simp_all add: go_wrap_def)

lemma go_wrap_not_Panic [simp]: "go_wrap msg r \<noteq> Panic"
  by (cases r) auto

lemma go_wrap_Ok_iff [simp]: "go_wrap msg r = Ok a \<longleftrightarrow> r = Inr a"
  by (cases r) auto

lemma errors_Is_refl [simp]: "errors_Is e e"
  by (cases e) auto

lemma slice_from_Ok_iff:
  "slice_from xs i = Ok ys \<longleftrightarrow> 0 \<le> i \<and> i \<le> int (length xs) \<and> ys = drop (nat i) xs"
  by (auto simp: slice_from_def)

lemma slice_from_nat [simp]: "n \<le> length xs \<Longrightarrow> slice_from xs (int n) = Ok (drop n xs)"
  by (simp add: slice_from_def)

lemma wrap64_id: "- (2 ^ 63) \<le> i \<Longrightarrow> i < 2 ^ 63 \<Longrightarrow> wrap64 i = i"
  by (simp add: wrap64_def signed_take_bit_int_eq_self)

subsection \<open>Strings as bytes\<close>

lemma char_of_byte_of_char [simp]: "char_of_byte (byte_of_char c) = c"
proof -
  have "(of_char c :: nat) < 256" by simp
  then show ?thesis
    by (simp add: char_of_byte_def byte_of_char_def unat_of_nat take_bit_nat_eq_self)
qed

lemma byte_of_char_of_byte [simp]: "byte_of_char (char_of_byte b) = b"
proof -
  have "unat b < 256"
    using unsigned_less [of b] by simp
  then show ?thesis
    by (simp add: char_of_byte_def byte_of_char_def)
qed

lemma byte_of_char_inject [simp]: "byte_of_char c = byte_of_char d \<longleftrightarrow> c = d"
  by (metis char_of_byte_of_char)

lemma str_of_bytes_of [simp]: "str_of (bytes_of s) = s"
  by (simp add: str_of_def bytes_of_def comp_def)

lemma bytes_of_str_of [simp]: "bytes_of (str_of bs) = bs"
  by (simp add: str_of_def bytes_of_def comp_def)

lemma str_of_simps [simp]:
  "str_of [] = []" "str_of (b # bs) = char_of_byte b # str_of bs"
  "str_of (xs @ ys) = str_of xs @ str_of ys" "length (str_of xs) = length xs"
  by (simp_all add: str_of_def)

lemma bytes_of_simps [simp]:
  "bytes_of [] = []" "bytes_of (c # cs) = byte_of_char c # bytes_of cs"
  "bytes_of (s @ t) = bytes_of s @ bytes_of t" "length (bytes_of s) = length s"
  by (simp_all add: bytes_of_def)

lemma str_of_eq_iff [simp]: "str_of xs = str_of ys \<longleftrightarrow> xs = ys"
  by (metis bytes_of_str_of)

lemma HasPrefix_append [simp]: "HasPrefix (p @ s) p"
  by (simp add: HasPrefix_def)

lemma HasPrefix_prefix: "HasPrefix s p \<longleftrightarrow> prefix p s"
  by (auto simp: HasPrefix_def prefix_def) (metis append_take_drop_id)

lemma HasPrefix_iff: "HasPrefix s p \<longleftrightarrow> (\<exists>t. s = p @ t)"
  by (auto simp: HasPrefix_prefix prefix_def)

lemma TrimPrefix_append [simp]: "TrimPrefix (p @ s) p = s"
  by (simp add: TrimPrefix_def)

lemma IndexByte_None_iff: "IndexByte xs c = None \<longleftrightarrow> c \<notin> set xs"
  by (induction xs) auto

lemma IndexByte_Some:
  "IndexByte xs c = Some i \<Longrightarrow> i < length xs \<and> xs ! i = c \<and> c \<notin> set (take i xs)"
  by (induction xs arbitrary: i) (auto split: if_splits)

lemma IndexByte_append [simp]: "c \<notin> set xs \<Longrightarrow> IndexByte (xs @ c # ys) c = Some (length xs)"
  by (induction xs) auto

subsection \<open>Big-endian integers\<close>

lemma length_PutUint [simp]: "length (PutUint16 v) = 2" "length (PutUint32 w) = 4"
  by (simp_all add: PutUint16_def PutUint32_def)

lemma Uint16_PutUint16 [simp]: "BigEndian_Uint16 (PutUint16 v) = v"
  unfolding BigEndian_Uint16_def PutUint16_def
  by (rule bit_word_eqI) (auto simp: bit_simps)

lemma Uint32_PutUint32 [simp]: "BigEndian_Uint32 (PutUint32 v) = v"
proof -
  let ?w = "ucast (ucast v :: byte) OR push_bit 8 (ucast (ucast (drop_bit 8 v) :: byte))
      OR push_bit 16 (ucast (ucast (drop_bit 16 v) :: byte))
      OR push_bit 24 (ucast (ucast (drop_bit 24 v) :: byte)) :: uint32"
  have "?w = v"
  proof (rule bit_word_eqI)
    fix n
    assume "n < LENGTH(32)"
    then consider "n < 8" | "8 \<le> n" "n < 16" | "16 \<le> n" "n < 24" | "24 \<le> n" "n < 32"
      by fastforce
    then show "bit ?w n = bit v n"
      by cases (simp_all only: bit_simps, auto)
  qed
  then show ?thesis
    by (simp add: BigEndian_Uint32_def PutUint32_def)
qed

lemma PutUint32_Uint32: "PutUint32 (BigEndian_Uint32 [a, b, c, d]) = [a, b, c, d]"
proof -
  let ?w = "ucast d OR push_bit 8 (ucast c) OR push_bit 16 (ucast b) OR push_bit 24 (ucast a) :: uint32"
  have "ucast (drop_bit 24 ?w) = a"
    by (rule bit_word_eqI) (simp only: bit_simps comp_def, auto dest: bit_imp_le_length)
  moreover have "ucast (drop_bit 16 ?w) = b"
    by (rule bit_word_eqI) (simp only: bit_simps comp_def, auto dest: bit_imp_le_length)
  moreover have "ucast (drop_bit 8 ?w) = c"
    by (rule bit_word_eqI) (simp only: bit_simps comp_def, auto dest: bit_imp_le_length)
  moreover have "ucast ?w = d"
    by (rule bit_word_eqI) (simp only: bit_simps comp_def, auto dest: bit_imp_le_length)
  ultimately show ?thesis
    by (simp add: BigEndian_Uint32_def PutUint32_def)
qed

lemma PutUint32_Uint32_list: "length bs = 4 \<Longrightarrow> PutUint32 (BigEndian_Uint32 bs) = bs"
proof -
  assume "length bs = 4"
  then obtain a b c d where "bs = [a, b, c, d]"
    by (auto simp: numeral_eq_Suc length_Suc_conv)
  then show ?thesis by (simp add: PutUint32_Uint32)
qed

end
