(* ===== verification/Tenant_Resolver.thy ===== *)
theory Tenant_Resolver
  imports Kroxy_Prelude "HOL-Library.AList" "HOL-Library.Multiset"
begin

text \<open>
  \<open>resolver/resolver.go\<close>, \<open>resolver/memory.go\<close> and \<open>resolver/factory.go\<close>: the tenant
  catalogue.

  The interface \<open>Resolver\<close> is the locale \<open>tenant_resolver\<close>: its laws say that the operations
  behave as those of an abstract partial map from ids to tenants, errors included. The Go map of
  \<open>memoryResolver\<close> is an association list with distinct keys. Every operation holds the lock for
  its whole body, so each is one atomic step on the state. Go leaves the order in which \<open>List\<close>
  iterates over the map unspecified: the order is a parameter.
\<close>

subsection \<open>Model\<close>

record Tenant =
  ID :: string
  TopicPrefix :: string
  Upstream :: string

record memoryResolver =
  tenants :: "(string \<times> Tenant) list"

definition validateTenant :: "Tenant \<Rightarrow> go_error option" where
  "validateTenant t =
     (if ID t = [] then Some (Wrap ErrInvalidTenant ''empty tenant id'')
      else if TopicPrefix t = [] then Some (Wrap ErrInvalidTenant ''empty topic prefix'')
      else if Upstream t = [] then Some (Wrap ErrInvalidTenant ''empty upstream'')
      else None)"

fun newMemoryResolver_loop :: "(string \<times> Tenant) list \<Rightarrow> Tenant list \<Rightarrow> go_error + memoryResolver" where
  "newMemoryResolver_loop m [] = Inr \<lparr>tenants = m\<rparr>"
| "newMemoryResolver_loop m (t # ts) =
     (case validateTenant t of
        Some err \<Rightarrow> Inl (Wrap err ''newMemoryResolver'')
      | None \<Rightarrow>
          (case map_of m (ID t) of
             Some _ \<Rightarrow> Inl (Wrap ErrDuplicate (''newMemoryResolver: '' @ ID t))
           | None \<Rightarrow> newMemoryResolver_loop (AList.update (ID t) t m) ts))"

definition newMemoryResolver :: "Tenant list \<Rightarrow> go_error + memoryResolver" where
  "newMemoryResolver ts = newMemoryResolver_loop [] ts"

definition memoryResolver_Get :: "memoryResolver \<Rightarrow> string \<Rightarrow> go_error + Tenant" where
  "memoryResolver_Get m i = (case map_of (tenants m) i of None \<Rightarrow> Inl ErrUnauthorized | Some t \<Rightarrow> Inr t)"

definition memoryResolver_Set :: "memoryResolver \<Rightarrow> Tenant \<Rightarrow> go_error option \<times> memoryResolver" where
  "memoryResolver_Set m t =
     (case validateTenant t of
        Some err \<Rightarrow> (Some (Wrap err ''memoryResolver.Set''), m)
      | None \<Rightarrow>
          (case map_of (tenants m) (ID t) of
             Some _ \<Rightarrow> (Some (Wrap ErrDuplicate (''memoryResolver.Set: '' @ ID t)), m)
           | None \<Rightarrow> (None, m\<lparr>tenants := AList.update (ID t) t (tenants m)\<rparr>)))"

definition memoryResolver_Delete :: "memoryResolver \<Rightarrow> string \<Rightarrow> go_error option \<times> memoryResolver" where
  "memoryResolver_Delete m i =
     (if i = [] then (Some (Wrap ErrInvalidTenant ''memoryResolver.Delete: empty tenant id''), m)
      else case map_of (tenants m) i of
             None \<Rightarrow> (Some (Wrap ErrNotFound (''memoryResolver.Delete: '' @ i)), m)
           | Some _ \<Rightarrow> (None, m\<lparr>tenants := AList.delete i (tenants m)\<rparr>))"

definition memoryResolver_List :: "(Tenant list \<Rightarrow> Tenant list) \<Rightarrow> memoryResolver \<Rightarrow> Tenant list" where
  "memoryResolver_List iteration_order m = iteration_order (map snd (tenants m))"

record MemoryConfig =
  Tenants :: "Tenant list"

record ResolverConfig =
  ResolverType :: string
  Memory :: MemoryConfig

definition resolver_New :: "ResolverConfig \<Rightarrow> go_error + memoryResolver" where
  "resolver_New cfg =
     (if ResolverType cfg = [] \<or> ResolverType cfg = ''memory'' then newMemoryResolver (Tenants (Memory cfg))
      else Inl (Errorf ''New: unknown resolver type %q'' [FStr (ResolverType cfg)]))"

subsection \<open>Specification\<close>

text \<open>The catalogue as a partial map, with the error each operation reports. \<open>Cause\<close> removes the
  annotations of an error.\<close>

fun Cause :: "go_error \<Rightarrow> go_error" where
  "Cause (Wrap e m) = Cause e"
| "Cause e = e"

definition valid_tenant :: "Tenant \<Rightarrow> bool" where
  "valid_tenant t \<longleftrightarrow> ID t \<noteq> [] \<and> TopicPrefix t \<noteq> [] \<and> Upstream t \<noteq> []"

definition spec_Get :: "(string \<rightharpoonup> Tenant) \<Rightarrow> string \<Rightarrow> go_error + Tenant" where
  "spec_Get m i = (case m i of None \<Rightarrow> Inl ErrUnauthorized | Some t \<Rightarrow> Inr t)"

definition spec_Set :: "(string \<rightharpoonup> Tenant) \<Rightarrow> Tenant \<Rightarrow> go_error option \<times> (string \<rightharpoonup> Tenant)" where
  "spec_Set m t =
     (if \<not> valid_tenant t then (Some ErrInvalidTenant, m)
      else if m (ID t) \<noteq> None then (Some ErrDuplicate, m)
      else (None, m(ID t \<mapsto> t)))"

definition spec_Delete :: "(string \<rightharpoonup> Tenant) \<Rightarrow> string \<Rightarrow> go_error option \<times> (string \<rightharpoonup> Tenant)" where
  "spec_Delete m i =
     (if i = [] then (Some ErrInvalidTenant, m)
      else if m i = None then (Some ErrNotFound, m)
      else (None, m(i := None)))"

datatype resolver_op = OpGet string | OpSet Tenant | OpDelete string

datatype resolver_obs = Found Tenant | Done | Failed go_error

fun obs_result :: "go_error + Tenant \<Rightarrow> resolver_obs" where
  "obs_result (Inl e) = Failed (Cause e)"
| "obs_result (Inr t) = Found t"

fun obs_error :: "go_error option \<Rightarrow> resolver_obs" where
  "obs_error None = Done"
| "obs_error (Some e) = Failed (Cause e)"

fun run_resolver ::
    "('r \<Rightarrow> string \<Rightarrow> go_error + Tenant) \<Rightarrow> ('r \<Rightarrow> Tenant \<Rightarrow> go_error option \<times> 'r) \<Rightarrow>
     ('r \<Rightarrow> string \<Rightarrow> go_error option \<times> 'r) \<Rightarrow> 'r \<Rightarrow> resolver_op list \<Rightarrow> resolver_obs list \<times> 'r" where
  "run_resolver get put del r [] = ([], r)"
| "run_resolver get put del r (op # ops) =
     (let (ob, r') = (case op of
            OpGet i \<Rightarrow> (obs_result (get r i), r)
          | OpSet t \<Rightarrow> (case put r t of (e, r') \<Rightarrow> (obs_error e, r'))
          | OpDelete i \<Rightarrow> (case del r i of (e, r') \<Rightarrow> (obs_error e, r')));
          (obs, r'') = run_resolver get put del r' ops
      in (ob # obs, r''))"

definition resolver_abs :: "memoryResolver \<Rightarrow> string \<rightharpoonup> Tenant" where
  "resolver_abs m = map_of (tenants m)"

definition resolver_inv :: "memoryResolver \<Rightarrow> bool" where
  "resolver_inv m \<longleftrightarrow>
     distinct (map fst (tenants m)) \<and> list_all (\<lambda>(i, t). ID t = i \<and> valid_tenant t) (tenants m)"

locale tenant_resolver =
  fixes Get :: "'r \<Rightarrow> string \<Rightarrow> go_error + Tenant"
    and Set :: "'r \<Rightarrow> Tenant \<Rightarrow> go_error option \<times> 'r"
    and Delete :: "'r \<Rightarrow> string \<Rightarrow> go_error option \<times> 'r"
    and abs :: "'r \<Rightarrow> string \<rightharpoonup> Tenant"
    and inv :: "'r \<Rightarrow> bool"
  assumes Get_spec: "Get r i = spec_Get (abs r) i"
    and Set_spec: "Set r t = (e, r') \<Longrightarrow> (map_option Cause e, abs r') = spec_Set (abs r) t"
    and Delete_spec: "Delete r i = (e, r') \<Longrightarrow> (map_option Cause e, abs r') = spec_Delete (abs r) i"
    and Set_inv: "inv r \<Longrightarrow> Set r t = (e, r') \<Longrightarrow> inv r'"
    and Delete_inv: "inv r \<Longrightarrow> Delete r i = (e, r') \<Longrightarrow> inv r'"
    and inv_tenant: "inv r \<Longrightarrow> abs r i = Some t \<Longrightarrow> ID t = i \<and> valid_tenant t"
begin

lemma Get_Inr: "Get r i = Inr t \<longleftrightarrow> abs r i = Some t"
  by (auto simp: Get_spec spec_Get_def split: option.splits)

lemma Get_valid: "inv r \<Longrightarrow> Get r i = Inr t \<Longrightarrow> ID t = i \<and> valid_tenant t"
  using inv_tenant by (auto simp: Get_Inr)

lemma Get_Inl: "Get r i = Inl e \<Longrightarrow> e = ErrUnauthorized"
  by (auto simp: Get_spec spec_Get_def split: option.splits)

lemma Get_after_Set:
  "Set r t = (None, r') \<Longrightarrow> Get r' i = (if i = ID t then Inr t else Get r i)"
  using Set_spec [of r t None r'] by (auto simp: Get_spec spec_Get_def spec_Set_def split: if_splits)

lemma Get_after_Delete:
  "Delete r i = (None, r') \<Longrightarrow> Get r' j = (if j = i then Inl ErrUnauthorized else Get r j)"
  using Delete_spec [of r i None r'] by (auto simp: Get_spec spec_Get_def spec_Delete_def split: if_splits)

lemma run_refines:
  "run_resolver Get Set Delete r ops = (obs, r') \<Longrightarrow>
   run_resolver spec_Get spec_Set spec_Delete (abs r) ops = (obs, abs r')"
proof (induction ops arbitrary: r obs)
  case Nil
  then show ?case by simp
next
  case (Cons op ops)
  have [simp]: "obs_error (map_option Cause e) = obs_error e" for e
  proof -
    have "Cause (Cause x) = Cause x" for x
      by (induction x) auto
    then show ?thesis by (cases e) auto
  qed
  show ?case
  proof (cases op)
    case (OpGet i)
    with Cons show ?thesis
      by (auto simp: Get_spec Let_def split: prod.splits)
  next
    case (OpSet t)
    obtain e r1 where s: "Set r t = (e, r1)" by force
    with Cons OpSet Set_spec [OF s] show ?thesis
      by (auto simp: Let_def split: prod.splits simp flip: Set_spec [OF s])
  next
    case (OpDelete i)
    obtain e r1 where s: "Delete r i = (e, r1)" by force
    with Cons OpDelete Delete_spec [OF s] show ?thesis
      by (auto simp: Let_def split: prod.splits simp flip: Delete_spec [OF s])
  qed
qed

lemma run_inv:
  "inv r \<Longrightarrow> run_resolver Get Set Delete r ops = (obs, r') \<Longrightarrow> inv r'"
  by (induction ops arbitrary: r obs)
    (auto simp: Let_def split: prod.splits resolver_op.splits dest: Set_inv Delete_inv)

end

subsection \<open>The in-memory resolver implements the interface\<close>

lemma validateTenant_None: "validateTenant t = None \<longleftrightarrow> valid_tenant t"
  by (auto simp: validateTenant_def valid_tenant_def)

lemma validateTenant_Some: "validateTenant t = Some e \<Longrightarrow> Cause e = ErrInvalidTenant \<and> \<not> valid_tenant t"
  by (auto simp: validateTenant_def valid_tenant_def split: if_splits)

lemma set_update: "set (AList.update k v al) \<subseteq> insert (k, v) (set al)"
  by (induction al) auto

lemma set_delete: "set (AList.delete k al) \<subseteq> set al"
  by (auto simp: AList.delete_eq)

lemma update_fresh: "k \<notin> fst ` set al \<Longrightarrow> AList.update k v al = al @ [(k, v)]"
  by (induction al) auto

lemma resolver_inv_update:
  assumes "resolver_inv m" and "valid_tenant t"
  shows "resolver_inv (m\<lparr>tenants := AList.update (ID t) t (tenants m)\<rparr>)"
  using assms set_update [of "ID t" t "tenants m"]
  by (auto simp: resolver_inv_def list_all_iff distinct_update)

lemma resolver_inv_delete:
  "resolver_inv m \<Longrightarrow> resolver_inv (m\<lparr>tenants := AList.delete i (tenants m)\<rparr>)"
  using set_delete [of i "tenants m"] by (auto simp: resolver_inv_def list_all_iff distinct_delete)

interpretation memory: tenant_resolver memoryResolver_Get memoryResolver_Set memoryResolver_Delete
  resolver_abs resolver_inv
proof unfold_locales
  show "memoryResolver_Get r i = spec_Get (resolver_abs r) i" for r i
    by (simp add: memoryResolver_Get_def spec_Get_def resolver_abs_def)
  show "(map_option Cause e, resolver_abs r') = spec_Set (resolver_abs r) t"
    if "memoryResolver_Set r t = (e, r')" for r t e r'
    using that
    by (auto simp: memoryResolver_Set_def spec_Set_def resolver_abs_def validateTenant_None update_conv'
        split: option.splits dest: validateTenant_Some)
  show "(map_option Cause e, resolver_abs r') = spec_Delete (resolver_abs r) i"
    if "memoryResolver_Delete r i = (e, r')" for r i e r'
    using that
    by (auto simp: memoryResolver_Delete_def spec_Delete_def resolver_abs_def delete_conv'
        split: if_splits option.splits)
  show "resolver_inv r'" if "resolver_inv r" "memoryResolver_Set r t = (e, r')" for r t e r'
    using that
    by (auto simp: memoryResolver_Set_def validateTenant_None resolver_inv_update split: option.splits)
  show "resolver_inv r'" if "resolver_inv r" "memoryResolver_Delete r i = (e, r')" for r i e r'
    using that by (auto simp: memoryResolver_Delete_def resolver_inv_delete split: if_splits option.splits)
  show "ID t = i \<and> valid_tenant t" if "resolver_inv r" "resolver_abs r i = Some t" for r i t
    using that by (auto simp: resolver_inv_def resolver_abs_def list_all_iff dest: map_of_SomeD)
qed

lemma newMemoryResolver_loop_Inr:
  "newMemoryResolver_loop m ts = Inr r \<longleftrightarrow>
     list_all valid_tenant ts \<and> distinct (map ID ts) \<and> ID ` set ts \<inter> fst ` set m = {} \<and>
     r = \<lparr>tenants = m @ map (\<lambda>t. (ID t, t)) ts\<rparr>"
proof (induction ts arbitrary: m)
  case Nil
  then show ?case by auto
next
  case (Cons t ts)
  show ?case
  proof (cases "valid_tenant t \<and> ID t \<notin> fst ` set m")
    case True
    then have "newMemoryResolver_loop m (t # ts) = newMemoryResolver_loop (m @ [(ID t, t)]) ts"
      using validateTenant_None [of t] by (simp add: update_fresh map_of_eq_None_iff [THEN iffD2])
    with True Cons [of "m @ [(ID t, t)]"] show ?thesis by auto
  next
    case False
    then have "\<not> isl (newMemoryResolver_loop m (t # ts)) \<Longrightarrow> False"
      using validateTenant_None [of t] map_of_eq_None_iff [of m "ID t"]
      by (auto split: option.splits)
    with False show ?thesis by (auto simp: isl_def)
  qed
qed

lemma newMemoryResolver_Inr:
  "newMemoryResolver ts = Inr r \<longleftrightarrow>
     list_all valid_tenant ts \<and> distinct (map ID ts) \<and> r = \<lparr>tenants = map (\<lambda>t. (ID t, t)) ts\<rparr>"
  by (simp add: newMemoryResolver_def newMemoryResolver_loop_Inr)

lemma newMemoryResolver_inv: "newMemoryResolver ts = Inr r \<Longrightarrow> resolver_inv r"
  by (auto simp: newMemoryResolver_Inr resolver_inv_def list_all_iff comp_def)

lemma newMemoryResolver_abs:
  "newMemoryResolver ts = Inr r \<Longrightarrow> resolver_abs r = map_of (map (\<lambda>t. (ID t, t)) ts)"
  by (simp add: newMemoryResolver_Inr resolver_abs_def)

lemma newMemoryResolver_Inl:
  "newMemoryResolver ts = Inl e \<Longrightarrow> errors_Is e ErrInvalidTenant \<or> errors_Is e ErrDuplicate"
proof -
  have "newMemoryResolver_loop m ts = Inl e \<Longrightarrow> errors_Is e ErrInvalidTenant \<or> errors_Is e ErrDuplicate" for m
    by (induction m ts rule: newMemoryResolver_loop.induct)
      (auto simp: validateTenant_def split: option.splits if_splits)
  then show "newMemoryResolver ts = Inl e \<Longrightarrow> ?thesis"
    by (simp add: newMemoryResolver_def)
qed

lemma memory_List:
  assumes "resolver_inv m" and "\<And>ts. mset (order ts) = mset ts"
  shows "set (memoryResolver_List order m) = ran (resolver_abs m)"
    and "distinct (map ID (memoryResolver_List order m))"
proof -
  have ids: "map ID (map snd (tenants m)) = map fst (tenants m)" and d: "distinct (map fst (tenants m))"
    using assms(1) by (auto simp: resolver_inv_def list_all_iff)
  have "mset (map ID (memoryResolver_List order m)) = mset (map ID (map snd (tenants m)))"
    by (simp add: memoryResolver_List_def assms(2) del: map_map)
  then show "distinct (map ID (memoryResolver_List order m))"
    using ids d by (metis mset_eq_imp_distinct_iff)
  have "set (memoryResolver_List order m) = set (map snd (tenants m))"
    using assms(2) [of "map snd (tenants m)"] by (metis memoryResolver_List_def mset_eq_setD)
  also have "\<dots> = ran (resolver_abs m)"
    using d by (simp add: resolver_abs_def ran_distinct)
  finally show "set (memoryResolver_List order m) = ran (resolver_abs m)" .
qed

subsection \<open>Properties\<close>

definition example_tenant :: Tenant where
  "example_tenant = \<lparr>ID = ''acme'', TopicPrefix = ''acme.'', Upstream = ''k:9092''\<rparr>"

definition example_resolver :: memoryResolver where
  "example_resolver = \<lparr>tenants = [(''acme'', example_tenant)]\<rparr>"

lemma example_resolver_New: "newMemoryResolver [example_tenant] = Inr example_resolver"
  by (simp add: newMemoryResolver_def validateTenant_def example_tenant_def example_resolver_def)

text \<open>C21: the in-memory resolver is a map from tenant ids to tenants. Started on any tenant list it
  accepts, any sequence of Get, Set and Delete calls returns, call for call, what the abstract map
  returns, the cause of each error included, ends in a state that represents the abstract map's, and
  never holds an invalid tenant or one stored under another's id.\<close>

theorem memoryResolver_refines:
  assumes "newMemoryResolver ts = Inr r"
    and "run_resolver memoryResolver_Get memoryResolver_Set memoryResolver_Delete r ops = (obs, r')"
  shows "run_resolver spec_Get spec_Set spec_Delete (map_of (map (\<lambda>t. (ID t, t)) ts)) ops = (obs, resolver_abs r') \<and>
    resolver_inv r'"
  using memory.run_refines [OF assms(2)] memory.run_inv [OF newMemoryResolver_inv [OF assms(1)] assms(2)]
    newMemoryResolver_abs [OF assms(1)]
  by simp

theorem memoryResolver_refines_witness:
  "fst (run_resolver spec_Get spec_Set spec_Delete (map_of [(''acme'', example_tenant)])
     [OpGet ''acme'', OpSet example_tenant, OpDelete ''acme'', OpGet ''acme'']) =
   [Found example_tenant, Failed ErrDuplicate, Done, Failed ErrUnauthorized]"
proof -
  let ?ops = "[OpGet ''acme'', OpSet example_tenant, OpDelete ''acme'', OpGet ''acme'']"
  have "run_resolver memoryResolver_Get memoryResolver_Set memoryResolver_Delete example_resolver ?ops =
      ([Found example_tenant, Failed ErrDuplicate, Done, Failed ErrUnauthorized], \<lparr>tenants = []\<rparr>)"
    by (simp add: memoryResolver_Get_def memoryResolver_Set_def memoryResolver_Delete_def
        validateTenant_def example_resolver_def example_tenant_def)
  from memoryResolver_refines [OF example_resolver_New this] show ?thesis
    by (simp add: example_tenant_def)
qed

text \<open>NewMemoryResolver accepts a tenant list exactly when every tenant has an id, a prefix and
  an upstream and no id repeats, and then each listed tenant, and no other, can be looked up under its
  id. Otherwise the error is ErrInvalidTenant or ErrDuplicate. Nothing is said of the prefixes:
  equal or nested ones are accepted.\<close>

lemma newMemoryResolver_exact:
  "case newMemoryResolver ts of
     Inr r \<Rightarrow> list_all valid_tenant ts \<and> distinct (map ID ts) \<and>
       {t. memoryResolver_Get r (ID t) = Inr t} = set ts
   | Inl e \<Rightarrow> \<not> (list_all valid_tenant ts \<and> distinct (map ID ts)) \<and>
       (errors_Is e ErrInvalidTenant \<or> errors_Is e ErrDuplicate)"
proof (cases "newMemoryResolver ts")
  case (Inl e)
  then have "\<not> (list_all valid_tenant ts \<and> distinct (map ID ts))"
    using newMemoryResolver_Inr [of ts "\<lparr>tenants = map (\<lambda>t. (ID t, t)) ts\<rparr>"] by auto
  then show ?thesis
    using Inl newMemoryResolver_Inl [OF Inl] by simp
next
  case (Inr r)
  then have d: "list_all valid_tenant ts" "distinct (map ID ts)"
    by (simp_all add: newMemoryResolver_Inr)
  have "memoryResolver_Get r (ID t) = Inr t \<longleftrightarrow> t \<in> set ts" for t
    using d by (auto simp: memory.Get_Inr newMemoryResolver_abs [OF Inr] map_of_eq_Some_iff comp_def)
  then show ?thesis
    using Inr d by auto
qed

text \<open>List returns every tenant of the catalogue exactly once, in whatever order the runtime
  iterates over the map.\<close>

lemma memoryResolver_List_complete:
  assumes "resolver_inv m" and "\<And>ts. mset (order ts) = mset ts"
  shows "set (memoryResolver_List order m) = {t. memoryResolver_Get m (ID t) = Inr t} \<and>
    distinct (map ID (memoryResolver_List order m))"
proof -
  have "ran (resolver_abs m) = {t. memoryResolver_Get m (ID t) = Inr t}"
    using memory.inv_tenant [OF assms(1)] by (auto simp: memory.Get_Inr ran_def)
  then show ?thesis
    using memory_List [OF assms] by simp
qed

end
