(* ===== verification/Auth_SASL.thy ===== *)
theory Auth_SASL
  imports Kroxy_Prelude
begin

text \<open>
  \<open>auth/sasl_plain.go\<close> and \<open>auth/sasl_scram.go\<close>: the parsers of the SASL payloads kroxy looks
  into. The scan of the PLAIN payload keeps the indices of the first two NUL bytes as the Go loop
  does. What is printed of credentials is kept as the format and its arguments.
\<close>

subsection \<open>PLAIN\<close>

definition MechanismPlain :: string where
  "MechanismPlain = ''PLAIN''"

record PlainCredentials =
  Authzid :: string
  Username :: string
  Password :: string

datatype formatted = Sprintf string "fmt_arg list"

definition PlainCredentials_String :: "PlainCredentials \<Rightarrow> formatted" where
  "PlainCredentials_String p = Sprintf ''PlainCredentials{Authzid:%q Username:%q}'' [FStr (Authzid p), FStr (Username p)]"

definition PlainCredentials_GoString :: "PlainCredentials \<Rightarrow> formatted" where
  "PlainCredentials_GoString p = PlainCredentials_String p"

definition PlainCredentials_LogValue :: "PlainCredentials \<Rightarrow> (string \<times> string) list" where
  "PlainCredentials_LogValue p = [(''authzid'', Authzid p), (''username'', Username p)]"

fun plain_scan :: "byte list \<Rightarrow> nat \<Rightarrow> nat option \<Rightarrow> nat option \<times> nat option" where
  "plain_scan [] i first = (first, None)"
| "plain_scan (b # bs) i first =
     (if b \<noteq> 0 then plain_scan bs (i + 1) first
      else case first of
             None \<Rightarrow> plain_scan bs (i + 1) (Some i)
           | Some f \<Rightarrow> (Some f, Some i))"

definition ParsePlain :: "byte list \<Rightarrow> go_error + PlainCredentials" where
  "ParsePlain payload =
     (case plain_scan payload 0 None of
        (Some first, Some second) \<Rightarrow>
          Inr \<lparr>Authzid = str_of (take first payload),
               Username = str_of (take (second - (first + 1)) (drop (first + 1) payload)),
               Password = str_of (drop (second + 1) payload)\<rparr>
      | _ \<Rightarrow> Inl (ErrNew ''ParsePlain: malformed PLAIN payload''))"

subsection \<open>SCRAM\<close>

definition MechanismSCRAMSHA256 :: string where
  "MechanismSCRAMSHA256 = ''SCRAM-SHA-256''"

definition MechanismSCRAMSHA512 :: string where
  "MechanismSCRAMSHA512 = ''SCRAM-SHA-512''"

definition IsSCRAMMechanism :: "string \<Rightarrow> bool" where
  "IsSCRAMMechanism mech \<longleftrightarrow> mech = MechanismSCRAMSHA256 \<or> mech = MechanismSCRAMSHA512"

definition cutByte :: "string \<Rightarrow> char \<Rightarrow> string \<times> string \<times> bool" where
  "cutByte s sep =
     (case IndexByte s sep of Some i \<Rightarrow> (take i s, drop (i + 1) s, True) | None \<Rightarrow> (s, [], False))"

fun decode_escapes :: "string \<Rightarrow> go_error + string" where
  "decode_escapes [] = Inr []"
| "decode_escapes (c # cs) =
     (if c = CHR '','' then Inl (ErrNew ''decodeSASLname: unescaped comma'')
      else if c = CHR ''='' then
        (case cs of
           x # y # rest \<Rightarrow>
             if [x, y] = ''2C'' then map_sum id (Cons (CHR '','')) (decode_escapes rest)
             else if [x, y] = ''3D'' then map_sum id (Cons (CHR ''='')) (decode_escapes rest)
             else Inl (Errorf ''decodeSASLname: invalid escape =%s'' [FStr [x, y]])
         | _ \<Rightarrow> Inl (ErrNew ''decodeSASLname: truncated escape''))
      else map_sum id (Cons c) (decode_escapes cs))"

definition decodeSASLname :: "string \<Rightarrow> go_error + string" where
  "decodeSASLname raw =
     (if CHR ''='' \<notin> set raw
      then if CHR '','' \<in> set raw then Inl (ErrNew ''decodeSASLname: unescaped comma'') else Inr raw
      else decode_escapes raw)"

definition scram_username :: "string \<Rightarrow> go_error + string" where
  "scram_username bare =
     (if \<not> HasPrefix bare ''n='' then Inl (ErrNew ''ParseSCRAMClientFirstUsername: missing n= attribute'')
      else case cutByte (drop 2 bare) (CHR '','') of (rawName, _, ok) \<Rightarrow>
        if \<not> ok then Inl (ErrNew ''ParseSCRAMClientFirstUsername: missing nonce separator'')
        else if rawName = [] then Inl (ErrNew ''ParseSCRAMClientFirstUsername: empty username'')
        else case decodeSASLname rawName of
               Inl err \<Rightarrow> Inl (Wrap err ''ParseSCRAMClientFirstUsername'')
             | Inr name \<Rightarrow> Inr name)"

definition ParseSCRAMClientFirstUsername :: "byte list \<Rightarrow> go_error + string" where
  "ParseSCRAMClientFirstUsername payload =
     (case cutByte (str_of payload) (CHR '','') of (cb, rest, ok) \<Rightarrow>
      if \<not> ok then Inl (ErrNew ''ParseSCRAMClientFirstUsername: missing gs2 cbind-flag separator'')
      else if cb \<noteq> ''n'' then
        (if cb = ''y'' \<or> HasPrefix cb ''p=''
         then Inl (ErrNew ''ParseSCRAMClientFirstUsername: channel binding not supported'')
         else Inl (Errorf ''ParseSCRAMClientFirstUsername: invalid gs2 cbind-flag %q'' [FStr cb]))
      else case cutByte rest (CHR '','') of (_, bare, ok) \<Rightarrow>
        if \<not> ok then Inl (ErrNew ''ParseSCRAMClientFirstUsername: missing authzid separator'')
        else if HasPrefix bare ''m='' then
          (case cutByte bare (CHR '','') of (_, after, ok) \<Rightarrow>
             if \<not> ok then Inl (ErrNew ''ParseSCRAMClientFirstUsername: malformed reserved-mext'')
             else scram_username after)
        else scram_username bare)"

text \<open>The specification side: the payloads of RFC 4616 and RFC 5802.\<close>

definition plain_payload :: "string \<Rightarrow> string \<Rightarrow> string \<Rightarrow> byte list" where
  "plain_payload authzid user pass = bytes_of authzid @ [0] @ bytes_of user @ [0] @ bytes_of pass"

definition no_nul :: "string \<Rightarrow> bool" where
  "no_nul s \<longleftrightarrow> CHR 0x00 \<notin> set s"

fun encodeSASLname :: "string \<Rightarrow> string" where
  "encodeSASLname [] = []"
| "encodeSASLname (c # cs) =
     (if c = CHR '','' then ''=2C'' else if c = CHR ''='' then ''=3D'' else [c]) @ encodeSASLname cs"

definition client_first :: "string \<Rightarrow> string \<Rightarrow> string \<Rightarrow> string \<Rightarrow> byte list" where
  "client_first authzid mext name rest =
     bytes_of (''n,'' @ authzid @ '','' @ mext @ ''n='' @ encodeSASLname name @ '','' @ rest)"

definition mext_ok :: "string \<Rightarrow> bool" where
  "mext_ok mext \<longleftrightarrow> mext = [] \<or> (\<exists>v. mext = ''m='' @ v @ '','' \<and> CHR '','' \<notin> set v)"

subsection \<open>PLAIN payloads\<close>

lemma plain_scan_no_nul: "0 \<notin> set bs \<Longrightarrow> plain_scan (bs @ cs) i f = plain_scan cs (i + length bs) f"
  by (induction bs arbitrary: i) auto

lemma plain_scan_Some:
  "plain_scan bs i (Some f) = (a, Some j) \<Longrightarrow>
     a = Some f \<and> i \<le> j \<and> (\<exists>u v. bs = u @ 0 # v \<and> 0 \<notin> set u \<and> j = i + length u)"
proof (induction bs arbitrary: i)
  case (Cons b bs)
  show ?case
  proof (cases "b = 0")
    case True
    with Cons.prems show ?thesis by force
  next
    case False
    with Cons obtain u v where "a = Some f" "bs = u @ 0 # v" "0 \<notin> set u" "j = i + 1 + length u"
      by force
    with False show ?thesis
      by (intro conjI exI [of _ "b # u"] exI [of _ v]) auto
  qed
qed simp

lemma plain_scan_None:
  "plain_scan bs i None = (Some f, Some j) \<Longrightarrow>
     \<exists>u v w. bs = u @ 0 # v @ 0 # w \<and> 0 \<notin> set u \<and> 0 \<notin> set v \<and>
       f = i + length u \<and> j = f + 1 + length v"
proof (induction bs arbitrary: i)
  case (Cons b bs)
  show ?case
  proof (cases "b = 0")
    case True
    with Cons.prems have "plain_scan bs (i + 1) (Some i) = (Some f, Some j)"
      by simp
    from plain_scan_Some [OF this] obtain v w where "f = i" "bs = v @ 0 # w" "0 \<notin> set v" "j = i + 1 + length v"
      by auto
    with True show ?thesis
      by (intro exI [of _ "[]"] exI [of _ v] exI [of _ w]) auto
  next
    case False
    with Cons obtain u v w where "bs = u @ 0 # v @ 0 # w" "0 \<notin> set u" "0 \<notin> set v"
      "f = i + 1 + length u" "j = f + 1 + length v"
      by force
    with False show ?thesis
      by (intro exI [of _ "b # u"] exI [of _ v] exI [of _ w]) auto
  qed
qed simp

lemma zero_in_bytes_of: "0 \<in> set (bytes_of s) \<longleftrightarrow> \<not> no_nul s"
proof -
  have "byte_of_char (CHR 0x00) = 0"
    by (simp add: byte_of_char_def)
  then have "0 \<in> set (bytes_of s) \<longleftrightarrow> byte_of_char (CHR 0x00) \<in> byte_of_char ` set s"
    by (simp add: bytes_of_def)
  also have "\<dots> \<longleftrightarrow> CHR 0x00 \<in> set s"
    by (simp add: image_iff)
  finally show ?thesis by (simp add: no_nul_def)
qed

lemma ParsePlain_payload:
  assumes "no_nul a" and "no_nul u"
  shows "ParsePlain (plain_payload a u p) = Inr \<lparr>Authzid = a, Username = u, Password = p\<rparr>"
proof -
  have "plain_scan (plain_payload a u p) 0 None = (Some (length a), Some (length a + 1 + length u))"
    using assms by (simp add: plain_payload_def plain_scan_no_nul zero_in_bytes_of)
  then show ?thesis
    by (simp add: ParsePlain_def) (simp add: plain_payload_def)
qed

lemma ParsePlain_Inr:
  assumes "ParsePlain b = Inr c"
  shows "b = plain_payload (Authzid c) (Username c) (Password c)" and "no_nul (Authzid c)" and "no_nul (Username c)"
proof -
  from assms obtain f j where s: "plain_scan b 0 None = (Some f, Some j)"
    and c: "c = \<lparr>Authzid = str_of (take f b), Username = str_of (take (j - (f + 1)) (drop (f + 1) b)),
      Password = str_of (drop (j + 1) b)\<rparr>"
    by (auto simp: ParsePlain_def split: prod.splits option.splits)
  from plain_scan_None [OF s] obtain u v w where b: "b = u @ 0 # v @ 0 # w"
    and z: "0 \<notin> set u" "0 \<notin> set v" and f: "f = length u" "j = f + 1 + length v"
    by auto
  have "Authzid c = str_of u" "Username c = str_of v" "Password c = str_of w"
    using b f c by simp_all
  then show "b = plain_payload (Authzid c) (Username c) (Password c)" "no_nul (Authzid c)" "no_nul (Username c)"
    using b z zero_in_bytes_of [of "str_of u"] zero_in_bytes_of [of "str_of v"]
    by (simp_all add: plain_payload_def)
qed

subsection \<open>SCRAM client-first messages\<close>

lemma cutByte_append: "c \<notin> set s \<Longrightarrow> cutByte (s @ c # t) c = (s, t, True)"
  by (simp add: cutByte_def)

lemma cutByte_True:
  assumes "cutByte s c = (a, b, True)"
  shows "s = a @ c # b \<and> c \<notin> set a"
proof -
  from assms obtain i where i: "IndexByte s c = Some i" and "a = take i s" "b = drop (i + 1) s"
    by (auto simp: cutByte_def split: option.splits)
  with IndexByte_Some [OF i] show ?thesis
    by (auto simp: id_take_nth_drop)
qed

lemma comma_encodeSASLname: "CHR '','' \<notin> set (encodeSASLname s)"
  by (induction s) auto

lemma encodeSASLname_Nil_iff [simp]: "encodeSASLname s = [] \<longleftrightarrow> s = []"
  by (cases s) auto

lemma decode_escapes_encode: "decode_escapes (encodeSASLname s) = Inr s"
  by (induction s) auto

lemma encode_plain: "CHR ''='' \<notin> set (encodeSASLname s) \<Longrightarrow> encodeSASLname s = s"
  by (induction s) (auto split: if_splits)

lemma decodeSASLname_encode: "decodeSASLname (encodeSASLname s) = Inr s"
  using comma_encodeSASLname [of s] encode_plain [of s]
  by (auto simp: decodeSASLname_def decode_escapes_encode)

lemma decode_escapes_Inr: "decode_escapes raw = Inr s \<Longrightarrow> raw = encodeSASLname s"
proof (induction raw arbitrary: s rule: decode_escapes.induct)
  case (2 c cs)
  show ?case
  proof (cases "c = CHR ''=''")
    case False
    with "2.prems" obtain t where "decode_escapes cs = Inr t" "s = c # t" "c \<noteq> CHR '',''"
      by (auto split: if_splits) (metis map_sum.simps(1) map_sum.simps(2) old.sum.exhaust sum.distinct(1) sum.inject(2))
    with "2.IH" False show ?thesis by auto
  next
    case True
    with "2.prems" obtain x y rest where cs: "cs = x # y # rest"
      by (auto split: list.splits)
    from "2.prems" True cs consider
        t where "[x, y] = ''2C''" "decode_escapes rest = Inr t" "s = CHR '','' # t"
      | t where "[x, y] = ''3D''" "decode_escapes rest = Inr t" "s = CHR ''='' # t"
      by (cases "decode_escapes rest") (auto split: if_splits)
    then show ?thesis
      using "2.IH" True cs by cases auto
  qed
qed simp

lemma decodeSASLname_Inr: "decodeSASLname raw = Inr s \<Longrightarrow> raw = encodeSASLname s"
proof -
  assume a: "decodeSASLname raw = Inr s"
  show ?thesis
  proof (cases "CHR ''='' \<in> set raw")
    case True
    with a show ?thesis by (simp add: decodeSASLname_def decode_escapes_Inr)
  next
    case False
    with a have "s = raw" and "CHR '','' \<notin> set raw"
      by (auto simp: decodeSASLname_def split: if_splits)
    moreover have "encodeSASLname raw = raw" if "CHR '','' \<notin> set raw" "CHR ''='' \<notin> set raw"
      using that by (induction raw) auto
    ultimately show ?thesis using False by simp
  qed
qed

lemma scram_username_encode:
  "name \<noteq> [] \<Longrightarrow> scram_username (''n='' @ encodeSASLname name @ '','' @ rest) = Inr name"
  using cutByte_append [OF comma_encodeSASLname, of name rest]
  by (simp add: scram_username_def HasPrefix_def decodeSASLname_encode)

lemma scram_username_Inr:
  assumes "scram_username bare = Inr name"
  shows "\<exists>rest. bare = ''n='' @ encodeSASLname name @ '','' @ rest \<and> name \<noteq> []"
proof -
  from assms obtain raw rest where p: "HasPrefix bare ''n=''"
    and c: "cutByte (drop 2 bare) (CHR '','') = (raw, rest, True)" and raw: "raw \<noteq> []"
    and d: "decodeSASLname raw = Inr name"
    by (auto simp: scram_username_def split: prod.splits if_splits sum.splits)
  from decodeSASLname_Inr [OF d] raw have "raw = encodeSASLname name" and "name \<noteq> []"
    by auto
  moreover from p have "bare = ''n='' @ drop 2 bare"
    by (auto simp: HasPrefix_iff)
  ultimately show ?thesis
    using cutByte_True [OF c] by (metis append.assoc append_Cons append_Nil)
qed

lemma ParseSCRAM_client_first:
  assumes "CHR '','' \<notin> set authzid" and "mext_ok mext" and "name \<noteq> []"
  shows "ParseSCRAMClientFirstUsername (client_first authzid mext name rest) = Inr name"
proof -
  let ?bare = "mext @ ''n='' @ encodeSASLname name @ '','' @ rest"
  have 1: "cutByte (''n,'' @ authzid @ '','' @ ?bare) (CHR '','') = (''n'', authzid @ '','' @ ?bare, True)"
    using cutByte_append [of "CHR '',''" "''n''" "authzid @ '','' @ ?bare"] by simp
  have 2: "cutByte (authzid @ '','' @ ?bare) (CHR '','') = (authzid, ?bare, True)"
    using cutByte_append [OF assms(1), of ?bare] by simp
  have 3: "cutByte ?bare (CHR '','') = (''m='' @ v, ''n='' @ encodeSASLname name @ '','' @ rest, True)"
    if "mext = ''m='' @ v @ '',''" "CHR '','' \<notin> set v" for v
    using cutByte_append [of "CHR '',''" "''m='' @ v" "''n='' @ encodeSASLname name @ '','' @ rest"] that by simp
  show ?thesis
    using assms(2) 1 2 3 scram_username_encode [OF assms(3), of rest]
    by (auto simp: ParseSCRAMClientFirstUsername_def client_first_def mext_ok_def HasPrefix_def)
qed

lemma ParseSCRAM_Inr:
  assumes "ParseSCRAMClientFirstUsername payload = Inr name"
  shows "\<exists>authzid mext rest. payload = client_first authzid mext name rest \<and>
    CHR '','' \<notin> set authzid \<and> mext_ok mext \<and> name \<noteq> []"
proof -
  from assms obtain r where c1: "cutByte (str_of payload) (CHR '','') = (''n'', r, True)"
    by (auto simp: ParseSCRAMClientFirstUsername_def split: prod.splits if_splits)
  with assms obtain a bare where c2: "cutByte r (CHR '','') = (a, bare, True)"
    and b: "(if HasPrefix bare ''m='' then
          (case cutByte bare (CHR '','') of (_, after, ok) \<Rightarrow>
             if \<not> ok then Inl (ErrNew ''ParseSCRAMClientFirstUsername: malformed reserved-mext'')
             else scram_username after)
        else scram_username bare) = Inr name"
    by (auto simp: ParseSCRAMClientFirstUsername_def split: prod.splits if_splits)
  have "\<exists>mext rest. bare = mext @ ''n='' @ encodeSASLname name @ '','' @ rest \<and> mext_ok mext \<and> name \<noteq> []"
  proof (cases "HasPrefix bare ''m=''")
    case True
    with b obtain m after where c3: "cutByte bare (CHR '','') = (m, after, True)" and u: "scram_username after = Inr name"
      by (auto split: prod.splits if_splits)
    from cutByte_True [OF c3] have bare: "bare = m @ '','' @ after" and nc: "CHR '','' \<notin> set m"
      by auto
    with True obtain v where v: "m = ''m='' @ v"
      by (cases m; cases "tl m") (auto simp: HasPrefix_iff)
    have "mext_ok (m @ '','')"
      using v nc by (auto simp: mext_ok_def)
    with scram_username_Inr [OF u] bare show ?thesis by (metis append.assoc)
  next
    case False
    with b scram_username_Inr [of bare name] show ?thesis
      by - (rule exI [of _ "[]"], auto simp: mext_ok_def)
  qed
  then obtain mext rest where bare: "bare = mext @ ''n='' @ encodeSASLname name @ '','' @ rest"
    and ok: "mext_ok mext" "name \<noteq> []"
    by blast
  have "str_of payload = ''n,'' @ a @ '','' @ mext @ ''n='' @ encodeSASLname name @ '','' @ rest"
    using cutByte_True [OF c1] cutByte_True [OF c2] bare by simp
  then have "payload = client_first a mext name rest"
    unfolding client_first_def by (metis bytes_of_str_of)
  then show ?thesis
    using ok cutByte_True [OF c2] by blast
qed

subsection \<open>Properties\<close>



text \<open>What is printed or logged of PLAIN credentials does not depend on the password, for
  String, GoString and LogValue alike.\<close>

lemma credentials_redacted:
  "PlainCredentials_String (c\<lparr>Password := p\<rparr>) = PlainCredentials_String c \<and>
   PlainCredentials_GoString (c\<lparr>Password := p\<rparr>) = PlainCredentials_GoString c \<and>
   PlainCredentials_LogValue (c\<lparr>Password := p\<rparr>) = PlainCredentials_LogValue c"
  by (simp add: PlainCredentials_String_def PlainCredentials_GoString_def PlainCredentials_LogValue_def)

end
