(* ===== verification/Go_Addresses.thy ===== *)
theory Go_Addresses
  imports Kroxy_Prelude
begin

text \<open>
  The functions of Go's library on network addresses and decimal numbers that kroxy calls:
  \<open>net.SplitHostPort\<close>, \<open>strconv.Atoi\<close> and \<open>strconv.Itoa\<close>. The first follows the branches of the
  library's source, the second its accumulation loop with the two overflow tests, on a platform
  whose \<open>int\<close> has 64 bits.
\<close>

subsection \<open>Model\<close>

definition LastIndexByte :: "'a list \<Rightarrow> 'a \<Rightarrow> nat option" where
  "LastIndexByte s c = map_option (\<lambda>i. length s - 1 - i) (IndexByte (rev s) c)"

definition addrErr :: "string \<Rightarrow> string \<Rightarrow> go_error + 'a" where
  "addrErr addr why = Inl (Errorf (''address %s: '' @ why) [FStr addr])"

definition quoted :: "char \<Rightarrow> string" where
  "quoted c = [CHR 0x27, c, CHR 0x27]"

definition bracket_check :: "string \<Rightarrow> nat \<Rightarrow> nat \<Rightarrow> string \<Rightarrow> nat \<Rightarrow> go_error + string \<times> string" where
  "bracket_check hostport j k host i =
     (if IndexByte (drop j hostport) (CHR ''['') \<noteq> None then addrErr hostport (''unexpected '' @ quoted (CHR ''['') @ '' in address'')
      else if IndexByte (drop k hostport) (CHR '']'') \<noteq> None then addrErr hostport (''unexpected '' @ quoted (CHR '']'') @ '' in address'')
      else Inr (host, drop (i + 1) hostport))"

definition SplitHostPort :: "string \<Rightarrow> go_error + string \<times> string" where
  "SplitHostPort hostport =
     (case LastIndexByte hostport (CHR '':'') of
        None \<Rightarrow> addrErr hostport ''missing port in address''
      | Some i \<Rightarrow>
          if hd hostport = CHR ''['' then
            (case IndexByte hostport (CHR '']'') of
               None \<Rightarrow> addrErr hostport (''missing '' @ quoted (CHR '']'') @ '' in address'')
             | Some e \<Rightarrow>
                 if e + 1 = length hostport then addrErr hostport ''missing port in address''
                 else if e + 1 = i then bracket_check hostport 1 (e + 1) (take (e - 1) (drop 1 hostport)) i
                 else if hostport ! (e + 1) = CHR '':'' then addrErr hostport ''too many colons in address''
                 else addrErr hostport ''missing port in address'')
          else if IndexByte (take i hostport) (CHR '':'') \<noteq> None then addrErr hostport ''too many colons in address''
          else bracket_check hostport 0 0 (take i hostport) i)"

definition digit_val :: "char \<Rightarrow> nat option" where
  "digit_val c = (let n = of_char c :: nat in if 48 \<le> n \<and> n \<le> 57 then Some (n - 48) else None)"

definition syntaxError :: "string \<Rightarrow> go_error" where
  "syntaxError s = Errorf ''strconv.Atoi: parsing %q: invalid syntax'' [FStr s]"

definition rangeError :: "string \<Rightarrow> go_error" where
  "rangeError s = Errorf ''strconv.Atoi: parsing %q: value out of range'' [FStr s]"

fun parse_uint_loop :: "string \<Rightarrow> nat \<Rightarrow> string \<Rightarrow> go_error + nat" where
  "parse_uint_loop s0 n [] = Inr n"
| "parse_uint_loop s0 n (c # cs) =
     (case digit_val c of
        None \<Rightarrow> Inl (syntaxError s0)
      | Some d \<Rightarrow>
          if (2 ^ 64 - 1) div 10 + 1 \<le> n then Inl (rangeError s0)
          else if 2 ^ 64 - 1 < n * 10 + d then Inl (rangeError s0)
          else parse_uint_loop s0 (n * 10 + d) cs)"

definition Atoi :: "string \<Rightarrow> go_error + int" where
  "Atoi s =
     (if s = [] then Inl (syntaxError s)
      else let neg = (hd s = CHR ''-'');
               digits = (if hd s = CHR ''+'' \<or> hd s = CHR ''-'' then tl s else s)
           in if digits = [] then Inl (syntaxError s)
              else case parse_uint_loop s 0 digits of
                     Inl e \<Rightarrow> Inl e
                   | Inr un \<Rightarrow>
                       if \<not> neg \<and> 2 ^ 63 \<le> un then Inl (rangeError s)
                       else if neg \<and> 2 ^ 63 < un then Inl (rangeError s)
                       else Inr (if neg then - int un else int un))"

fun Itoa_nat :: "nat \<Rightarrow> string" where
  "Itoa_nat n = (if n < 10 then [char_of (48 + n)] else Itoa_nat (n div 10) @ [char_of (48 + n mod 10)])"

definition Itoa :: "int \<Rightarrow> string" where
  "Itoa i = (if i < 0 then CHR ''-'' # Itoa_nat (nat (- i)) else Itoa_nat (nat i))"

declare Itoa_nat.simps [simp del]

subsection \<open>Addresses\<close>

lemma IndexByte_rev_append: "c \<notin> set t \<Longrightarrow> LastIndexByte (s @ c # t) c = Some (length s)"
  using IndexByte_append [of c "rev t" "rev s"] by (simp add: LastIndexByte_def)

lemma LastIndexByte_Some:
  assumes "LastIndexByte s c = Some i"
  shows "\<exists>t u. s = t @ c # u \<and> c \<notin> set u \<and> i = length t"
proof -
  have "c \<in> set s"
    using assms IndexByte_None_iff [of "rev s" c] by (cases "c \<in> set s") (auto simp: LastIndexByte_def)
  then obtain t u where s: "s = t @ c # u" "c \<notin> set u"
    by (meson split_list_last)
  with assms IndexByte_rev_append [of c u t] show ?thesis by auto
qed

lemma LastIndexByte_None: "LastIndexByte s c = None \<longleftrightarrow> c \<notin> set s"
  by (simp add: LastIndexByte_def IndexByte_None_iff)

lemma SplitHostPort_plain:
  assumes "set host \<inter> {CHR '':'', CHR ''['', CHR '']''} = {}"
    and "set port \<inter> {CHR '':'', CHR ''['', CHR '']''} = {}"
  shows "SplitHostPort (host @ CHR '':'' # port) = Inr (host, port)"
proof -
  have h: "hd (host @ CHR '':'' # port) \<noteq> CHR ''[''"
    using assms by (cases host) auto
  have n: "IndexByte xs c = None" if "c \<notin> set xs" for xs and c :: char
    using that by (simp add: IndexByte_None_iff)
  show ?thesis
    using assms h by (auto simp: SplitHostPort_def IndexByte_rev_append bracket_check_def n)
qed

lemma SplitHostPort_Inr:
  assumes "SplitHostPort s = Inr (host, port)"
  shows "(s = host @ CHR '':'' # port \<or> s = CHR ''['' # host @ '']:'' @ port) \<and>
    set port \<inter> {CHR '':'', CHR ''['', CHR '']''} = {}"
proof -
  from assms obtain i where i: "LastIndexByte s (CHR '':'') = Some i"
    by (cases "LastIndexByte s (CHR '':'')") (simp_all add: SplitHostPort_def addrErr_def)
  obtain t u where s: "s = t @ CHR '':'' # u" and u: "CHR '':'' \<notin> set u" and it: "i = length t"
    using LastIndexByte_Some [OF i] by (elim exE conjE) (rule that)
  show ?thesis
  proof (cases "hd s = CHR ''[''")
    case False
    with assms i have "bracket_check s 0 0 (take i s) i = Inr (host, port)"
      by (simp add: SplitHostPort_def addrErr_def split: if_splits)
    then have "host = take i s" "port = drop (i + 1) s" "CHR ''['' \<notin> set s" "CHR '']'' \<notin> set s"
      by (simp_all add: bracket_check_def addrErr_def IndexByte_None_iff split: if_splits)
    with s u it show ?thesis by auto
  next
    case True
    with assms i obtain e where e: "IndexByte s (CHR '']'') = Some e" and ei: "e + 1 = i"
      and r: "bracket_check s 1 (e + 1) (take (e - 1) (drop 1 s)) i = Inr (host, port)"
      by (simp add: SplitHostPort_def addrErr_def split: option.splits if_splits)
    from IndexByte_Some [OF e] have se: "e < length s" "s ! e = CHR '']''"
      by auto
    have "t \<noteq> []"
      using ei it by auto
    with True s obtain t' where t': "t = CHR ''['' # t'"
      by (cases t) auto
    have "e \<noteq> 0"
      using se True s t' by (cases e) auto
    have "s ! e = t ! e"
      using ei it s by (simp add: nth_append)
    then have "t ! e = CHR '']''" and lt: "length t' = e"
      using se ei t' it by simp_all
    then have "last t' = CHR '']''"
      using \<open>e \<noteq> 0\<close> t' by (cases t' rule: rev_cases) (auto simp: nth_append)
    moreover have "t' \<noteq> []"
      using lt \<open>e \<noteq> 0\<close> by auto
    ultimately obtain h where h: "t' = h @ [CHR '']'']"
      by (metis append_butlast_last_id)
    have "host = h" and "port = u" and "CHR ''['' \<notin> set u" "CHR '']'' \<notin> set u"
      using r s t' ei lt h it by (auto simp: bracket_check_def addrErr_def IndexByte_None_iff split: if_splits)
    then show ?thesis
      using s t' h u by auto
  qed
qed

subsection \<open>Decimal numbers\<close>

lemma digit_val_char: "d < 10 \<Longrightarrow> digit_val (char_of (48 + d)) = Some d"
  by (simp add: digit_val_def Let_def of_char_of)

lemma parse_uint_loop_Itoa:
  "n < 2 ^ 64 \<Longrightarrow> parse_uint_loop s0 0 (Itoa_nat n @ cs) = parse_uint_loop s0 n cs"
proof (induction n arbitrary: cs rule: Itoa_nat.induct)
  case (1 n)
  show ?case
  proof (cases "n < 10")
    case True
    then show ?thesis
      by (simp add: Itoa_nat.simps digit_val_char)
  next
    case False
    have "n div 10 < (2 ^ 64 - 1) div 10 + 1" and "n div 10 * 10 + n mod 10 = n" and "n div 10 < 2 ^ 64"
      using "1.prems" by simp_all
    then show ?thesis
      using False "1.IH" [of "char_of (48 + n mod 10) # cs"] "1.prems"
      by (simp add: Itoa_nat.simps [of n] digit_val_char)
  qed
qed

lemma Itoa_nat_hd: "\<exists>(d::nat) cs. d < 10 \<and> Itoa_nat n = char_of (48 + d) # cs"
proof (induction n rule: Itoa_nat.induct)
  case (1 n)
  then show ?case
    by (cases "n < 10") (force simp: Itoa_nat.simps [of n])+
qed

lemma Atoi_Itoa:
  assumes "n < 2 ^ 63"
  shows "Atoi (Itoa_nat n) = Inr (int n)"
proof -
  obtain d :: nat and cs where d: "d < 10" and e: "Itoa_nat n = char_of (48 + d) # cs"
    using Itoa_nat_hd by blast
  have "digit_val (hd (Itoa_nat n)) = Some d"
    using d e by (simp add: digit_val_char)
  then have "hd (Itoa_nat n) \<noteq> CHR ''-''" and "hd (Itoa_nat n) \<noteq> CHR ''+''"
    by (auto simp: digit_val_def)
  moreover have "parse_uint_loop (Itoa_nat n) 0 (Itoa_nat n) = Inr n"
    using parse_uint_loop_Itoa [of n "Itoa_nat n" "[]"] assms by simp
  ultimately show ?thesis
    using assms e by (simp add: Atoi_def Let_def)
qed

lemma Itoa_nat_digits: "c \<in> set (Itoa_nat n) \<Longrightarrow> digit_val c \<noteq> None"
proof (induction n rule: Itoa_nat.induct)
  case (1 n)
  then show ?case
    by (cases "n < 10") (auto simp: Itoa_nat.simps [of n] digit_val_char)
qed

lemma Itoa_nat_no_sep: "set (Itoa_nat n) \<inter> {CHR '':'', CHR ''['', CHR '']''} = {}"
  using Itoa_nat_digits [of _ n] by (fastforce simp: digit_val_def)

end
