(* ===== verification/Kroxy_Config.thy ===== *)
theory Kroxy_Config
  imports Tenant_Resolver Auth_SASL Go_Addresses
begin

text \<open>
  \<open>config/config.go\<close>: the configuration, its defaults and its validation.

  Reading the file and decoding the YAML are outside the repository: \<open>ReadFile\<close> and \<open>Unmarshal\<close>
  are parameters of \<open>Load\<close>, and so is \<open>LoadX509KeyPair\<close> of \<open>TLSConfig_Build\<close>. The mutation of
  the receiver by \<open>applyDefaults\<close> is a function on configurations.
\<close>

subsection \<open>Model\<close>

record TLSConfig =
  TLS_Enabled :: bool
  CertFile :: string
  KeyFile :: string

record MetricsConfig =
  Metrics_Enabled :: bool
  Metrics_Listen :: string

record AdminConfig =
  Admin_Enabled :: bool
  Admin_Listen :: string

record UpstreamSASLConfig =
  Mechanism :: string

record UpstreamConfig =
  Bootstrap :: string
  SASL :: UpstreamSASLConfig

record LogConfig =
  Level :: string
  Format :: string

record Config =
  Listen :: string
  Advertised :: string
  TLS :: TLSConfig
  UpstreamCfg :: UpstreamConfig
  ResolverCfg :: ResolverConfig
  Log :: LogConfig
  MetricsCfg :: MetricsConfig
  AdminCfg :: AdminConfig

record 'cert tls_Config =
  Certificates :: "'cert list"
  TLS_MinVersion :: int16

definition VersionTLS12 :: int16 where
  "VersionTLS12 = 0x0303"

definition TLSConfig_Build ::
    "(string \<Rightarrow> string \<Rightarrow> go_error + 'cert) \<Rightarrow> TLSConfig \<Rightarrow> go_error + 'cert tls_Config option" where
  "TLSConfig_Build LoadX509KeyPair t =
     (if \<not> TLS_Enabled t then Inr None
      else case LoadX509KeyPair (CertFile t) (KeyFile t) of
             Inl err \<Rightarrow> Inl (Wrap err ''TLSConfig.Build'')
           | Inr cert \<Rightarrow> Inr (Some \<lparr>Certificates = [cert], TLS_MinVersion = VersionTLS12\<rparr>))"

definition default_to :: "string \<Rightarrow> string \<Rightarrow> string" where
  "default_to d s = (if s = [] then d else s)"

definition applyDefaults :: "Config \<Rightarrow> Config" where
  "applyDefaults c =
     (let c = c\<lparr>Listen := default_to '':9092'' (Listen c)\<rparr>;
          c = c\<lparr>Log := (Log c)\<lparr>Level := default_to ''info'' (Level (Log c))\<rparr>\<rparr>;
          c = c\<lparr>Log := (Log c)\<lparr>Format := default_to ''json'' (Format (Log c))\<rparr>\<rparr>;
          c = c\<lparr>MetricsCfg := (MetricsCfg c)\<lparr>Metrics_Listen := default_to '':9090'' (Metrics_Listen (MetricsCfg c))\<rparr>\<rparr>;
          c = c\<lparr>AdminCfg := (AdminCfg c)\<lparr>Admin_Listen := default_to ''127.0.0.1:9095'' (Admin_Listen (AdminCfg c))\<rparr>\<rparr>;
          c = c\<lparr>ResolverCfg := (ResolverCfg c)\<lparr>ResolverType := default_to ''memory'' (ResolverType (ResolverCfg c))\<rparr>\<rparr>
      in c\<lparr>ResolverCfg := (ResolverCfg c)\<lparr>Memory := (Memory (ResolverCfg c))\<lparr>Tenants :=
             map (\<lambda>t. if Upstream t = [] then t\<lparr>Upstream := Bootstrap (UpstreamCfg c)\<rparr> else t)
               (Tenants (Memory (ResolverCfg c)))\<rparr>\<rparr>\<rparr>)"

fun validate_tenants :: "nat \<Rightarrow> Tenant list \<Rightarrow> go_error option" where
  "validate_tenants i [] = None"
| "validate_tenants i (t # ts) =
     (if ID t = [] then Some (Errorf ''config: resolver.memory.tenants[%d].id is required'' [FInt (int i)])
      else if TopicPrefix t = []
      then Some (Errorf ''config: resolver.memory.tenants[%d].topic_prefix is required'' [FInt (int i)])
      else validate_tenants (i + 1) ts)"

definition validateMemoryResolver :: "Config \<Rightarrow> go_error option" where
  "validateMemoryResolver c =
     (let ts = Tenants (Memory (ResolverCfg c))
      in if length ts = 0 \<and> \<not> Admin_Enabled (AdminCfg c)
         then Some (ErrNew ''config: resolver.memory.tenants must contain at least one entry (or enable the admin RPC)'')
         else validate_tenants 0 ts)"

definition validate_rest :: "Config \<Rightarrow> go_error option" where
  "validate_rest c =
     (let tls = (if TLS_Enabled (TLS c) \<and> (CertFile (TLS c) = [] \<or> KeyFile (TLS c) = [])
            then Some (ErrNew ''config: tls.cert_file and tls.key_file are required when tls.enabled'')
            else let m = Mechanism (SASL (UpstreamCfg c))
                 in if m \<noteq> [] \<and> \<not> IsSCRAMMechanism m
                    then Some (Errorf ''config: upstream.sasl.mechanism %q is not supported (use SCRAM-SHA-256 or SCRAM-SHA-512, or leave empty for PLAIN pass-through)'' [FStr m])
                    else None)
      in if Admin_Enabled (AdminCfg c)
         then (case SplitHostPort (Admin_Listen (AdminCfg c)) of
                 Inl err \<Rightarrow> Some (Wrap err ''config: admin.listen is invalid'')
               | Inr _ \<Rightarrow> tls)
         else tls)"

definition validate :: "Config \<Rightarrow> go_error option" where
  "validate c =
     (if Advertised c = [] then Some (ErrNew ''config: advertised is required'')
      else if Bootstrap (UpstreamCfg c) = [] then Some (ErrNew ''config: upstream.bootstrap is required'')
      else if ResolverType (ResolverCfg c) = ''memory''
      then (case validateMemoryResolver c of Some err \<Rightarrow> Some err | None \<Rightarrow> validate_rest c)
      else Some (Errorf ''config: unknown resolver.type %q'' [FStr (ResolverType (ResolverCfg c))]))"

definition Load ::
    "(string \<Rightarrow> go_error + byte list) \<Rightarrow> (byte list \<Rightarrow> go_error + Config) \<Rightarrow> string \<Rightarrow> go_error + Config" where
  "Load ReadFile Unmarshal path =
     (case ReadFile path of
        Inl err \<Rightarrow> Inl (Wrap err ''Load'')
      | Inr raw \<Rightarrow>
          (case Unmarshal raw of
             Inl err \<Rightarrow> Inl (Wrap err ''Load'')
           | Inr c \<Rightarrow>
               (let c = applyDefaults c
                in case validate c of Some err \<Rightarrow> Inl (Wrap err ''Load'') | None \<Rightarrow> Inr c)))"

subsection \<open>Defaults and validation\<close>

abbreviation config_tenants :: "Config \<Rightarrow> Tenant list" where
  "config_tenants c \<equiv> Tenants (Memory (ResolverCfg c))"

lemma default_to_simps [simp]:
  "default_to d (default_to d s) = default_to d s" "s \<noteq> [] \<Longrightarrow> default_to d s = s"
  "d \<noteq> [] \<Longrightarrow> default_to d s \<noteq> []"
  by (simp_all add: default_to_def)

lemma applyDefaults_sel [simp]:
  "UpstreamCfg (applyDefaults c) = UpstreamCfg c" "Advertised (applyDefaults c) = Advertised c"
  "TLS (applyDefaults c) = TLS c"
  "Admin_Enabled (AdminCfg (applyDefaults c)) = Admin_Enabled (AdminCfg c)"
  by (simp_all add: applyDefaults_def Let_def)

lemma applyDefaults_tenants:
  "config_tenants (applyDefaults c) =
     map (\<lambda>t. t\<lparr>Upstream := default_to (Bootstrap (UpstreamCfg c)) (Upstream t)\<rparr>) (config_tenants c)"
  by (simp add: applyDefaults_def Let_def default_to_def)

lemma applyDefaults_fields:
  "Listen (applyDefaults c) = default_to '':9092'' (Listen c)"
  "Log (applyDefaults c) = (Log c)\<lparr>Level := default_to ''info'' (Level (Log c)), Format := default_to ''json'' (Format (Log c))\<rparr>"
  "MetricsCfg (applyDefaults c) = (MetricsCfg c)\<lparr>Metrics_Listen := default_to '':9090'' (Metrics_Listen (MetricsCfg c))\<rparr>"
  "AdminCfg (applyDefaults c) = (AdminCfg c)\<lparr>Admin_Listen := default_to ''127.0.0.1:9095'' (Admin_Listen (AdminCfg c))\<rparr>"
  "ResolverType (ResolverCfg (applyDefaults c)) = default_to ''memory'' (ResolverType (ResolverCfg c))"
  by (simp_all add: applyDefaults_def Let_def)

lemma applyDefaults_twice: "applyDefaults (applyDefaults c) = applyDefaults c"
proof (rule Config.equality)
  have "ResolverType (ResolverCfg (applyDefaults (applyDefaults c))) = ResolverType (ResolverCfg (applyDefaults c))"
    by (simp add: applyDefaults_fields)
  moreover have "config_tenants (applyDefaults (applyDefaults c)) = config_tenants (applyDefaults c)"
    by (simp add: applyDefaults_tenants)
  ultimately show "ResolverCfg (applyDefaults (applyDefaults c)) = ResolverCfg (applyDefaults c)"
    by (intro ResolverConfig.equality MemoryConfig.equality) simp_all
qed (simp_all add: applyDefaults_fields)

lemma validate_tenants_None:
  "validate_tenants i ts = None \<longleftrightarrow> list_all (\<lambda>t. ID t \<noteq> [] \<and> TopicPrefix t \<noteq> []) ts"
  by (induction ts arbitrary: i) auto

definition config_ok :: "Config \<Rightarrow> bool" where
  "config_ok c \<longleftrightarrow>
     Advertised c \<noteq> [] \<and> Bootstrap (UpstreamCfg c) \<noteq> [] \<and> ResolverType (ResolverCfg c) = ''memory'' \<and>
     (config_tenants c \<noteq> [] \<or> Admin_Enabled (AdminCfg c)) \<and>
     list_all (\<lambda>t. ID t \<noteq> [] \<and> TopicPrefix t \<noteq> []) (config_tenants c) \<and>
     (Admin_Enabled (AdminCfg c) \<longrightarrow> (\<exists>h p. SplitHostPort (Admin_Listen (AdminCfg c)) = Inr (h, p))) \<and>
     (TLS_Enabled (TLS c) \<longrightarrow> CertFile (TLS c) \<noteq> [] \<and> KeyFile (TLS c) \<noteq> []) \<and>
     Mechanism (SASL (UpstreamCfg c)) \<in> {[], MechanismSCRAMSHA256, MechanismSCRAMSHA512}"

lemma validateMemoryResolver_None:
  "validateMemoryResolver c = None \<longleftrightarrow>
     (config_tenants c \<noteq> [] \<or> Admin_Enabled (AdminCfg c)) \<and>
     list_all (\<lambda>t. ID t \<noteq> [] \<and> TopicPrefix t \<noteq> []) (config_tenants c)"
  by (simp add: validateMemoryResolver_def Let_def validate_tenants_None)

lemma validate_rest_None:
  "validate_rest c = None \<longleftrightarrow>
     (Admin_Enabled (AdminCfg c) \<longrightarrow> (\<exists>h p. SplitHostPort (Admin_Listen (AdminCfg c)) = Inr (h, p))) \<and>
     (TLS_Enabled (TLS c) \<longrightarrow> CertFile (TLS c) \<noteq> [] \<and> KeyFile (TLS c) \<noteq> []) \<and>
     Mechanism (SASL (UpstreamCfg c)) \<in> {[], MechanismSCRAMSHA256, MechanismSCRAMSHA512}"
  by (auto simp: validate_rest_def Let_def IsSCRAMMechanism_def split: sum.splits)

lemma validate_None: "validate c = None \<longleftrightarrow> config_ok c"
proof -
  have "validate c = None \<longleftrightarrow>
      Advertised c \<noteq> [] \<and> Bootstrap (UpstreamCfg c) \<noteq> [] \<and> ResolverType (ResolverCfg c) = ''memory'' \<and>
      validateMemoryResolver c = None \<and> validate_rest c = None"
    by (simp add: validate_def split: option.split)
  then show ?thesis
    by (simp add: config_ok_def validateMemoryResolver_None validate_rest_None)
qed

lemma Load_Inr:
  "Load rf um path = Inr c \<longleftrightarrow>
     (\<exists>raw c0. rf path = Inr raw \<and> um raw = Inr c0 \<and> c = applyDefaults c0 \<and> config_ok c)"
  by (auto simp: Load_def Let_def validate_None [symmetric] split: sum.splits option.splits)

lemma Load_tenants_valid:
  assumes "Load rf um path = Inr c"
  shows "list_all valid_tenant (config_tenants c)"
  using assms by (auto simp: Load_Inr config_ok_def valid_tenant_def list_all_iff applyDefaults_tenants)

lemma resolver_New_config:
  assumes "Load rf um path = Inr c"
  shows "resolver_New (ResolverCfg c) = newMemoryResolver (config_tenants c)"
  using assms by (auto simp: Load_Inr config_ok_def resolver_New_def)

subsection \<open>Properties\<close>

text \<open>A minimal configuration: one tenant that takes the shared bootstrap address.\<close>

definition example_config :: Config where
  "example_config =
     \<lparr>Listen = [], Advertised = ''kroxy:9092'', TLS = \<lparr>TLS_Enabled = False, CertFile = [], KeyFile = []\<rparr>,
      UpstreamCfg = \<lparr>Bootstrap = ''k:9092'', SASL = \<lparr>Mechanism = []\<rparr>\<rparr>,
      ResolverCfg = \<lparr>ResolverType = [], Memory = \<lparr>Tenants = [\<lparr>ID = ''acme'', TopicPrefix = ''acme.'', Upstream = []\<rparr>]\<rparr>\<rparr>,
      Log = \<lparr>Level = [], Format = []\<rparr>, MetricsCfg = \<lparr>Metrics_Enabled = True, Metrics_Listen = []\<rparr>,
      AdminCfg = \<lparr>Admin_Enabled = False, Admin_Listen = []\<rparr>\<rparr>"

lemma example_config_Load: "Load (\<lambda>_. Inr []) (\<lambda>_. Inr example_config) ''config.yaml'' = Inr (applyDefaults example_config)"
  by (simp add: Load_Inr config_ok_def applyDefaults_fields applyDefaults_tenants example_config_def default_to_def)

text \<open>C39: Load succeeds exactly when the file is read and decoded and the configuration with its
  defaults satisfies the conditions of \<open>config_ok\<close>: no more and no fewer are checked. The result is
  the decoded configuration with defaults, and applying the defaults again would not change it.\<close>

theorem Load_exact:
  "Load ReadFile Unmarshal path = Inr c \<longleftrightarrow>
     (\<exists>raw c0. ReadFile path = Inr raw \<and> Unmarshal raw = Inr c0 \<and> c = applyDefaults c0 \<and>
        config_ok c \<and> applyDefaults c = c)"
  using Load_Inr [of ReadFile Unmarshal path c] by (auto simp: applyDefaults_twice)

text \<open>A configuration that Load accepts can make the construction of the resolver fail in one
  way only, by a repeated tenant id. When the ids are distinct every configured tenant can be looked
  up afterwards, each with a non-empty id, prefix and upstream address, the shared bootstrap address
  where it named none.\<close>

lemma Load_resolver:
  assumes "Load ReadFile Unmarshal path = Inr c"
  shows "((\<exists>r. resolver_New (ResolverCfg c) = Inr r) \<longleftrightarrow> distinct (map ID (config_tenants c))) \<and>
    (\<forall>r t. resolver_New (ResolverCfg c) = Inr r \<longrightarrow> t \<in> set (config_tenants c) \<longrightarrow>
       memoryResolver_Get r (ID t) = Inr t \<and> valid_tenant t)"
proof -
  note v = Load_tenants_valid [OF assms]
  have "memoryResolver_Get r (ID t) = Inr t \<and> valid_tenant t"
    if "newMemoryResolver (config_tenants c) = Inr r" "t \<in> set (config_tenants c)" for r t
    using that v by (auto simp: memory.Get_Inr newMemoryResolver_abs newMemoryResolver_Inr list_all_iff comp_def
        map_of_eq_Some_iff)
  then show ?thesis
    using v by (auto simp: resolver_New_config [OF assms] newMemoryResolver_Inr)
qed

end
