(* ===== verification/Observability.thy ===== *)
theory Observability
  imports Go_Addresses
begin

text \<open>
  \<open>observability/metrics.go\<close> and \<open>observability/logging.go\<close>. The instruments belong to the metrics
  library; what kroxy does with them is to declare and register them, which \<open>instruments\<close> lists, and the
  sequence of calls it makes, so \<open>Metrics\<close> is the list of those calls, with their label values. The
  logger is the level and the handler that \<open>NewLogger\<close> chooses. \<open>ToLower\<close> maps the ASCII letters: the other characters whose lower case is an ASCII letter
  map to \<open>i\<close> and \<open>k\<close>, which none of the words compared with contains.
\<close>

subsection \<open>Model\<close>

datatype metric =
    ConnectionsActive_Inc
  | ConnectionsActive_Dec
  | ConnectionsTotal_Inc
  | RequestsTotal_Inc string string
  | RequestDuration_Observe string string int
  | UpstreamErrorTotal_Inc string
  | ResolverCallsTotal_Inc string
  | SaslHandshakeTotal_Inc string string

type_synonym Metrics = "metric list"

definition NewMetrics :: Metrics where
  "NewMetrics = []"

definition ObserveRequest :: "16 word \<Rightarrow> string \<Rightarrow> int \<Rightarrow> Metrics \<Rightarrow> Metrics" where
  "ObserveRequest apiKey tenant dur m =
     (let k = Itoa (sint apiKey)
      in m @ [RequestsTotal_Inc k tenant, RequestDuration_Observe k tenant dur])"

text \<open>The instruments, as they are declared and in the order they are registered. The buckets of a histogram are the arguments of
  \<open>ExponentialBuckets\<close>: start, in units of a tenth of a millisecond, factor and count.\<close>

datatype instrument_kind = GaugeKind | CounterKind | HistogramKind nat nat nat

record instrument =
  Namespace :: string
  InstrumentName :: string
  Help :: string
  Kind :: instrument_kind
  Labels :: "string list"

definition instruments :: "instrument list" where
  "instruments =
     [\<lparr>Namespace = ''kroxy'', InstrumentName = ''connections_active'',
        Help = ''Number of currently open client connections.'', Kind = GaugeKind, Labels = []\<rparr>,
      \<lparr>Namespace = ''kroxy'', InstrumentName = ''connections_total'',
        Help = ''Total number of client connections accepted since process start.'', Kind = CounterKind, Labels = []\<rparr>,
      \<lparr>Namespace = ''kroxy'', InstrumentName = ''requests_total'',
        Help = ''Total Kafka requests handled, labelled by API key and tenant.'', Kind = CounterKind, Labels = [''api_key'', ''tenant'']\<rparr>,
      \<lparr>Namespace = ''kroxy'', InstrumentName = ''request_duration_seconds'',
        Help = ''Wall-clock time spent serving a single Kafka request.'', Kind = HistogramKind 5 2 14, Labels = [''api_key'', ''tenant'']\<rparr>,
      \<lparr>Namespace = ''kroxy'', InstrumentName = ''upstream_errors_total'',
        Help = ''Total number of upstream connection / round-trip errors.'', Kind = CounterKind, Labels = [''kind'']\<rparr>,
      \<lparr>Namespace = ''kroxy'', InstrumentName = ''resolver_calls_total'',
        Help = ''Total number of resolver lookups, labelled by result.'', Kind = CounterKind, Labels = [''result'']\<rparr>,
      \<lparr>Namespace = ''kroxy'', InstrumentName = ''sasl_handshakes_total'',
        Help = ''Total SASL handshake outcomes labelled by mechanism and result (ok, unsupported, malformed, unauthorized, upstream_error).'',
        Kind = CounterKind, Labels = [''mechanism'', ''result'']\<rparr>]"

text \<open>The instrument and the label values of a call, which together are the time series it counts for.\<close>

fun series :: "metric \<Rightarrow> string \<times> string list" where
  "series ConnectionsActive_Inc = (''connections_active'', [])"
| "series ConnectionsActive_Dec = (''connections_active'', [])"
| "series ConnectionsTotal_Inc = (''connections_total'', [])"
| "series (RequestsTotal_Inc k t) = (''requests_total'', [k, t])"
| "series (RequestDuration_Observe k t d) = (''request_duration_seconds'', [k, t])"
| "series (UpstreamErrorTotal_Inc kind) = (''upstream_errors_total'', [kind])"
| "series (ResolverCallsTotal_Inc result) = (''resolver_calls_total'', [result])"
| "series (SaslHandshakeTotal_Inc mech result) = (''sasl_handshakes_total'', [mech, result])"

definition declared :: "metric \<Rightarrow> bool" where
  "declared e \<longleftrightarrow> (\<exists>i \<in> set instruments. InstrumentName i = fst (series e) \<and> length (Labels i) = length (snd (series e)))"

definition ToLower :: "string \<Rightarrow> string" where
  "ToLower s = map (\<lambda>c. let n = of_char c :: nat in if 65 \<le> n \<and> n \<le> 90 then char_of (n + 32) else c) s"

datatype slog_Level = LevelDebug | LevelInfo | LevelWarn | LevelError

datatype slog_Handler = TextHandler | JSONHandler

record Logger =
  log_level :: slog_Level
  log_handler :: slog_Handler

definition NewLogger :: "string \<Rightarrow> string \<Rightarrow> Logger" where
  "NewLogger level format =
     \<lparr>log_level =
        (if ToLower level = ''debug'' then LevelDebug
         else if ToLower level = ''warn'' then LevelWarn
         else if ToLower level = ''error'' then LevelError
         else LevelInfo),
      log_handler = (if ToLower format = ''text'' then TextHandler else JSONHandler)\<rparr>"

subsection \<open>The gauge of active connections\<close>

fun active :: "Metrics \<Rightarrow> int" where
  "active [] = 0"
| "active (ConnectionsActive_Inc # m) = active m + 1"
| "active (ConnectionsActive_Dec # m) = active m - 1"
| "active (_ # m) = active m"

lemma active_append [simp]: "active (m @ n) = active m + active n"
  by (induction m rule: active.induct) auto

lemma active_ObserveRequest [simp]: "active (ObserveRequest k t d m) = active m"
  by (simp add: ObserveRequest_def Let_def)

subsection \<open>Instruments and calls fit together\<close>

lemma instruments_distinct: "distinct (map (\<lambda>i. (Namespace i, InstrumentName i)) instruments)"
  by (simp add: instruments_def)

lemma calls_declared: "declared e"
  by (cases e) (simp_all add: declared_def instruments_def)

end
