(* ===== verification/Protocol_Framing.thy ===== *)
theory Protocol_Framing
  imports Kroxy_Prelude
begin

text \<open>
  \<open>protocol/framing.go\<close>: the length-prefixed frames of the Kafka wire protocol, over a model of
  a network connection.

  A \<open>stream\<close> is one end of a connection. \<open>rd\<close> holds the bytes that will still arrive, and
  \<open>rd_end\<close> the error every read returns after them (\<open>EOF\<close> when the peer closed, another
  value for a reset or an expired deadline). \<open>wr\<close> collects the bytes written, \<open>wr_left\<close> is
  how many more the connection accepts before writes fail with \<open>wr_err\<close> (\<open>None\<close>: no limit),
  and \<open>deadline_err\<close> is what setting a deadline returns. \<open>rd_deadline\<close> and \<open>wr_deadline\<close> record the
  last deadlines set, as durations in nanoseconds from the time of the call (\<open>None\<close>: no deadline); an
  expired one shows as the error that ends the input or the output. Every run of the proxy against any peer
  is a run against one such stream, because a theorem about all values of these fields covers all
  peers.
\<close>

record stream =
  rd :: "byte list"
  rd_end :: go_error
  wr :: "byte list"
  wr_left :: "nat option"
  wr_err :: go_error
  deadline_err :: "go_error option"
  rd_deadline :: "int option"
  wr_deadline :: "int option"
  closed :: bool
  remote_addr :: string

definition ReadFull :: "stream \<Rightarrow> nat \<Rightarrow> (go_error + byte list) \<times> stream" where
  "ReadFull s n =
     (let got = take n (rd s); s' = s\<lparr>rd := drop n (rd s)\<rparr>
      in if length got = n then (Inr got, s')
         else if got = [] then (Inl (rd_end s), s')
         else (Inl (if rd_end s = EOF then ErrUnexpectedEOF else rd_end s), s'))"

definition net_Write :: "stream \<Rightarrow> byte list \<Rightarrow> go_error option \<times> stream" where
  "net_Write s b =
     (case wr_left s of
        None \<Rightarrow> (None, s\<lparr>wr := wr s @ b\<rparr>)
      | Some n \<Rightarrow>
          if length b \<le> n then (None, s\<lparr>wr := wr s @ b, wr_left := Some (n - length b)\<rparr>)
          else (Some (wr_err s), s\<lparr>wr := wr s @ take n b, wr_left := Some 0\<rparr>))"

definition SetReadDeadline :: "int option \<Rightarrow> stream \<Rightarrow> go_error option \<times> stream" where
  "SetReadDeadline d s =
     (deadline_err s, if deadline_err s = None then s\<lparr>rd_deadline := d\<rparr> else s)"

definition SetDeadline :: "int option \<Rightarrow> stream \<Rightarrow> go_error option \<times> stream" where
  "SetDeadline d s =
     (deadline_err s, if deadline_err s = None then s\<lparr>rd_deadline := d, wr_deadline := d\<rparr> else s)"

definition net_Close :: "stream \<Rightarrow> stream" where
  "net_Close s = s\<lparr>closed := True\<rparr>"

definition MaxFrameSize :: uint32 where
  "MaxFrameSize = 100 * 1024 * 1024"

definition ReadFrame :: "stream \<Rightarrow> (go_error + byte list) \<times> stream" where
  "ReadFrame r =
     (case ReadFull r 4 of
        (Inl err, r) \<Rightarrow>
          if errors_Is err ErrUnexpectedEOF then (Inl (Wrap err ''ReadFrame''), r) else (Inl err, r)
      | (Inr hdr, r) \<Rightarrow>
          let size = BigEndian_Uint32 hdr
          in if size = 0 then (Inl (ErrNew ''ReadFrame: zero-length frame''), r)
             else if size > MaxFrameSize
             then (Inl (Errorf ''ReadFrame: frame too large: %d'' [FInt (uint size)]), r)
             else (case ReadFull r (unat size) of
                     (Inl err, r) \<Rightarrow> (Inl (Wrap err ''ReadFrame''), r)
                   | (Inr buf, r) \<Rightarrow> (Inr buf, r)))"

definition WriteFrame :: "stream \<Rightarrow> byte list \<Rightarrow> go_error option \<times> stream" where
  "WriteFrame w body =
     (let hdr = PutUint32 (word_of_nat (length body))
      in case net_Write w hdr of
           (Some err, w) \<Rightarrow> (Some (Wrap err ''WriteFrame''), w)
         | (None, w) \<Rightarrow>
             (case net_Write w body of
                (Some err, w) \<Rightarrow> (Some (Wrap err ''WriteFrame''), w)
              | (None, w) \<Rightarrow> (None, w)))"

text \<open>
  The specification side: the bytes of one frame, the bodies that fit a frame, a stream that
  delivers given bytes and then ends, and the reading of a fixed number of frames.
\<close>

definition frame_bytes :: "byte list \<Rightarrow> byte list" where
  "frame_bytes body = PutUint32 (word_of_nat (length body)) @ body"

definition frame_ok :: "byte list \<Rightarrow> bool" where
  "frame_ok body \<longleftrightarrow> body \<noteq> [] \<and> length body \<le> 104857600"

definition input_stream :: "byte list \<Rightarrow> stream" where
  "input_stream bs = \<lparr>rd = bs, rd_end = EOF, wr = [], wr_left = None, wr_err = ErrClosed,
     deadline_err = None, rd_deadline = None, wr_deadline = None, closed = False, remote_addr = []\<rparr>"

definition frame_dec :: "byte list \<Rightarrow> (byte list \<times> byte list) option" where
  "frame_dec bs = (case ReadFrame (input_stream bs) of (Inr b, s) \<Rightarrow> Some (b, rd s) | (Inl e, s) \<Rightarrow> None)"

fun ReadFrames :: "nat \<Rightarrow> stream \<Rightarrow> (go_error + byte list list) \<times> stream" where
  "ReadFrames 0 s = (Inr [], s)"
| "ReadFrames (Suc n) s =
     (case ReadFrame s of
        (Inl e, s) \<Rightarrow> (Inl e, s)
      | (Inr b, s) \<Rightarrow>
          (case ReadFrames n s of (Inl e, s) \<Rightarrow> (Inl e, s) | (Inr bs, s) \<Rightarrow> (Inr (b # bs), s)))"

fun WriteFrames :: "stream \<Rightarrow> byte list list \<Rightarrow> go_error option \<times> stream" where
  "WriteFrames w [] = (None, w)"
| "WriteFrames w (b # bs) =
     (case WriteFrame w b of (Some e, w) \<Rightarrow> (Some e, w) | (None, w) \<Rightarrow> WriteFrames w bs)"

subsection \<open>Reading and writing\<close>

lemma MaxFrameSize_unat: "unat MaxFrameSize = 104857600"
  by (simp add: MaxFrameSize_def)

lemma ReadFull_full:
  "n \<le> length (rd s) \<Longrightarrow> ReadFull s n = (Inr (take n (rd s)), s\<lparr>rd := drop n (rd s)\<rparr>)"
  by (simp add: ReadFull_def Let_def)

lemma ReadFull_Inr_iff:
  "ReadFull s n = (Inr b, s') \<longleftrightarrow>
     n \<le> length (rd s) \<and> b = take n (rd s) \<and> s' = s\<lparr>rd := drop n (rd s)\<rparr>"
  by (auto simp: ReadFull_def Let_def split: if_splits)

lemma ReadFull_Inl:
  "ReadFull s n = (Inl e, s') \<Longrightarrow>
     length (rd s) < n \<and> s' = s\<lparr>rd := []\<rparr> \<and>
     e = (if rd s = [] then rd_end s else if rd_end s = EOF then ErrUnexpectedEOF else rd_end s)"
  by (auto simp: ReadFull_def Let_def split: if_splits)

lemma frame_size:
  assumes "frame_ok b"
  shows "unat (word_of_nat (length b) :: uint32) = length b"
    and "(word_of_nat (length b) :: uint32) \<noteq> 0"
    and "\<not> (word_of_nat (length b) :: uint32) > MaxFrameSize"
proof -
  have l: "length b \<le> 104857600" "b \<noteq> []"
    using assms by (auto simp: frame_ok_def)
  show u: "unat (word_of_nat (length b) :: uint32) = length b"
    using l by (simp add: unat_of_nat take_bit_nat_eq_self)
  show "(word_of_nat (length b) :: uint32) \<noteq> 0"
    using u l by (metis length_0_conv unat_0)
  show "\<not> (word_of_nat (length b) :: uint32) > MaxFrameSize"
    using u l by (simp add: word_less_nat_alt MaxFrameSize_unat)
qed

lemma ReadFrame_frame:
  assumes "frame_ok b" and "rd s = frame_bytes b @ rest"
  shows "ReadFrame s = (Inr b, s\<lparr>rd := rest\<rparr>)"
  using assms(2) frame_size [OF assms(1)]
  by (simp add: ReadFrame_def ReadFull_full frame_bytes_def Let_def)

lemma ReadFrame_Inr:
  assumes "ReadFrame s = (Inr b, s')"
  shows "frame_ok b" and "rd s = frame_bytes b @ rd s'" and "s' = s\<lparr>rd := rd s'\<rparr>"
proof -
  let ?h = "take 4 (rd s)"
  let ?n = "BigEndian_Uint32 ?h"
  from assms have four: "4 \<le> length (rd s)" and size: "?n \<noteq> 0" "\<not> ?n > MaxFrameSize"
    and n: "unat ?n \<le> length (drop 4 (rd s))" and b: "b = take (unat ?n) (drop 4 (rd s))"
    and s': "s' = s\<lparr>rd := drop (unat ?n) (drop 4 (rd s))\<rparr>"
    by (auto simp: ReadFrame_def Let_def ReadFull_Inr_iff split: prod.splits sum.splits if_splits)
  have len: "length b = unat ?n"
    using n b by simp
  show "frame_ok b"
    using len size by (auto simp: frame_ok_def word_less_nat_alt MaxFrameSize_unat unat_eq_zero)
  have "PutUint32 (word_of_nat (length b)) = ?h"
    using four len by (simp add: PutUint32_Uint32_list)
  then show "rd s = frame_bytes b @ rd s'"
    using b s' by (simp add: frame_bytes_def) (metis append_take_drop_id drop_drop)
  show "s' = s\<lparr>rd := rd s'\<rparr>"
    using s' by simp
qed

lemma net_Write_None:
  "net_Write s b = (None, s') \<Longrightarrow> \<exists>l. s' = s\<lparr>wr := wr s @ b, wr_left := l\<rparr>"
  by (auto simp: net_Write_def split: option.splits if_splits) (metis stream.surjective stream.update_convs(4))

lemma net_Write_unlimited [simp]:
  "wr_left s = None \<Longrightarrow> net_Write s b = (None, s\<lparr>wr := wr s @ b\<rparr>)"
  by (simp add: net_Write_def)

lemma WriteFrame_unlimited [simp]:
  "wr_left s = None \<Longrightarrow> WriteFrame s b = (None, s\<lparr>wr := wr s @ frame_bytes b\<rparr>)"
  by (simp add: WriteFrame_def frame_bytes_def)

lemma WriteFrame_None:
  "WriteFrame s b = (None, s') \<Longrightarrow> \<exists>l. s' = s\<lparr>wr := wr s @ frame_bytes b, wr_left := l\<rparr>"
  by (auto simp: WriteFrame_def Let_def frame_bytes_def split: prod.splits option.splits
      dest!: net_Write_None)

lemma ReadFrame_consumes:
  "ReadFrame s = (Inr b, s') \<Longrightarrow> length (rd s') + 4 < length (rd s)"
  using ReadFrame_Inr [of s b s'] by (auto simp: frame_bytes_def frame_ok_def)

lemma ReadFrame_frame_only_rd: "snd (ReadFrame s) = s\<lparr>rd := rd (snd (ReadFrame s))\<rparr>"
  by (auto simp: ReadFrame_def ReadFull_def Let_def split: sum.splits prod.splits)

text \<open>
  The contract of a framing: decoding inverts encoding in front of any further input, and whatever
  decodes is an encoding. Its clients need no more than these two laws.
\<close>

locale frame_codec =
  fixes enc :: "byte list \<Rightarrow> byte list"
    and dec :: "byte list \<Rightarrow> (byte list \<times> byte list) option"
    and ok :: "byte list \<Rightarrow> bool"
  assumes dec_enc: "ok b \<Longrightarrow> dec (enc b @ rest) = Some (b, rest)"
    and enc_dec: "dec bs = Some (b, rest) \<Longrightarrow> ok b \<and> bs = enc b @ rest"
begin

lemma enc_prefix_free:
  assumes "ok b" and "ok b'" and "enc b @ r = enc b' @ r'"
  shows "b = b' \<and> r = r'"
proof -
  have "Some (b, r) = dec (enc b @ r)"
    using dec_enc [OF assms(1)] by (rule sym)
  also have "\<dots> = Some (b', r')"
    unfolding assms(3) by (rule dec_enc [OF assms(2)])
  finally show ?thesis by simp
qed

lemma enc_inject: "ok b \<Longrightarrow> ok b' \<Longrightarrow> enc b = enc b' \<Longrightarrow> b = b'"
  using enc_prefix_free [of b b' "[]" "[]"] by simp

lemma concat_enc_inject:
  "list_all ok bs \<Longrightarrow> list_all ok cs \<Longrightarrow> length bs = length cs \<Longrightarrow>
   concat (map enc bs) @ r = concat (map enc cs) @ r' \<Longrightarrow> bs = cs \<and> r = r'"
proof (induction bs arbitrary: cs)
  case Nil
  then show ?case by simp
next
  case (Cons b bs)
  then obtain c cs' where cs: "cs = c # cs'"
    by (cases cs) auto
  have "enc b @ (concat (map enc bs) @ r) = enc c @ (concat (map enc cs') @ r')"
    using Cons.prems(4) cs by simp
  then have "b = c" and "concat (map enc bs) @ r = concat (map enc cs') @ r'"
    using enc_prefix_free [of b c] Cons.prems(1,2) cs by auto
  then show ?case
    using Cons cs by simp
qed

end

lemma frame_dec_frame: "frame_ok b \<Longrightarrow> frame_dec (frame_bytes b @ rest) = Some (b, rest)"
  by (simp add: frame_dec_def ReadFrame_frame [where rest = rest] input_stream_def)

lemma frame_dec_Some: "frame_dec bs = Some (b, rest) \<Longrightarrow> frame_ok b \<and> bs = frame_bytes b @ rest"
  by (auto simp: frame_dec_def input_stream_def split: prod.splits sum.splits
      dest: ReadFrame_Inr(1,2))

interpretation framing: frame_codec frame_bytes frame_dec frame_ok
  by unfold_locales (auto simp: frame_dec_frame dest: frame_dec_Some)

lemma ReadFrames_concat:
  "list_all frame_ok bs \<Longrightarrow> rd s = concat (map frame_bytes bs) @ rest \<Longrightarrow>
   ReadFrames (length bs) s = (Inr bs, s\<lparr>rd := rest\<rparr>)"
proof (induction bs arbitrary: s)
  case Nil
  then show ?case by simp
next
  case (Cons b bs)
  have "ReadFrame s = (Inr b, s\<lparr>rd := concat (map frame_bytes bs) @ rest\<rparr>)"
    using Cons.prems by (intro ReadFrame_frame) simp_all
  then show ?case
    using Cons.IH [of "s\<lparr>rd := concat (map frame_bytes bs) @ rest\<rparr>"] Cons.prems by simp
qed

lemma WriteFrames_unlimited:
  "wr_left w = None \<Longrightarrow>
   WriteFrames w bs = (None, w\<lparr>wr := wr w @ concat (map frame_bytes bs)\<rparr>)"
  by (induction bs arbitrary: w) auto

lemma WriteFrames_None:
  "WriteFrames w bs = (None, w') \<Longrightarrow> wr w' = wr w @ concat (map frame_bytes bs)"
  by (induction bs arbitrary: w) (auto split: prod.splits option.splits dest!: WriteFrame_None)

subsection \<open>Properties\<close>

text \<open>C29: frames written with WriteFrame are read back by ReadFrame whole, in order and with
  nothing left over, whatever follows them on the connection: the wire format is a faithful queue
  of request and response bodies of 1 byte to 100 MiB.\<close>

theorem frames_fifo:
  assumes "list_all frame_ok bs"
    and "WriteFrames w bs = (None, w')" and "wr w = []"
    and "rd r = wr w' @ rest"
  shows "ReadFrames (length bs) r = (Inr bs, r\<lparr>rd := rest\<rparr>)"
  using assms ReadFrames_concat [of bs r rest] WriteFrames_None [of w bs w'] by simp

theorem frames_fifo_witness:
  "ReadFrames 2 (input_stream (wr (snd (WriteFrames (input_stream []) [[7], [8, 9]])) @ [0, 0])) =
     (Inr [[7], [8, 9]], (input_stream (wr (snd (WriteFrames (input_stream []) [[7], [8, 9]])) @ [0, 0]))\<lparr>rd := [0, 0]\<rparr>)"
proof -
  let ?w = "snd (WriteFrames (input_stream []) [[7], [8, 9]])"
  have ok: "list_all frame_ok [[7], [8, 9]]"
    by (simp add: frame_ok_def)
  have w: "WriteFrames (input_stream []) [[7], [8, 9]] = (None, ?w)"
    by (simp add: WriteFrames_unlimited input_stream_def)
  have "ReadFrames (length [[7], [8, 9 :: byte]]) (input_stream (wr ?w @ [0, 0])) =
      (Inr [[7], [8, 9]], (input_stream (wr ?w @ [0, 0]))\<lparr>rd := [0, 0]\<rparr>)"
    by (rule frames_fifo [OF ok w]) (simp_all add: input_stream_def)
  then show ?thesis by (simp add: numeral_eq_Suc)
qed

text \<open>C30: a successful ReadFrame returns a body of 1 to 100 MiB, consumes exactly the four length
  bytes and the body, those four bytes encode the body's length, and nothing else of the connection
  changes. No frame is accepted whose declared and actual length differ.\<close>

theorem ReadFrame_sound:
  "ReadFrame s = (Inr b, s') \<Longrightarrow>
     0 < length b \<and> length b \<le> unat MaxFrameSize \<and>
     rd s = PutUint32 (word_of_nat (length b)) @ b @ rd s' \<and> s' = s\<lparr>rd := rd s'\<rparr>"
  using ReadFrame_Inr [of s b s'] by (auto simp: frame_ok_def frame_bytes_def MaxFrameSize_unat)

theorem ReadFrame_sound_witness:
  "ReadFrame (input_stream [0, 0, 0, 2, 5, 6, 1]) = (Inr [5, 6], input_stream [1]) \<and>
   rd (input_stream [0, 0, 0, 2, 5, 6, 1]) =
     PutUint32 (word_of_nat (length [5, 6 :: byte])) @ [5, 6] @ rd (input_stream [1])"
proof -
  have "ReadFrame (input_stream [0, 0, 0, 2, 5, 6, 1]) = (Inr [5, 6], input_stream [1])"
    by (simp add: ReadFrame_def ReadFull_def input_stream_def BigEndian_Uint32_def MaxFrameSize_def Let_def)
  then show ?thesis
    using ReadFrame_sound [of "input_stream [0, 0, 0, 2, 5, 6, 1]" "[5, 6]" "input_stream [1]"]
    by simp
qed

text \<open>How ReadFrame fails. With a peer that closed, the error is end-of-file for
  \<open>errors.Is\<close> exactly when nothing arrived at all, or when a complete, admissible length arrived and
  no byte of the body did. The second case is a truncated message that callers testing for end-of-file
  (as the connection loop does) take for a clean close.\<close>

lemma ReadFrame_eof_iff:
  assumes "rd_end s = EOF"
  shows "(\<exists>e. fst (ReadFrame s) = Inl e \<and> errors_Is e EOF) \<longleftrightarrow>
     rd s = [] \<or> (length (rd s) = 4 \<and> BigEndian_Uint32 (rd s) \<noteq> 0 \<and> BigEndian_Uint32 (rd s) \<le> MaxFrameSize)"
  using assms
  by (auto simp: ReadFrame_def ReadFull_def Let_def unat_eq_zero not_less split: if_splits)

end
