(* ===== verification/Go_Effects.thy ===== *)
theory Go_Effects
  imports Protocol_Framing
begin

text \<open>
  Operations with effects. A method of the code that reads and writes its receiver is an \<open>op\<close>: a
  function from the state before to the outcome and the state after, where the state also changes when
  the outcome is an error. \<open>op_bind\<close> is sequencing with the early return on an error, \<open>op_wrap\<close> is
  \<open>errors.Wrap\<close> on the error path.

  \<open>keeps R m\<close> says that \<open>m\<close> moves the state along the relation \<open>R\<close> on every outcome. The locale
  \<open>frame_condition\<close> shows once, for any reflexive and transitive \<open>R\<close>, that this is closed under the
  ways the code composes operations.
\<close>

type_synonym ('s, 'a) op = "'s \<Rightarrow> 'a go \<times> 's"

definition op_return :: "'a \<Rightarrow> ('s, 'a) op" where
  "op_return a s = (Ok a, s)"

definition op_fail :: "go_error \<Rightarrow> ('s, 'a) op" where
  "op_fail e s = (Err e, s)"

definition op_lift :: "'a go \<Rightarrow> ('s, 'a) op" where
  "op_lift r s = (r, s)"

definition op_bind :: "('s, 'a) op \<Rightarrow> ('a \<Rightarrow> ('s, 'b) op) \<Rightarrow> ('s, 'b) op" where
  "op_bind m f s =
     (case m s of (Ok a, s) \<Rightarrow> f a s | (Err e, s) \<Rightarrow> (Err e, s) | (Panic, s) \<Rightarrow> (Panic, s))"

definition op_wrap :: "string \<Rightarrow> ('s, 'a) op \<Rightarrow> ('s, 'a) op" where
  "op_wrap msg m s =
     (case m s of (Err e, s) \<Rightarrow> (Err (Wrap e msg), s) | (Ok a, s) \<Rightarrow> (Ok a, s) | (Panic, s) \<Rightarrow> (Panic, s))"

definition op_get :: "('s \<Rightarrow> 'a) \<Rightarrow> ('s, 'a) op" where
  "op_get f s = (Ok (f s), s)"

definition op_modify :: "('s \<Rightarrow> 's) \<Rightarrow> ('s, unit) op" where
  "op_modify f s = (Ok (), f s)"

text \<open>Calls of the library in the two shapes they have: an optional error, or an error or a value.\<close>

definition op_error :: "('s \<Rightarrow> go_error option \<times> 's) \<Rightarrow> ('s, unit) op" where
  "op_error m s = (case m s of (None, s) \<Rightarrow> (Ok (), s) | (Some e, s) \<Rightarrow> (Err e, s))"

definition op_sum :: "('s \<Rightarrow> (go_error + 'a) \<times> 's) \<Rightarrow> ('s, 'a) op" where
  "op_sum m s = (case m s of (Inr a, s) \<Rightarrow> (Ok a, s) | (Inl e, s) \<Rightarrow> (Err e, s))"

definition read_frame :: "(stream, byte list) op" where
  "read_frame = op_sum ReadFrame"

definition write_frame :: "byte list \<Rightarrow> (stream, unit) op" where
  "write_frame b = op_error (\<lambda>s. WriteFrame s b)"

definition write_bytes :: "byte list \<Rightarrow> (stream, unit) op" where
  "write_bytes b = op_error (\<lambda>s. net_Write s b)"

subsection \<open>Outcomes of composed operations\<close>

lemma op_simps [simp]:
  "op_return a s = (Ok a, s)" "op_fail e s = (Err e, s)" "op_lift r s = (r, s)"
  "op_get f s = (Ok (f s), s)" "op_modify g s = (Ok (), g s)"
  by (simp_all add: op_return_def op_fail_def op_lift_def op_get_def op_modify_def)

lemma op_bind_simps [simp]:
  "m s = (Ok a, s') \<Longrightarrow> op_bind m f s = f a s'"
  "m s = (Err e, s') \<Longrightarrow> op_bind m f s = (Err e, s')"
  "m s = (Panic, s') \<Longrightarrow> op_bind m f s = (Panic, s')"
  by (simp_all add: op_bind_def)

lemma op_wrap_simps [simp]:
  "m s = (Ok a, s') \<Longrightarrow> op_wrap w m s = (Ok a, s')"
  "m s = (Err e, s') \<Longrightarrow> op_wrap w m s = (Err (Wrap e w), s')"
  "m s = (Panic, s') \<Longrightarrow> op_wrap w m s = (Panic, s')"
  by (simp_all add: op_wrap_def)

lemma op_bind_Ok: "op_bind m f s = (Ok b, t) \<longleftrightarrow> (\<exists>a s'. m s = (Ok a, s') \<and> f a s' = (Ok b, t))"
  by (auto simp: op_bind_def split: prod.split go.split)

lemma op_bind_Panic:
  "op_bind m f s = (Panic, t) \<longleftrightarrow> m s = (Panic, t) \<or> (\<exists>a s'. m s = (Ok a, s') \<and> f a s' = (Panic, t))"
  by (auto simp: op_bind_def split: prod.split go.split)

lemma op_bind_Err:
  "op_bind m f s = (Err e, t) \<longleftrightarrow> m s = (Err e, t) \<or> (\<exists>a s'. m s = (Ok a, s') \<and> f a s' = (Err e, t))"
  by (auto simp: op_bind_def split: prod.split go.split)

lemma op_wrap_Ok [simp]: "op_wrap w m s = (Ok a, t) \<longleftrightarrow> m s = (Ok a, t)"
  by (auto simp: op_wrap_def split: prod.split go.split)

lemma op_wrap_Panic [simp]: "op_wrap w m s = (Panic, t) \<longleftrightarrow> m s = (Panic, t)"
  by (auto simp: op_wrap_def split: prod.split go.split)

lemma op_wrap_Err: "op_wrap w m s = (Err e, t) \<longleftrightarrow> (\<exists>e'. m s = (Err e', t) \<and> e = Wrap e' w)"
  by (auto simp: op_wrap_def split: prod.split go.split)

lemma op_error_iffs [simp]:
  "op_error m s = (Ok u, t) \<longleftrightarrow> m s = (None, t)"
  "op_error m s = (Err e, t) \<longleftrightarrow> m s = (Some e, t)"
  "op_error m s \<noteq> (Panic, t)"
  by (auto simp: op_error_def split: prod.split option.split)

lemma op_sum_iffs [simp]:
  "op_sum m s = (Ok a, t) \<longleftrightarrow> m s = (Inr a, t)"
  "op_sum m s = (Err e, t) \<longleftrightarrow> m s = (Inl e, t)"
  "op_sum m s \<noteq> (Panic, t)"
  by (auto simp: op_sum_def split: prod.split sum.split)

lemma snd_op_simps [simp]:
  "snd (op_error m s) = snd (m s)" "snd (op_sum n s) = snd (n s)" "snd (op_wrap w p s) = snd (p s)"
  by (auto simp: op_error_def op_sum_def op_wrap_def split: prod.split option.split sum.split go.split)

lemmas op_Ok_iffs = op_bind_Ok op_wrap_Ok op_error_iffs(1) op_sum_iffs(1)

subsection \<open>Frame conditions\<close>

definition keeps :: "('s \<Rightarrow> 's \<Rightarrow> bool) \<Rightarrow> ('s, 'a) op \<Rightarrow> bool" where
  "keeps R m \<longleftrightarrow> (\<forall>s. R s (snd (m s)))"

lemma keepsD: "keeps R m \<Longrightarrow> m s = (r, s') \<Longrightarrow> R s s'"
  unfolding keeps_def by (metis snd_conv)

lemma keepsI: "(\<And>s r s'. m s = (r, s') \<Longrightarrow> R s s') \<Longrightarrow> keeps R m"
  unfolding keeps_def by (metis prod.collapse)

lemma keeps_sum_eq:
  "(\<And>e. x = Inl e \<Longrightarrow> keeps Q (f e)) \<Longrightarrow> (\<And>a. x = Inr a \<Longrightarrow> keeps Q (g a)) \<Longrightarrow>
   keeps Q (case x of Inl e \<Rightarrow> f e | Inr a \<Rightarrow> g a)"
  by (simp split: sum.split)

lemma keeps_go:
  "(\<And>a. keeps Q (f a)) \<Longrightarrow> (\<And>e. keeps Q (g e)) \<Longrightarrow> keeps Q h \<Longrightarrow>
   keeps Q (case x of Ok a \<Rightarrow> f a | Err e \<Rightarrow> g e | Panic \<Rightarrow> h)"
  by (simp split: go.split)

locale frame_condition =
  fixes R :: "'s \<Rightarrow> 's \<Rightarrow> bool"
  assumes R_refl: "R s s"
    and R_trans: "R s t \<Longrightarrow> R t u \<Longrightarrow> R s u"
begin

lemma keeps_pure: "keeps R (op_return a)" "keeps R (op_fail e)" "keeps R (op_lift r)"
    "keeps R (op_get f)"
  by (simp_all add: keeps_def R_refl)

lemma keeps_modify: "(\<And>s. R s (g s)) \<Longrightarrow> keeps R (op_modify g)"
  by (simp add: keeps_def)

lemma keeps_bind: "keeps R m \<Longrightarrow> (\<And>a. keeps R (f a)) \<Longrightarrow> keeps R (op_bind m f)"
  unfolding keeps_def op_bind_def
  by (auto split: prod.split go.split) (metis R_trans snd_conv)+

lemma keeps_wrap: "keeps R m \<Longrightarrow> keeps R (op_wrap w m)"
  by (simp add: keeps_def)

lemma keeps_if: "(b \<Longrightarrow> keeps R m) \<Longrightarrow> (\<not> b \<Longrightarrow> keeps R n) \<Longrightarrow> keeps R (if b then m else n)"
  by simp

lemma keeps_sum_case:
  "(\<And>e. keeps R (f e)) \<Longrightarrow> (\<And>a. keeps R (g a)) \<Longrightarrow> keeps R (case x of Inl e \<Rightarrow> f e | Inr a \<Rightarrow> g a)"
  by (simp split: sum.split)

lemma keeps_prod_case: "(\<And>a b. keeps R (f a b)) \<Longrightarrow> keeps R (case x of (a, b) \<Rightarrow> f a b)"
  by (simp split: prod.split)

lemma keeps_option_case:
  "keeps R m \<Longrightarrow> (\<And>a. keeps R (f a)) \<Longrightarrow> keeps R (case x of None \<Rightarrow> m | Some a \<Rightarrow> f a)"
  by (simp split: option.split)

lemma keeps_Let: "keeps R (f x) \<Longrightarrow> keeps R (Let x f)"
  by simp

lemma at_bind:
  "R s (snd (m s)) \<Longrightarrow> (\<And>a t. m s = (Ok a, t) \<Longrightarrow> R t (snd (f a t))) \<Longrightarrow> R s (snd (op_bind m f s))"
  unfolding op_bind_def by (auto split: prod.split go.split) (metis R_trans snd_conv)

lemmas keeps_rules =
  keeps_pure keeps_bind keeps_wrap keeps_if keeps_sum_case keeps_prod_case
  keeps_option_case keeps_Let

end

text \<open>What any use of a connection does to it: input is only consumed, output only appended, the
  peer's address and what the connection does at its ends stay.\<close>

definition stream_step :: "stream \<Rightarrow> stream \<Rightarrow> bool" where
  "stream_step s t \<longleftrightarrow>
     suffix (rd t) (rd s) \<and> prefix (wr s) (wr t) \<and> rd_end t = rd_end s \<and> wr_err t = wr_err s \<and>
     deadline_err t = deadline_err s \<and> remote_addr t = remote_addr s \<and> (closed s \<longrightarrow> closed t)"

interpretation stream: frame_condition stream_step
  by unfold_locales (auto simp: stream_step_def dest: suffix_order.trans prefix_order.trans)

lemma ReadFull_step: "stream_step s (snd (ReadFull s n))"
proof -
  have "snd (ReadFull s n) = s\<lparr>rd := drop n (rd s)\<rparr>"
    by (simp add: ReadFull_def Let_def)
  then show ?thesis
    by (simp add: stream_step_def suffix_drop)
qed

lemma ReadFrame_step: "stream_step s (snd (ReadFrame s))"
proof -
  obtain x t where x: "ReadFull s 4 = (x, t)" by force
  have st: "stream_step s t"
    using ReadFull_step [of s 4] x by simp
  have "stream_step s u" if "ReadFull t n = (y, u)" for n y u
    using stream.R_trans [OF st] ReadFull_step [of t n] that by simp
  then show ?thesis
    using x st by (cases x) (auto simp: ReadFrame_def Let_def split: prod.splits sum.splits)
qed

lemma net_Write_step: "stream_step s (snd (net_Write s b))"
  by (auto simp: stream_step_def net_Write_def split: option.splits)

lemma WriteFrame_step: "stream_step s (snd (WriteFrame s b))"
proof -
  obtain e w where w: "net_Write s (PutUint32 (word_of_nat (length b))) = (e, w)" by force
  have sw: "stream_step s w"
    using net_Write_step [of s "PutUint32 (word_of_nat (length b))"] w by simp
  have "stream_step s u" if "net_Write w b = (y, u)" for y u
    using stream.R_trans [OF sw] net_Write_step [of w b] that by simp
  then show ?thesis
    using w sw by (auto simp: WriteFrame_def Let_def split: option.splits prod.splits)
qed

lemma deadline_step: "stream_step s (snd (SetDeadline d s))" "stream_step s (snd (SetReadDeadline d s))"
  by (simp_all add: stream_step_def SetDeadline_def SetReadDeadline_def)

lemma stream_ops_keeps:
  "keeps stream_step read_frame" "keeps stream_step (write_frame b)" "keeps stream_step (write_bytes b)"
  "keeps stream_step (op_error (SetDeadline d))" "keeps stream_step (op_error (SetReadDeadline d))"
  by (simp_all add: keeps_def read_frame_def write_frame_def write_bytes_def ReadFrame_step
      WriteFrame_step net_Write_step deadline_step)

lemma read_frame_Ok:
  "read_frame s = (Ok b, t) \<longleftrightarrow> (\<exists>rest. frame_ok b \<and> rd s = frame_bytes b @ rest \<and> t = s\<lparr>rd := rest\<rparr>)"
proof
  assume "read_frame s = (Ok b, t)"
  then have "ReadFrame s = (Inr b, t)" by (simp add: read_frame_def)
  from ReadFrame_Inr [OF this] show "\<exists>rest. frame_ok b \<and> rd s = frame_bytes b @ rest \<and> t = s\<lparr>rd := rest\<rparr>"
    by blast
next
  assume "\<exists>rest. frame_ok b \<and> rd s = frame_bytes b @ rest \<and> t = s\<lparr>rd := rest\<rparr>"
  then show "read_frame s = (Ok b, t)"
    using ReadFrame_frame by (auto simp: read_frame_def)
qed

lemma write_frame_Ok:
  "write_frame b s = (Ok u, t) \<Longrightarrow> \<exists>l. t = s\<lparr>wr := wr s @ frame_bytes b, wr_left := l\<rparr>"
  by (auto simp: write_frame_def dest: WriteFrame_None)

lemma write_bytes_Ok:
  "write_bytes b s = (Ok u, t) \<Longrightarrow> \<exists>l. t = s\<lparr>wr := wr s @ b, wr_left := l\<rparr>"
  by (auto simp: write_bytes_def dest: net_Write_None)

lemma stream_ops_not_Panic [simp]:
  "read_frame s \<noteq> (Panic, t)" "write_frame b s \<noteq> (Panic, t)" "write_bytes b s \<noteq> (Panic, t)"
  by (simp_all add: read_frame_def write_frame_def write_bytes_def)

lemma stream_ops_unlimited [simp]:
  "wr_left s = None \<Longrightarrow> write_frame b s = (Ok (), s\<lparr>wr := wr s @ frame_bytes b\<rparr>)"
  "wr_left s = None \<Longrightarrow> write_bytes b s = (Ok (), s\<lparr>wr := wr s @ b\<rparr>)"
  by (simp_all add: write_frame_def write_bytes_def)

end
