(* ===== verification/Protocol_Header.thy ===== *)
theory Protocol_Header
  imports Protocol_Framing
begin

text \<open>
  \<open>protocol/keys.go\<close>, \<open>protocol/header.go\<close> and \<open>protocol/response.go\<close>: the API keys, the
  table of flexible versions, the parser of request headers and the encoder of response headers.

  Offsets into a frame are Go \<open>int\<close>s. The parser converts a length it read as a \<open>uint64\<close> to
  \<open>int\<close> and adds it to the offset; both the conversion and the sum wrap, so the model keeps the
  offset as an \<open>int\<close> that may be negative and makes each slice of the frame a possible panic.
  A response body is encoded by the message library: its \<open>AppendTo\<close> is a parameter.
\<close>

subsection \<open>API keys\<close>

definition ProduceKey :: int16 where "ProduceKey = 0"
definition FetchKey :: int16 where "FetchKey = 1"
definition ListOffsetsKey :: int16 where "ListOffsetsKey = 2"
definition MetadataKey :: int16 where "MetadataKey = 3"
definition OffsetCommitKey :: int16 where "OffsetCommitKey = 8"
definition OffsetFetchKey :: int16 where "OffsetFetchKey = 9"
definition FindCoordinatorKey :: int16 where "FindCoordinatorKey = 10"
definition JoinGroupKey :: int16 where "JoinGroupKey = 11"
definition HeartbeatKey :: int16 where "HeartbeatKey = 12"
definition LeaveGroupKey :: int16 where "LeaveGroupKey = 13"
definition SyncGroupKey :: int16 where "SyncGroupKey = 14"
definition DescribeGroupsKey :: int16 where "DescribeGroupsKey = 15"
definition ListGroupsKey :: int16 where "ListGroupsKey = 16"
definition SaslHandshakeKey :: int16 where "SaslHandshakeKey = 17"
definition ApiVersionsKey :: int16 where "ApiVersionsKey = 18"
definition CreateTopicsKey :: int16 where "CreateTopicsKey = 19"
definition DeleteTopicsKey :: int16 where "DeleteTopicsKey = 20"
definition InitProducerIDKey :: int16 where "InitProducerIDKey = 22"
definition OffsetForLeaderEpoch :: int16 where "OffsetForLeaderEpoch = 23"
definition AddPartitionsToTxnKey :: int16 where "AddPartitionsToTxnKey = 24"
definition AddOffsetsToTxnKey :: int16 where "AddOffsetsToTxnKey = 25"
definition EndTxnKey :: int16 where "EndTxnKey = 26"
definition TxnOffsetCommitKey :: int16 where "TxnOffsetCommitKey = 28"
definition DescribeConfigsKey :: int16 where "DescribeConfigsKey = 32"
definition SaslAuthenticateKey :: int16 where "SaslAuthenticateKey = 36"
definition DeleteGroupsKey :: int16 where "DeleteGroupsKey = 42"
definition OffsetDeleteKey :: int16 where "OffsetDeleteKey = 47"

lemmas key_defs =
  ProduceKey_def FetchKey_def ListOffsetsKey_def MetadataKey_def OffsetCommitKey_def
  OffsetFetchKey_def FindCoordinatorKey_def JoinGroupKey_def HeartbeatKey_def LeaveGroupKey_def
  SyncGroupKey_def DescribeGroupsKey_def ListGroupsKey_def SaslHandshakeKey_def ApiVersionsKey_def
  CreateTopicsKey_def DeleteTopicsKey_def InitProducerIDKey_def OffsetForLeaderEpoch_def
  AddPartitionsToTxnKey_def AddOffsetsToTxnKey_def EndTxnKey_def TxnOffsetCommitKey_def
  DescribeConfigsKey_def SaslAuthenticateKey_def DeleteGroupsKey_def OffsetDeleteKey_def

definition isFlexibleRequest :: "int16 \<Rightarrow> int16 \<Rightarrow> bool" where
  "isFlexibleRequest apiKey apiVersion =
     (if apiKey = ProduceKey then 9 \<le> sint apiVersion
      else if apiKey = FetchKey then 12 \<le> sint apiVersion
      else if apiKey = ListOffsetsKey then 6 \<le> sint apiVersion
      else if apiKey = MetadataKey then 9 \<le> sint apiVersion
      else if apiKey = OffsetCommitKey then 8 \<le> sint apiVersion
      else if apiKey = OffsetFetchKey then 6 \<le> sint apiVersion
      else if apiKey = FindCoordinatorKey then 3 \<le> sint apiVersion
      else if apiKey = JoinGroupKey then 6 \<le> sint apiVersion
      else if apiKey = HeartbeatKey then 4 \<le> sint apiVersion
      else if apiKey = LeaveGroupKey then 4 \<le> sint apiVersion
      else if apiKey = SyncGroupKey then 4 \<le> sint apiVersion
      else if apiKey = DescribeGroupsKey then 5 \<le> sint apiVersion
      else if apiKey = ListGroupsKey then 3 \<le> sint apiVersion
      else if apiKey = SaslHandshakeKey then False
      else if apiKey = ApiVersionsKey then 3 \<le> sint apiVersion
      else if apiKey = CreateTopicsKey then 5 \<le> sint apiVersion
      else if apiKey = DeleteTopicsKey then 4 \<le> sint apiVersion
      else if apiKey = InitProducerIDKey then 2 \<le> sint apiVersion
      else if apiKey = AddPartitionsToTxnKey then 3 \<le> sint apiVersion
      else if apiKey = AddOffsetsToTxnKey then 3 \<le> sint apiVersion
      else if apiKey = EndTxnKey then 3 \<le> sint apiVersion
      else if apiKey = TxnOffsetCommitKey then 3 \<le> sint apiVersion
      else if apiKey = DescribeConfigsKey then False
      else if apiKey = SaslAuthenticateKey then 2 \<le> sint apiVersion
      else if apiKey = DeleteGroupsKey then 2 \<le> sint apiVersion
      else if apiKey = OffsetDeleteKey then False
      else False)"

subsection \<open>Request headers\<close>

record RequestHeader =
  APIKey :: int16
  APIVersion :: int16
  CorrelationID :: int32
  ClientID :: string
  HeaderVersion :: int8
  HeaderSize :: int

definition RequestHeaderVersion :: "int16 \<Rightarrow> int16 \<Rightarrow> int8" where
  "RequestHeaderVersion apiKey apiVersion =
     (if apiKey = ApiVersionsKey then (if 3 \<le> sint apiVersion then 2 else 1)
      else if isFlexibleRequest apiKey apiVersion then 2
      else 1)"

definition ResponseHeaderVersion :: "int16 \<Rightarrow> int16 \<Rightarrow> int8" where
  "ResponseHeaderVersion apiKey apiVersion =
     (if apiKey = ApiVersionsKey then 0
      else if isFlexibleRequest apiKey apiVersion then 1
      else 0)"

fun readUvarint_loop :: "byte list \<Rightarrow> nat \<Rightarrow> uint64 \<Rightarrow> nat \<Rightarrow> go_error + uint64 \<times> nat" where
  "readUvarint_loop [] i x s = Inl (ErrNew ''uvarint truncated'')"
| "readUvarint_loop (b # bs) i x s =
     (if 10 \<le> i then Inl (ErrNew ''uvarint overflow'')
      else if b < 0x80 then Inr (x OR push_bit s (ucast b), i + 1)
      else readUvarint_loop bs (i + 1) (x OR push_bit s (ucast (b AND 0x7f))) (s + 7))"

definition readUvarint :: "byte list \<Rightarrow> go_error + uint64 \<times> nat" where
  "readUvarint buf = readUvarint_loop buf 0 0 0"

text \<open>The three stages of \<open>ParseRequestHeader\<close> after the fixed fields: the client id, one
  tagged field, and all of them.\<close>

definition parse_client_id :: "byte list \<Rightarrow> int \<Rightarrow> (string \<times> int) go" where
  "parse_client_id frame off =
     (if int (length frame) < off + 2
      then Err (ErrNew ''ParseRequestHeader: truncated client_id length'')
      else let clen = sint (BigEndian_Uint16 (take 2 (drop (nat off) frame))); off = off + 2
           in if clen > 0
              then if int (length frame) < off + clen
                   then Err (ErrNew ''ParseRequestHeader: truncated client_id'')
                   else Ok (str_of (take (nat clen) (drop (nat off) frame)), off + clen)
              else Ok ([], off))"

definition skip_tag :: "byte list \<Rightarrow> int \<Rightarrow> int go" where
  "skip_tag frame off =
     go_bind (slice_from frame off) (\<lambda>buf.
     go_bind (go_wrap ''ParseRequestHeader'' (readUvarint buf)) (\<lambda>(tag, c1).
     let off = off + int c1 in
     go_bind (slice_from frame off) (\<lambda>buf.
     go_bind (go_wrap ''ParseRequestHeader'' (readUvarint buf)) (\<lambda>(len, c2).
     let off = off + int c2; n = sint len in
     if int (length frame) < wrap64 (off + n)
     then Err (ErrNew ''ParseRequestHeader: truncated tagged field'')
     else Ok (wrap64 (off + n))))))"

fun skip_tags :: "nat \<Rightarrow> byte list \<Rightarrow> int \<Rightarrow> int go" where
  "skip_tags 0 frame off = Ok off"
| "skip_tags (Suc k) frame off = go_bind (skip_tag frame off) (skip_tags k frame)"

definition parse_tags :: "byte list \<Rightarrow> int \<Rightarrow> int go" where
  "parse_tags frame off =
     go_bind (slice_from frame off) (\<lambda>buf.
     go_bind (go_wrap ''ParseRequestHeader'' (readUvarint buf)) (\<lambda>(n, consumed).
     skip_tags (unat n) frame (off + int consumed)))"

definition ParseRequestHeader :: "byte list \<Rightarrow> RequestHeader go" where
  "ParseRequestHeader frame =
     (if length frame < 8 then Err (ErrNew ''ParseRequestHeader: frame shorter than header'')
      else let key = BigEndian_Uint16 (take 2 frame);
               ver = BigEndian_Uint16 (take 2 (drop 2 frame));
               cid = BigEndian_Uint32 (take 4 (drop 4 frame));
               hv = RequestHeaderVersion key ver
           in go_bind (if 1 \<le> sint hv then parse_client_id frame 8 else Ok ([], 8)) (\<lambda>(client, off).
              go_bind (if 2 \<le> sint hv then parse_tags frame off else Ok off) (\<lambda>off.
              Ok \<lparr>APIKey = key, APIVersion = ver, CorrelationID = cid, ClientID = client,
                   HeaderVersion = hv, HeaderSize = off\<rparr>)))"

subsection \<open>Response headers\<close>

definition AppendResponseHeader :: "byte list \<Rightarrow> int32 \<Rightarrow> int8 \<Rightarrow> byte list" where
  "AppendResponseHeader dst correlationID headerVersion =
     (let dst = dst @ PutUint32 correlationID
      in if 1 \<le> sint headerVersion then dst @ [0] else dst)"

definition EncodeResponse :: "('p \<Rightarrow> byte list \<Rightarrow> byte list) \<Rightarrow> 'p \<Rightarrow> int32 \<Rightarrow> int16 \<Rightarrow> int16 \<Rightarrow> byte list" where
  "EncodeResponse AppendTo resp correlationID apiKey apiVersion =
     (let hv = ResponseHeaderVersion apiKey apiVersion;
          out = AppendResponseHeader [] correlationID hv
      in AppendTo resp out)"

text \<open>
  The specification side: unsigned varints and request headers as the Kafka protocol encodes them,
  the client id being a nullable string and each tagged field a tag, a length and that many bytes.
\<close>

fun uvarint_bytes :: "nat \<Rightarrow> byte list" where
  "uvarint_bytes n =
     (if n < 128 then [word_of_nat n] else word_of_nat (n mod 128 + 128) # uvarint_bytes (n div 128))"

definition tag_bytes :: "nat \<times> byte list \<Rightarrow> byte list" where
  "tag_bytes t = uvarint_bytes (fst t) @ uvarint_bytes (length (snd t)) @ snd t"

definition client_id_bytes :: "string option \<Rightarrow> byte list" where
  "client_id_bytes c =
     (case c of None \<Rightarrow> PutUint16 (- 1) | Some s \<Rightarrow> PutUint16 (word_of_nat (length s)) @ bytes_of s)"

definition header_bytes :: "int16 \<Rightarrow> int16 \<Rightarrow> int32 \<Rightarrow> string option \<Rightarrow> (nat \<times> byte list) list \<Rightarrow> byte list" where
  "header_bytes key ver cid client tags =
     PutUint16 key @ PutUint16 ver @ PutUint32 cid @ client_id_bytes client @
     (if RequestHeaderVersion key ver = 2
      then uvarint_bytes (length tags) @ concat (map tag_bytes tags) else [])"

definition header_ok :: "string option \<Rightarrow> (nat \<times> byte list) list \<Rightarrow> bool" where
  "header_ok client tags \<longleftrightarrow>
     (case client of None \<Rightarrow> True | Some s \<Rightarrow> length s < 2 ^ 15) \<and>
     list_all (\<lambda>t. fst t < 2 ^ 64) tags"

declare uvarint_bytes.simps [simp del]

subsection \<open>Unsigned varints\<close>

lemma uvarint_bytes_small: "n < 128 \<Longrightarrow> uvarint_bytes n = [word_of_nat n]"
  by (simp add: uvarint_bytes.simps)

lemma uvarint_bytes_nonempty [simp]: "uvarint_bytes n \<noteq> []"
  by (subst uvarint_bytes.simps) simp

lemma length_uvarint_bytes: "n < 128 ^ k \<Longrightarrow> 0 < k \<Longrightarrow> length (uvarint_bytes n) \<le> k"
proof (induction k arbitrary: n)
  case 0
  then show ?case by simp
next
  case (Suc k)
  show ?case
  proof (cases "n < 128")
    case True
    then show ?thesis by (simp add: uvarint_bytes_small)
  next
    case False
    then have "k \<noteq> 0"
      using Suc.prems by (cases k) auto
    moreover have "n div 128 < 128 ^ k"
      using Suc.prems by (simp add: div_less_iff_less_mult mult.commute)
    ultimately have "length (uvarint_bytes (n div 128)) \<le> k"
      using Suc.IH by simp
    with False show ?thesis
      by (subst uvarint_bytes.simps) simp
  qed
qed

lemma uvarint_split:
  fixes n :: nat
  shows "(word_of_nat n :: uint64) = word_of_nat (n mod 128) OR push_bit 7 (word_of_nat (n div 128))"
proof (rule bit_word_eqI)
  fix k
  assume "k < LENGTH(64)"
  have "n mod 128 = take_bit 7 n" and "n div 128 = drop_bit 7 n"
    by (simp_all add: take_bit_eq_mod drop_bit_eq_div)
  then show "bit (word_of_nat n :: uint64) k =
      bit (word_of_nat (n mod 128) OR push_bit 7 (word_of_nat (n div 128)) :: uint64) k"
    by (auto simp: bit_simps)
qed

lemma uvarint_byte_more:
  fixes n :: nat
  shows "\<not> (word_of_nat (n mod 128 + 128) :: byte) < 0x80"
    and "(ucast ((word_of_nat (n mod 128 + 128) :: byte) AND 0x7f) :: uint64) = word_of_nat (n mod 128)"
proof -
  have m: "n mod 128 < 128" by simp
  then have u: "unat (word_of_nat (n mod 128 + 128) :: byte) = n mod 128 + 128"
    by (simp add: unat_of_nat take_bit_nat_eq_self del: of_nat_add)
  then show "\<not> (word_of_nat (n mod 128 + 128) :: byte) < 0x80"
    by (simp add: word_less_nat_alt)
  have "(word_of_nat (n mod 128 + 128) :: byte) AND 0x7f = word_of_nat (n mod 128)"
  proof -
    have "(word_of_nat (n mod 128 + 128) :: byte) AND 0x7f = take_bit 7 (word_of_nat (n mod 128 + 128))"
      by (simp add: take_bit_eq_mask mask_eq_exp_minus_1)
    also have "\<dots> = word_of_nat (take_bit 7 (n mod 128 + 128))"
      by (simp add: of_nat_take_bit)
    also have "take_bit 7 (n mod 128 + 128) = n mod 128"
      by (simp add: take_bit_eq_mod mod_add_eq)
    finally show ?thesis .
  qed
  then show "(ucast ((word_of_nat (n mod 128 + 128) :: byte) AND 0x7f) :: uint64) = word_of_nat (n mod 128)"
    using m by (simp add: word_unat_eq_iff unat_of_nat unsigned_ucast_eq take_bit_nat_eq_self)
qed

lemma uvarint_byte_last:
  fixes n :: nat
  assumes "n < 128"
  shows "(word_of_nat n :: byte) < 0x80" and "(ucast (word_of_nat n :: byte) :: uint64) = word_of_nat n"
  using assms
  by (simp_all add: word_less_nat_alt word_unat_eq_iff unat_of_nat unsigned_ucast_eq take_bit_nat_eq_self)

lemma readUvarint_loop_bytes:
  "i + length (uvarint_bytes n) \<le> 10 \<Longrightarrow>
   readUvarint_loop (uvarint_bytes n @ rest) i x s =
     Inr (x OR push_bit s (word_of_nat n), i + length (uvarint_bytes n))"
proof (induction n arbitrary: i x s rule: uvarint_bytes.induct)
  case (1 n)
  show ?case
  proof (cases "n < 128")
    case True
    with "1.prems" show ?thesis
      using uvarint_byte_last [OF True] by (simp add: uvarint_bytes_small)
  next
    case False
    have enc: "uvarint_bytes n = word_of_nat (n mod 128 + 128) # uvarint_bytes (n div 128)"
      using False by (simp add: uvarint_bytes.simps [of n])
    have "readUvarint_loop (uvarint_bytes (n div 128) @ rest) (i + 1)
        (x OR push_bit s (word_of_nat (n mod 128))) (s + 7) =
        Inr ((x OR push_bit s (word_of_nat (n mod 128))) OR push_bit (s + 7) (word_of_nat (n div 128)),
          i + 1 + length (uvarint_bytes (n div 128)))"
      using "1.IH" [OF False] "1.prems" enc by simp
    moreover have "(x OR push_bit s (word_of_nat (n mod 128))) OR push_bit (s + 7) (word_of_nat (n div 128))
        = x OR push_bit s (word_of_nat n :: uint64)"
      by (simp add: uvarint_split [of n] push_bit_or push_bit_push_bit or.assoc)
    ultimately show ?thesis
      using uvarint_byte_more [of n] "1.prems" by (simp add: enc del: of_nat_add)
  qed
qed

lemma readUvarint_bytes:
  assumes "n < 2 ^ 64"
  shows "readUvarint (uvarint_bytes n @ rest) = Inr (word_of_nat n, length (uvarint_bytes n))"
proof -
  have "n < 128 ^ 10"
    using assms by (rule less_trans) simp
  then have "length (uvarint_bytes n) \<le> 10"
    by (rule length_uvarint_bytes) simp
  then show ?thesis
    by (simp add: readUvarint_def readUvarint_loop_bytes)
qed

lemma readUvarint_loop_bounds:
  "readUvarint_loop buf i x s = Inr (v, n) \<Longrightarrow> i < n \<and> n \<le> i + length buf \<and> n \<le> 10"
  by (induction buf i x s rule: readUvarint_loop.induct) (fastforce split: if_splits)+

lemma readUvarint_bounds: "readUvarint buf = Inr (v, n) \<Longrightarrow> 0 < n \<and> n \<le> length buf \<and> n \<le> 10"
  using readUvarint_loop_bounds [of buf 0 0 0 v n] by (simp add: readUvarint_def)

subsection \<open>Request headers\<close>

lemma sint_word_of_nat64: "n < 2 ^ 63 \<Longrightarrow> sint (word_of_nat n :: uint64) = int n"
  by (simp add: signed_of_nat signed_take_bit_int_eq_self)

lemma sint_word_of_nat16: "n < 2 ^ 15 \<Longrightarrow> sint (word_of_nat n :: int16) = int n"
  by (simp add: signed_of_nat signed_take_bit_int_eq_self)

lemma parse_client_id_bytes:
  assumes "case c of None \<Rightarrow> True | Some s \<Rightarrow> length s < 2 ^ 15"
  shows "parse_client_id (pre @ client_id_bytes c @ post) (int (length pre)) =
     Ok (case c of None \<Rightarrow> [] | Some s \<Rightarrow> s, int (length pre + length (client_id_bytes c)))"
proof (cases c)
  case None
  then show ?thesis
    by (simp add: parse_client_id_def client_id_bytes_def Let_def)
next
  case (Some s)
  have "sint (word_of_nat (length s) :: int16) = int (length s)"
    using assms Some by (simp add: sint_word_of_nat16)
  then show ?thesis
    using Some by (auto simp: parse_client_id_def client_id_bytes_def Let_def nat_add_distrib)
qed

lemma skip_tag_bytes:
  assumes "fst t < 2 ^ 64" and "length (pre @ tag_bytes t @ post) < 2 ^ 62"
  shows "skip_tag (pre @ tag_bytes t @ post) (int (length pre)) =
     Ok (int (length pre + length (tag_bytes t)))"
proof -
  let ?l = "length (snd t)"
  have l: "?l < 2 ^ 62" "?l < 2 ^ 63" "?l < 2 ^ 64"
    using assms(2) by (simp_all add: tag_bytes_def)
  have "wrap64 (int (length pre + length (tag_bytes t))) = int (length pre + length (tag_bytes t))"
    using assms(2) by (intro wrap64_id) simp_all
  then show ?thesis
    using l assms(1)
    by (simp add: skip_tag_def tag_bytes_def readUvarint_bytes slice_from_def nat_add_distrib
        sint_word_of_nat64 Let_def add.assoc)
qed

lemma skip_tags_bytes:
  assumes "list_all (\<lambda>t. fst t < 2 ^ 64) tags"
    and "length (pre @ concat (map tag_bytes tags) @ post) < 2 ^ 62"
  shows "skip_tags (length tags) (pre @ concat (map tag_bytes tags) @ post) (int (length pre)) =
     Ok (int (length pre + length (concat (map tag_bytes tags))))"
  using assms
proof (induction tags arbitrary: pre)
  case Nil
  then show ?case by simp
next
  case (Cons t tags)
  have "skip_tag (pre @ tag_bytes t @ concat (map tag_bytes tags) @ post) (int (length pre)) =
      Ok (int (length pre + length (tag_bytes t)))"
    using Cons.prems by (intro skip_tag_bytes) simp_all
  moreover have "skip_tags (length tags) ((pre @ tag_bytes t) @ concat (map tag_bytes tags) @ post)
      (int (length (pre @ tag_bytes t))) =
      Ok (int (length (pre @ tag_bytes t) + length (concat (map tag_bytes tags))))"
    using Cons.prems by (intro Cons.IH) simp_all
  ultimately show ?case
    by simp
qed

lemma parse_tags_bytes:
  assumes "list_all (\<lambda>t. fst t < 2 ^ 64) tags"
    and "length (pre @ uvarint_bytes (length tags) @ concat (map tag_bytes tags) @ post) < 2 ^ 62"
  shows "parse_tags (pre @ uvarint_bytes (length tags) @ concat (map tag_bytes tags) @ post) (int (length pre)) =
     Ok (int (length pre + length (uvarint_bytes (length tags)) + length (concat (map tag_bytes tags))))"
proof -
  let ?pre = "pre @ uvarint_bytes (length tags)"
  have "length tags \<le> length (concat (map tag_bytes tags))"
  proof (induction tags)
    case (Cons t tags)
    moreover have "1 \<le> length (tag_bytes t)"
      by (simp add: tag_bytes_def Suc_le_eq)
    ultimately show ?case by simp
  qed simp
  then have n: "length tags < 2 ^ 64"
    using assms(2) by simp
  have "skip_tags (length tags) (?pre @ concat (map tag_bytes tags) @ post) (int (length ?pre)) =
      Ok (int (length ?pre + length (concat (map tag_bytes tags))))"
    using assms by (intro skip_tags_bytes) simp_all
  moreover have "unat (word_of_nat (length tags) :: uint64) = length tags"
    using n by (simp add: unat_of_nat take_bit_nat_eq_self)
  ultimately show ?thesis
    using n by (simp add: parse_tags_def readUvarint_bytes slice_from_def)
qed

lemma RequestHeaderVersion_cases: "RequestHeaderVersion k v = 1 \<or> RequestHeaderVersion k v = 2"
  by (simp add: RequestHeaderVersion_def)

lemma ParseRequestHeader_fixed:
  "ParseRequestHeader (PutUint16 key @ PutUint16 ver @ PutUint32 cid @ rest) =
     go_bind (parse_client_id (PutUint16 key @ PutUint16 ver @ PutUint32 cid @ rest) 8) (\<lambda>(client, off).
     go_bind (if RequestHeaderVersion key ver = 2
              then parse_tags (PutUint16 key @ PutUint16 ver @ PutUint32 cid @ rest) off else Ok off) (\<lambda>off.
     Ok \<lparr>APIKey = key, APIVersion = ver, CorrelationID = cid, ClientID = client,
         HeaderVersion = RequestHeaderVersion key ver, HeaderSize = off\<rparr>))"
  using RequestHeaderVersion_cases [of key ver]
  by (auto simp: ParseRequestHeader_def Let_def)

lemma ParseRequestHeader_header_bytes:
  assumes "header_ok client tags" and "length (header_bytes key ver cid client tags @ body) < 2 ^ 62"
  shows "ParseRequestHeader (header_bytes key ver cid client tags @ body) =
     Ok \<lparr>APIKey = key, APIVersion = ver, CorrelationID = cid,
         ClientID = (case client of None \<Rightarrow> [] | Some s \<Rightarrow> s),
         HeaderVersion = RequestHeaderVersion key ver,
         HeaderSize = int (length (header_bytes key ver cid client tags))\<rparr>"
proof -
  let ?pre = "PutUint16 key @ PutUint16 ver @ PutUint32 cid"
  let ?tags = "if RequestHeaderVersion key ver = 2
    then uvarint_bytes (length tags) @ concat (map tag_bytes tags) else []"
  have pre: "length ?pre = 8" by simp
  have c: "parse_client_id (?pre @ client_id_bytes client @ ?tags @ body) 8 =
      Ok (case client of None \<Rightarrow> [] | Some s \<Rightarrow> s, int (length (?pre @ client_id_bytes client)))"
    using parse_client_id_bytes [of client ?pre "?tags @ body"] assms(1) pre
    by (simp add: header_ok_def)
  have t: "parse_tags (?pre @ client_id_bytes client @ ?tags @ body) (int (length (?pre @ client_id_bytes client)))
      = Ok (int (length (?pre @ client_id_bytes client @ ?tags)))"
    if "RequestHeaderVersion key ver = 2"
    using parse_tags_bytes [of tags "?pre @ client_id_bytes client" body] assms that
    by (simp add: header_ok_def header_bytes_def)
  show ?thesis
    using c t by (simp add: header_bytes_def ParseRequestHeader_fixed)
qed

lemma parse_client_id_bounds:
  assumes "parse_client_id frame off = Ok (c, off')" and "0 \<le> off"
  shows "off + 2 \<le> off' \<and> off' \<le> int (length frame)"
  using assms by (auto simp: parse_client_id_def Let_def split: if_splits)

lemma parse_client_id_not_Panic [simp]: "parse_client_id frame off \<noteq> Panic"
  by (simp add: parse_client_id_def Let_def)

lemma parse_tags_Ok_nat:
  assumes "parse_tags frame off = Ok off'"
  shows "0 \<le> off \<and> off \<le> int (length frame)"
  using assms by (auto simp: parse_tags_def go_bind_Ok_iff slice_from_Ok_iff)

lemma skip_tag_le: "skip_tag frame off = Ok off' \<Longrightarrow> off' \<le> int (length frame)"
  by (auto simp: skip_tag_def go_bind_Ok_iff Let_def split: prod.splits if_splits)

lemma skip_tags_le:
  "skip_tags n frame off = Ok off' \<Longrightarrow> off \<le> int (length frame) \<Longrightarrow> off' \<le> int (length frame)"
  by (induction n arbitrary: off) (auto simp: go_bind_Ok_iff dest: skip_tag_le)

lemma parse_tags_le:
  assumes "parse_tags frame off = Ok off'"
  shows "off' \<le> int (length frame)"
proof -
  from assms obtain n c where r: "readUvarint (drop (nat off) frame) = Inr (n, c)"
    and off: "0 \<le> off" "off \<le> int (length frame)"
    and s: "skip_tags (unat n) frame (off + int c) = Ok off'"
    by (auto simp: parse_tags_def go_bind_Ok_iff slice_from_Ok_iff split: prod.splits)
  have "c \<le> length (drop (nat off) frame)"
    using readUvarint_bounds [OF r] by simp
  then have "off + int c \<le> int (length frame)"
    using off by simp
  with s show ?thesis by (rule skip_tags_le)
qed

lemma ParseRequestHeader_Ok:
  assumes "ParseRequestHeader frame = Ok h"
  shows "8 \<le> length frame"
    and "APIKey h = BigEndian_Uint16 (take 2 frame)"
    and "APIVersion h = BigEndian_Uint16 (take 2 (drop 2 frame))"
    and "CorrelationID h = BigEndian_Uint32 (take 4 (drop 4 frame))"
    and "HeaderVersion h = RequestHeaderVersion (APIKey h) (APIVersion h)"
    and "HeaderSize h \<le> int (length frame)"
    and "HeaderVersion h \<noteq> 2 \<Longrightarrow> 10 \<le> HeaderSize h"
proof -
  let ?hv = "RequestHeaderVersion (BigEndian_Uint16 (take 2 frame)) (BigEndian_Uint16 (take 2 (drop 2 frame)))"
  from assms obtain c off where c: "parse_client_id frame 8 = Ok (c, off)"
    and t: "(if 2 \<le> sint ?hv then parse_tags frame off else Ok off) = Ok (HeaderSize h)"
    and h: "8 \<le> length frame" "APIKey h = BigEndian_Uint16 (take 2 frame)"
      "APIVersion h = BigEndian_Uint16 (take 2 (drop 2 frame))"
      "CorrelationID h = BigEndian_Uint32 (take 4 (drop 4 frame))" "HeaderVersion h = ?hv"
    using RequestHeaderVersion_cases [of "BigEndian_Uint16 (take 2 frame)" "BigEndian_Uint16 (take 2 (drop 2 frame))"]
    by (auto simp: ParseRequestHeader_def Let_def go_bind_Ok_iff split: if_splits)
  note off = parse_client_id_bounds [OF c]
  from h show "8 \<le> length frame" "APIKey h = BigEndian_Uint16 (take 2 frame)"
    "APIVersion h = BigEndian_Uint16 (take 2 (drop 2 frame))"
    "CorrelationID h = BigEndian_Uint32 (take 4 (drop 4 frame))"
    "HeaderVersion h = RequestHeaderVersion (APIKey h) (APIVersion h)"
    by simp_all
  show "HeaderSize h \<le> int (length frame)"
    using t off by (auto split: if_splits dest: parse_tags_le)
  show "10 \<le> HeaderSize h" if "HeaderVersion h \<noteq> 2"
    using t off h(5) that RequestHeaderVersion_cases [of "BigEndian_Uint16 (take 2 frame)" "BigEndian_Uint16 (take 2 (drop 2 frame))"]
    by auto
qed

lemma ParseRequestHeader_not_Panic:
  assumes "RequestHeaderVersion (BigEndian_Uint16 (take 2 frame)) (BigEndian_Uint16 (take 2 (drop 2 frame))) \<noteq> 2"
  shows "ParseRequestHeader frame \<noteq> Panic"
  using assms
    RequestHeaderVersion_cases [of "BigEndian_Uint16 (take 2 frame)" "BigEndian_Uint16 (take 2 (drop 2 frame))"]
  by (auto simp: ParseRequestHeader_def Let_def go_bind_Panic_iff)

lemma AppendResponseHeader_eq:
  "AppendResponseHeader dst cid hv = dst @ PutUint32 cid @ (if 1 \<le> sint hv then [0] else [])"
  by (simp add: AppendResponseHeader_def Let_def)

text \<open>A header whose only tagged field declares \<open>2 ^ 63\<close> bytes: an ApiVersions request of
  version 3, a request kroxy parses before any authentication.\<close>

definition negative_tag_frame :: "byte list" where
  "negative_tag_frame =
     PutUint16 ApiVersionsKey @ PutUint16 3 @ PutUint32 1 @ PutUint16 0 @
     uvarint_bytes 1 @ uvarint_bytes 0 @ uvarint_bytes (2 ^ 63)"

text \<open>The body of a frame whose tagged field moves the offset back to its own first byte: tag 0,
  then the length \<open>2 ^ 64 - 11\<close>, which is \<open>- 11\<close> as an \<open>int\<close>.\<close>

definition backward_tag :: "byte list" where
  "backward_tag = uvarint_bytes 0 @ uvarint_bytes (2 ^ 64 - 11)"

subsection \<open>Properties\<close>





text \<open>In a flexible header the length of a tagged field is not bounded before it is converted to a
  signed offset, so this 22-byte request parses with a negative \<open>HeaderSize\<close>.\<close>

lemma negative_tag_frame_parse:
  "ParseRequestHeader negative_tag_frame =
     Ok \<lparr>APIKey = ApiVersionsKey, APIVersion = 3, CorrelationID = 1, ClientID = [],
         HeaderVersion = 2, HeaderSize = 22 - 2 ^ 63\<rparr>"
proof -
  let ?pre = "PutUint16 ApiVersionsKey @ PutUint16 3 @ PutUint32 1 @ PutUint16 0"
  have v: "RequestHeaderVersion ApiVersionsKey 3 = 2"
    by (simp add: RequestHeaderVersion_def)
  have len: "length (uvarint_bytes (2 ^ 63)) = 10"
    by (simp add: uvarint_bytes.simps)
  have s: "sint (word_of_nat (2 ^ 63) :: uint64) = - (2 ^ 63)"
    by simp
  have c: "parse_client_id negative_tag_frame 8 = Ok ([], 10)"
    by (simp add: parse_client_id_def negative_tag_frame_def Let_def)
  have u: "readUvarint (uvarint_bytes n @ rest) = Inr (word_of_nat n, length (uvarint_bytes n))"
    if "n < 2 ^ 64" for n rest
    using that by (rule readUvarint_bytes)
  have d: "drop 10 negative_tag_frame = uvarint_bytes 1 @ uvarint_bytes 0 @ uvarint_bytes (2 ^ 63)"
    "drop 11 negative_tag_frame = uvarint_bytes 0 @ uvarint_bytes (2 ^ 63)"
    "drop 12 negative_tag_frame = uvarint_bytes (2 ^ 63) @ []"
    "length negative_tag_frame = 22"
    using len by (simp_all add: negative_tag_frame_def uvarint_bytes_small)
  have t: "parse_tags negative_tag_frame 10 = Ok (22 - 2 ^ 63)"
    using u [of 1] u [of 0] u [of "2 ^ 63" "[]"] len s
    by (simp add: parse_tags_def skip_tag_def slice_from_def d uvarint_bytes_small wrap64_def Let_def)
  show ?thesis
    using c t v ParseRequestHeader_fixed [of ApiVersionsKey 3 1 "PutUint16 0 @
      uvarint_bytes 1 @ uvarint_bytes 0 @ uvarint_bytes (2 ^ 63)"]
    by (simp add: negative_tag_frame_def)
qed

text \<open>C33: the number of iterations of the tagged-field loop is not bounded by the length of the
  frame. An 11-byte field whose length is negative as an \<open>int\<close> sets the offset back to its own
  start, so a frame holding it once is skipped over successfully for any declared count of fields, up
  to \<open>2 ^ 64 - 1\<close>.\<close>

theorem skip_tags_unbounded:
  assumes "length (pre @ backward_tag @ post) < 2 ^ 62"
  shows "length backward_tag = 11 \<and>
    skip_tags n (pre @ backward_tag @ post) (int (length pre)) = Ok (int (length pre))"
proof -
  have l: "length (uvarint_bytes (2 ^ 64 - 11)) = 10"
    by (simp add: uvarint_bytes.simps)
  have s: "sint (word_of_nat (2 ^ 64 - 11) :: uint64) = - 11"
    by simp
  have u: "readUvarint (uvarint_bytes k @ rest) = Inr (word_of_nat k, length (uvarint_bytes k))"
    if "k < 2 ^ 64" for k rest
    using that by (rule readUvarint_bytes)
  have w: "wrap64 (int (length pre)) = int (length pre)"
    using assms by (intro wrap64_id) simp_all
  have "skip_tag (pre @ backward_tag @ post) (int (length pre)) = Ok (int (length pre))"
    using u [of 0 "uvarint_bytes (2 ^ 64 - 11) @ post"] u [of "2 ^ 64 - 11" post] l s w
    by (simp add: skip_tag_def backward_tag_def slice_from_def uvarint_bytes_small nat_add_distrib Let_def)
  then have "skip_tags n (pre @ backward_tag @ post) (int (length pre)) = Ok (int (length pre))"
    by (induction n) simp_all
  then show ?thesis
    using l by (simp add: backward_tag_def uvarint_bytes_small)
qed

theorem skip_tags_unbounded_witness:
  "skip_tags 1000000 ([1, 2] @ backward_tag @ [3]) 2 = Ok 2"
proof -
  have "length ([1, 2] @ backward_tag @ [3]) < 2 ^ 62"
    by (simp add: backward_tag_def uvarint_bytes.simps)
  from skip_tags_unbounded [OF this, of 1000000] show ?thesis
    by simp
qed

text \<open>A response frame built by EncodeResponse starts with the correlation id of the client's
  request, and the response body starts right after the header that the response header version of
  the key and version prescribes. The hypothesis is the documented behaviour of the message
  library's AppendTo: it appends to its argument.\<close>

lemma EncodeResponse_layout:
  assumes "\<And>dst. AppendTo resp dst = dst @ AppendTo resp []"
  shows "BigEndian_Uint32 (take 4 (EncodeResponse AppendTo resp cid key ver)) = cid \<and>
    drop (if ResponseHeaderVersion key ver = 1 then 5 else 4) (EncodeResponse AppendTo resp cid key ver) =
      AppendTo resp []"
proof -
  have "EncodeResponse AppendTo resp cid key ver =
      PutUint32 cid @ (if 1 \<le> sint (ResponseHeaderVersion key ver) then [0] else []) @ AppendTo resp []"
    using assms [of "AppendResponseHeader [] cid (ResponseHeaderVersion key ver)"]
    by (simp add: EncodeResponse_def AppendResponseHeader_eq Let_def)
  moreover have "ResponseHeaderVersion key ver = 0 \<or> ResponseHeaderVersion key ver = 1"
    by (simp add: ResponseHeaderVersion_def)
  ultimately show ?thesis by auto
qed

end
