(* ===== verification/Upstream_Conn.thy ===== *)
theory Upstream_Conn
  imports Go_Effects Protocol_Header Auth_SASL
begin

text \<open>
  \<open>upstream/conn.go\<close>: the connection from the proxy to the broker of one tenant.

  The methods of \<open>Conn\<close> are operations on the record \<open>UConn\<close>. The encoders and decoders of the
  message library for one API are a record \<open>kapi\<close> of parameters, and the SCRAM client of the same
  library is a record \<open>scram_api\<close>. The dialler is a parameter too: what it returns for an address is
  an error or any stream, that is, any broker. A dial returns the connection, or the failure together
  with the socket it gave up, so that what was sent on it and whether it was closed can be stated.
\<close>

subsection \<open>The message library\<close>

record ('q, 'p) kapi =
  ReadReq :: "int16 \<Rightarrow> byte list \<Rightarrow> go_error + 'q"
  AppendRequest :: "string \<Rightarrow> int16 \<Rightarrow> 'q \<Rightarrow> int32 \<Rightarrow> byte list"
  ReadResp :: "int16 \<Rightarrow> byte list \<Rightarrow> go_error + 'p"
  AppendResp :: "int16 \<Rightarrow> 'p \<Rightarrow> byte list \<Rightarrow> byte list"

record SASLHandshakeRequest =
  HandshakeMechanism :: string

record SASLHandshakeResponse =
  HandshakeErrorCode :: int16
  SupportedMechanisms :: "string list"

record SASLAuthenticateRequest =
  SASLAuthBytes :: "byte list"

record SASLAuthenticateResponse =
  AuthErrorCode :: int16
  AuthErrorMessage :: "string option"
  AuthBytes :: "byte list"

record ApiVersionsKeyRange =
  ApiKey :: int16
  MinVersion :: int16
  MaxVersion :: int16

record ApiVersionsResponse =
  ApiKeys :: "ApiVersionsKeyRange list"

record kmsg_sasl =
  k_ApiVersions :: "(unit, ApiVersionsResponse) kapi"
  k_SASLHandshake :: "(SASLHandshakeRequest, SASLHandshakeResponse) kapi"
  k_SASLAuthenticate :: "(SASLAuthenticateRequest, SASLAuthenticateResponse) kapi"

record 's scram_api =
  Authenticate :: "string \<Rightarrow> string \<Rightarrow> string \<Rightarrow> string \<Rightarrow> go_error + 's \<times> byte list"
  Challenge :: "'s \<Rightarrow> byte list \<Rightarrow> go_error + bool \<times> byte list \<times> 's"

subsection \<open>Connections and round trips\<close>

record UConn =
  unc :: stream
  corrIDGen :: int32
  reqTO :: int

definition dialTimeout :: int where "dialTimeout = 10 * 1000000000"
definition DefaultRequestTimeout :: int where "DefaultRequestTimeout = 30 * 1000000000"

definition on_unc :: "(stream, 'a) op \<Rightarrow> (UConn, 'a) op" where
  "on_unc m c = (case m (unc c) of (r, s) \<Rightarrow> (r, c\<lparr>unc := s\<rparr>))"

definition SetRequestTimeout :: "int \<Rightarrow> (UConn, unit) op" where
  "SetRequestTimeout d = op_modify (\<lambda>c. c\<lparr>reqTO := d\<rparr>)"

definition applyRequestDeadline :: "(UConn, unit) op" where
  "applyRequestDeadline =
     op_bind (op_get reqTO) (\<lambda>to.
     if to \<le> 0 then on_unc (op_error (SetDeadline None)) else on_unc (op_error (SetDeadline (Some to))))"

definition nextCorrelationID :: "(UConn, int32) op" where
  "nextCorrelationID = op_bind (op_modify (\<lambda>c. c\<lparr>corrIDGen := corrIDGen c + 1\<rparr>)) (\<lambda>_. op_get corrIDGen)"

definition UConn_Close :: "UConn \<Rightarrow> UConn" where
  "UConn_Close c = c\<lparr>unc := net_Close (unc c)\<rparr>"

definition cid_mismatch :: "string \<Rightarrow> int32 \<Rightarrow> int32 \<Rightarrow> go_error" where
  "cid_mismatch who want got = Errorf (who @ '': correlation id mismatch: want %d got %d'') [FInt (sint want), FInt (sint got)]"

definition RoundTrip :: "byte list \<Rightarrow> int32 \<Rightarrow> int8 \<Rightarrow> int8 \<Rightarrow> (UConn, byte list) op" where
  "RoundTrip reqFrame clientCorrelationID headerVersion respHeaderVersion =
     (if length reqFrame < 8 then op_fail (ErrNew ''RoundTrip: request frame too short'')
      else op_bind nextCorrelationID (\<lambda>upstreamCID.
      let out = take 4 reqFrame @ PutUint32 upstreamCID @ drop 8 reqFrame in
      op_bind (op_wrap ''RoundTrip'' applyRequestDeadline) (\<lambda>_.
      op_bind (op_wrap ''RoundTrip'' (on_unc (write_frame out))) (\<lambda>_.
      op_bind (op_wrap ''RoundTrip'' (on_unc read_frame)) (\<lambda>respFrame.
      if length respFrame < 4 then op_fail (ErrNew ''RoundTrip: response frame too short'')
      else let gotCID = BigEndian_Uint32 (take 4 respFrame)
           in if gotCID \<noteq> upstreamCID then op_fail (cid_mismatch ''RoundTrip'' upstreamCID gotCID)
              else op_return (PutUint32 clientCorrelationID @ drop 4 respFrame))))))"

text \<open>The common end of \<open>RoundTripRequest\<close> and \<open>directRoundTrip\<close>: reading the response, checking its
  correlation id and slicing its header off.\<close>

definition read_response :: "string \<Rightarrow> int32 \<Rightarrow> int16 \<Rightarrow> int16 \<Rightarrow> (UConn, byte list) op" where
  "read_response who cid apiKey apiVersion =
     op_bind (op_wrap who (on_unc read_frame)) (\<lambda>respFrame.
     if length respFrame < 4 then op_fail (ErrNew (who @ '': short response''))
     else let gotCID = BigEndian_Uint32 (take 4 respFrame)
          in if gotCID \<noteq> cid then op_fail (cid_mismatch who cid gotCID)
             else let off = (if 1 \<le> sint (ResponseHeaderVersion apiKey apiVersion) then 5 else 4)
                  in op_lift (slice_from respFrame off))"

definition RoundTripRequest :: "('q, 'p) kapi \<Rightarrow> int16 \<Rightarrow> int16 \<Rightarrow> 'q \<Rightarrow> string \<Rightarrow> (UConn, byte list) op" where
  "RoundTripRequest api apiKey apiVersion req clientID =
     op_bind nextCorrelationID (\<lambda>cid.
     let frameWithLen = AppendRequest api clientID apiVersion req cid in
     op_bind (op_wrap ''RoundTripRequest'' applyRequestDeadline) (\<lambda>_.
     op_bind (op_wrap ''RoundTripRequest'' (on_unc (write_bytes frameWithLen))) (\<lambda>_.
     read_response ''RoundTripRequest'' cid apiKey apiVersion)))"

definition directRoundTrip :: "('q, 'p) kapi \<Rightarrow> 'q \<Rightarrow> int16 \<Rightarrow> int16 \<Rightarrow> (UConn, byte list) op" where
  "directRoundTrip api req apiKey apiVersion =
     op_bind nextCorrelationID (\<lambda>cid.
     let frameWithLen = AppendRequest api ''kroxy'' apiVersion req cid in
     op_bind (op_wrap ''directRoundTrip'' (on_unc (write_bytes frameWithLen))) (\<lambda>_.
     read_response ''directRoundTrip'' cid apiKey apiVersion))"

subsection \<open>Handshakes\<close>

definition apiVersions :: "kmsg_sasl \<Rightarrow> (UConn, unit) op" where
  "apiVersions K =
     op_bind (op_wrap ''apiVersions'' (directRoundTrip (k_ApiVersions K) () ApiVersionsKey 0)) (\<lambda>_. op_return ())"

definition saslHandshake :: "kmsg_sasl \<Rightarrow> string \<Rightarrow> (UConn, unit) op" where
  "saslHandshake K mechanism =
     op_bind (op_wrap ''saslHandshake''
       (directRoundTrip (k_SASLHandshake K) \<lparr>HandshakeMechanism = mechanism\<rparr> SaslHandshakeKey 1)) (\<lambda>body.
     op_bind (op_lift (go_wrap ''saslHandshake'' (ReadResp (k_SASLHandshake K) 1 body))) (\<lambda>hsResp.
     if HandshakeErrorCode hsResp \<noteq> 0
     then op_fail (Errorf ''saslHandshake: upstream error code %d'' [FInt (sint (HandshakeErrorCode hsResp))])
     else op_return ()))"

definition plainAuthenticate :: "kmsg_sasl \<Rightarrow> string \<Rightarrow> string \<Rightarrow> (UConn, unit) op" where
  "plainAuthenticate K username password =
     op_bind (op_wrap ''plainAuthenticate''
       (directRoundTrip (k_SASLAuthenticate K)
         \<lparr>SASLAuthBytes = [0] @ bytes_of username @ [0] @ bytes_of password\<rparr> SaslAuthenticateKey 1)) (\<lambda>body.
     op_bind (op_lift (go_wrap ''plainAuthenticate'' (ReadResp (k_SASLAuthenticate K) 1 body))) (\<lambda>authResp.
     if AuthErrorCode authResp \<noteq> 0
     then op_fail (Errorf ''plainAuthenticate: upstream error %d: %s''
       [FInt (sint (AuthErrorCode authResp)), FStr (case AuthErrorMessage authResp of None \<Rightarrow> [] | Some m \<Rightarrow> m)])
     else op_return ()))"

definition RelaySASLAuthenticate :: "kmsg_sasl \<Rightarrow> byte list \<Rightarrow> (UConn, byte list \<times> int16 \<times> string) op" where
  "RelaySASLAuthenticate K payload =
     op_bind (op_wrap ''RelaySASLAuthenticate'' applyRequestDeadline) (\<lambda>_.
     op_bind (op_wrap ''RelaySASLAuthenticate''
       (directRoundTrip (k_SASLAuthenticate K) \<lparr>SASLAuthBytes = payload\<rparr> SaslAuthenticateKey 1)) (\<lambda>body.
     op_bind (op_lift (go_wrap ''RelaySASLAuthenticate'' (ReadResp (k_SASLAuthenticate K) 1 body))) (\<lambda>resp.
     op_return (AuthBytes resp, AuthErrorCode resp, case AuthErrorMessage resp of None \<Rightarrow> [] | Some m \<Rightarrow> m))))"

definition scram_upstream_error :: "int16 \<Rightarrow> string \<Rightarrow> go_error" where
  "scram_upstream_error code msg = Errorf ''scramAuthenticate: upstream error %d: %s'' [FInt (sint code), FStr msg]"

subsection \<open>What a round trip does\<close>

text \<open>The frame in which a broker answers: the correlation id, one byte of tagged fields in flexible
  versions, the body.\<close>

definition response_frame :: "int32 \<Rightarrow> int16 \<Rightarrow> int16 \<Rightarrow> byte list \<Rightarrow> byte list \<Rightarrow> bool" where
  "response_frame cid key ver body f \<longleftrightarrow>
     (\<exists>tag. f = PutUint32 cid @ tag @ body \<and> length tag = (if ResponseHeaderVersion key ver = 1 then 1 else 0))"

lemma ResponseHeaderVersion_cases: "ResponseHeaderVersion k v = 0 \<or> ResponseHeaderVersion k v = 1"
  by (simp add: ResponseHeaderVersion_def)

lemma on_unc_Ok [simp]: "on_unc m c = (r, c') \<longleftrightarrow> (\<exists>s. m (unc c) = (r, s) \<and> c' = c\<lparr>unc := s\<rparr>)"
  by (auto simp: on_unc_def split: prod.split)

lemma nextCorrelationID_eq [simp]:
  "nextCorrelationID c = (Ok (corrIDGen c + 1), c\<lparr>corrIDGen := corrIDGen c + 1\<rparr>)"
  by (simp add: nextCorrelationID_def)

lemma applyRequestDeadline_Ok:
  "applyRequestDeadline c = (Ok u, c') \<longleftrightarrow>
     deadline_err (unc c) = None \<and>
     c' = c\<lparr>unc := (unc c)\<lparr>rd_deadline := (if reqTO c \<le> 0 then None else Some (reqTO c)),
                           wr_deadline := (if reqTO c \<le> 0 then None else Some (reqTO c))\<rparr>\<rparr>"
  by (auto simp: applyRequestDeadline_def SetDeadline_def)

lemma applyRequestDeadline_not_Panic [simp]: "applyRequestDeadline c \<noteq> (Panic, c')"
  by (simp add: applyRequestDeadline_def)

lemma read_response_Ok:
  assumes "read_response who cid key ver c = (Ok body, c')"
  obtains f rest where "response_frame cid key ver body f" and "frame_ok f"
    and "rd (unc c) = frame_bytes f @ rest" and "c' = c\<lparr>unc := (unc c)\<lparr>rd := rest\<rparr>\<rparr>"
proof -
  from assms obtain f rest where f: "frame_ok f" "rd (unc c) = frame_bytes f @ rest" "c' = c\<lparr>unc := (unc c)\<lparr>rd := rest\<rparr>\<rparr>"
    and four: "\<not> length f < 4" and cid: "BigEndian_Uint32 (take 4 f) = cid"
    and off: "slice_from f (if 1 \<le> sint (ResponseHeaderVersion key ver) then 5 else 4) = Ok body"
    by (auto simp: read_response_def op_bind_Ok read_frame_Ok Let_def split: if_splits)
  have "take 4 f = PutUint32 cid"
    using four cid PutUint32_Uint32_list [of "take 4 f"] by auto
  then have "f = PutUint32 cid @ drop 4 f"
    by (metis append_take_drop_id)
  moreover have "drop 4 f = take 1 (drop 4 f) @ body" "5 \<le> length f" if "ResponseHeaderVersion key ver = 1"
    using off that append_take_drop_id [of 1 "drop 4 f"] by (auto simp: slice_from_Ok_iff)
  moreover have "drop 4 f = body" if "ResponseHeaderVersion key ver = 0"
    using off that by (simp add: slice_from_Ok_iff)
  ultimately have "response_frame cid key ver body f"
    using ResponseHeaderVersion_cases [of key ver] unfolding response_frame_def
    by (cases "ResponseHeaderVersion key ver = 1") (auto intro: exI [of _ "take 1 (drop 4 f)"])
  with f that show ?thesis by blast
qed

lemma read_response_frame:
  assumes "response_frame cid key ver body f" and "frame_ok f" and "rd (unc c) = frame_bytes f @ rest"
  shows "read_response who cid key ver c = (Ok body, c\<lparr>unc := (unc c)\<lparr>rd := rest\<rparr>\<rparr>)"
proof -
  from assms(1) obtain tag where f: "f = PutUint32 cid @ tag @ body"
    and tag: "length tag = (if ResponseHeaderVersion key ver = 1 then 1 else 0)"
    by (auto simp: response_frame_def)
  have r: "read_frame (unc c) = (Ok f, (unc c)\<lparr>rd := rest\<rparr>)"
    using assms(2,3) by (simp add: read_frame_Ok)
  have "slice_from f (if 1 \<le> sint (ResponseHeaderVersion key ver) then 5 else 4) = Ok body"
    using f tag ResponseHeaderVersion_cases [of key ver] by (auto simp: slice_from_def)
  then show ?thesis
    using r f by (simp add: read_response_def op_bind_def op_wrap_def on_unc_def Let_def)
qed

lemma read_response_not_Panic:
  "ResponseHeaderVersion key ver = 0 \<Longrightarrow> read_response who cid key ver c \<noteq> (Panic, c')"
  by (auto simp: read_response_def op_bind_Panic Let_def slice_from_def)

lemma directRoundTrip_Ok:
  assumes "directRoundTrip api req key ver c = (Ok body, c')"
  obtains f l rest where "response_frame (corrIDGen c + 1) key ver body f" and "frame_ok f"
    and "rd (unc c) = frame_bytes f @ rest"
    and "c' = c\<lparr>corrIDGen := corrIDGen c + 1, unc := (unc c)\<lparr>
           wr := wr (unc c) @ AppendRequest api ''kroxy'' ver req (corrIDGen c + 1), wr_left := l, rd := rest\<rparr>\<rparr>"
proof -
  from assms obtain w where w: "write_bytes (AppendRequest api ''kroxy'' ver req (corrIDGen c + 1)) (unc c) = (Ok (), w)"
    and r: "read_response ''directRoundTrip'' (corrIDGen c + 1) key ver
      (c\<lparr>corrIDGen := corrIDGen c + 1, unc := w\<rparr>) = (Ok body, c')"
    by (auto simp: directRoundTrip_def op_bind_Ok Let_def)
  from write_bytes_Ok [OF w] obtain l where l:
    "w = (unc c)\<lparr>wr := wr (unc c) @ AppendRequest api ''kroxy'' ver req (corrIDGen c + 1), wr_left := l\<rparr>"
    by blast
  from r obtain f rest where "response_frame (corrIDGen c + 1) key ver body f" "frame_ok f"
    "rd w = frame_bytes f @ rest" "c' = c\<lparr>corrIDGen := corrIDGen c + 1, unc := w\<lparr>rd := rest\<rparr>\<rparr>"
    by (elim read_response_Ok) simp
  with l that show ?thesis by simp
qed

lemma directRoundTrip_not_Panic:
  "ResponseHeaderVersion key ver = 0 \<Longrightarrow> directRoundTrip api req key ver c \<noteq> (Panic, c')"
  by (auto simp: directRoundTrip_def op_bind_Panic Let_def read_response_not_Panic)

lemma handshake_header_versions [simp]:
  "ResponseHeaderVersion ApiVersionsKey 0 = 0" "ResponseHeaderVersion SaslHandshakeKey 1 = 0"
  "ResponseHeaderVersion SaslAuthenticateKey 1 = 0"
  by (simp_all add: ResponseHeaderVersion_def isFlexibleRequest_def key_defs)

lemma op_lift_wrap_not_Panic [simp]: "op_lift (go_wrap w r) s \<noteq> (Panic, t)"
  by simp

lemma handshake_not_Panic:
  "apiVersions K c \<noteq> (Panic, c')" "saslHandshake K m c \<noteq> (Panic, c')"
  "plainAuthenticate K u p c \<noteq> (Panic, c')" "RelaySASLAuthenticate K b c \<noteq> (Panic, c')"
  by (auto simp: apiVersions_def saslHandshake_def plainAuthenticate_def RelaySASLAuthenticate_def
      op_bind_Panic directRoundTrip_not_Panic split: if_splits)

lemma RelaySASLAuthenticate_consumes:
  assumes "RelaySASLAuthenticate K payload c = (Ok r, c')"
  shows "length (rd (unc c')) < length (rd (unc c))"
proof -
  from assms obtain body c1 where "applyRequestDeadline c = (Ok (), c1)"
    and d: "directRoundTrip (k_SASLAuthenticate K) \<lparr>SASLAuthBytes = payload\<rparr> SaslAuthenticateKey 1 c1 = (Ok body, c')"
    by (auto simp: RelaySASLAuthenticate_def op_bind_Ok)
  then have "rd (unc c1) = rd (unc c)"
    by (auto simp: applyRequestDeadline_Ok)
  moreover from d obtain f rest where "rd (unc c1) = frame_bytes f @ rest" "rd (unc c') = rest"
    by (elim directRoundTrip_Ok) simp
  ultimately show ?thesis
    by (metis add.commute frame_bytes_def length_append length_PutUint(2) less_add_same_cancel2 trans_less_add1 zero_less_numeral)
qed

subsection \<open>SCRAM as the client\<close>

text \<open>The loop ends because every successful relay consumes input of the broker.\<close>

function scram_loop :: "kmsg_sasl \<Rightarrow> 's scram_api \<Rightarrow> 's \<Rightarrow> byte list \<Rightarrow> UConn \<Rightarrow> unit go \<times> UConn" where
  "scram_loop K S session clientMsg c =
     (case RelaySASLAuthenticate K clientMsg c of
        (Err rErr, c) \<Rightarrow> (Err (Wrap rErr ''scramAuthenticate''), c)
      | (Panic, c) \<Rightarrow> (Panic, c)
      | (Ok (serverMsg, errCode, errMsg), c) \<Rightarrow>
          if errCode \<noteq> 0 then (Err (scram_upstream_error errCode errMsg), c)
          else (case Challenge S session serverMsg of
                  Inl cErr \<Rightarrow> (Err (Wrap cErr ''scramAuthenticate''), c)
                | Inr (done, nextMsg, session) \<Rightarrow>
                    if done
                    then if length nextMsg > 0
                         then (case RelaySASLAuthenticate K nextMsg c of
                                 (Err rErr, c) \<Rightarrow> (Err (Wrap rErr ''scramAuthenticate''), c)
                               | (Panic, c) \<Rightarrow> (Panic, c)
                               | (Ok (_, errCode, errMsg), c) \<Rightarrow>
                                   if errCode \<noteq> 0 then (Err (scram_upstream_error errCode errMsg), c)
                                   else (Ok (), c))
                         else (Ok (), c)
                    else scram_loop K S session nextMsg c))"
  by pat_completeness auto

termination
  by (relation "measure (\<lambda>(K, S, session, msg, c). length (rd (unc c)))")
    (auto dest!: RelaySASLAuthenticate_consumes [OF sym])

declare scram_loop.simps [simp del]

definition scramAuthenticate :: "kmsg_sasl \<Rightarrow> 's scram_api \<Rightarrow> string \<Rightarrow> string \<Rightarrow> string \<Rightarrow> (UConn, unit) op" where
  "scramAuthenticate K S mechanism username password =
     (if mechanism \<noteq> MechanismSCRAMSHA256 \<and> mechanism \<noteq> MechanismSCRAMSHA512
      then op_fail (Errorf ''scramAuthenticate: unsupported mechanism %q'' [FStr mechanism])
      else op_bind (op_get (\<lambda>c. remote_addr (unc c))) (\<lambda>host.
        case Authenticate S mechanism username password host of
          Inl err \<Rightarrow> op_fail (Wrap err ''scramAuthenticate'')
        | Inr (session, clientMsg) \<Rightarrow> scram_loop K S session clientMsg))"

subsection \<open>Dialling\<close>

type_synonym dialed = "UConn go \<times> stream list"

text \<open>A step whose failure closes the socket and returns the wrapped error, as all steps of a dial
  do, and the steps after \<open>dialAndNegotiate\<close>.\<close>

definition dial_step :: "string \<Rightarrow> (UConn, unit) op \<Rightarrow> (UConn \<Rightarrow> dialed) \<Rightarrow> UConn \<Rightarrow> dialed" where
  "dial_step who m k c =
     (case m c of
        (Ok _, c) \<Rightarrow> k c
      | (Err e, c) \<Rightarrow> (Err (Wrap e who), [net_Close (unc c)])
      | (Panic, c) \<Rightarrow> (Panic, [unc c]))"

definition negotiated :: "string \<Rightarrow> dialed \<Rightarrow> (UConn \<Rightarrow> dialed) \<Rightarrow> dialed" where
  "negotiated who d k =
     (case d of (Ok c, lost) \<Rightarrow> k c | (Err e, lost) \<Rightarrow> (Err (Wrap e who), lost) | (Panic, lost) \<Rightarrow> (Panic, lost))"

definition dial_done :: "UConn \<Rightarrow> dialed" where
  "dial_done c = (Ok c, [])"

definition dialAndNegotiate :: "kmsg_sasl \<Rightarrow> (string \<Rightarrow> go_error + stream) \<Rightarrow> string \<Rightarrow> string \<Rightarrow> dialed" where
  "dialAndNegotiate K net_dial addr mechanism =
     (case net_dial addr of
        Inl err \<Rightarrow> (Err (Wrap err ''dialAndNegotiate''), [])
      | Inr nc \<Rightarrow>
          dial_step ''dialAndNegotiate'' (on_unc (op_error (SetDeadline (Some dialTimeout))))
          (dial_step ''dialAndNegotiate'' (apiVersions K)
          (dial_step ''dialAndNegotiate'' (saslHandshake K mechanism) dial_done))
          \<lparr>unc = nc, corrIDGen = 0, reqTO = DefaultRequestTimeout\<rparr>)"

definition Dial :: "kmsg_sasl \<Rightarrow> (string \<Rightarrow> go_error + stream) \<Rightarrow> string \<Rightarrow> string \<Rightarrow> string \<Rightarrow> dialed" where
  "Dial K net_dial addr username password =
     negotiated ''Dial'' (dialAndNegotiate K net_dial addr MechanismPlain)
       (dial_step ''Dial'' (plainAuthenticate K username password)
       (dial_step ''Dial'' (on_unc (op_error (SetDeadline None))) dial_done))"

definition DialForSCRAM :: "kmsg_sasl \<Rightarrow> (string \<Rightarrow> go_error + stream) \<Rightarrow> string \<Rightarrow> string \<Rightarrow> dialed" where
  "DialForSCRAM K net_dial addr mechanism =
     (if \<not> IsSCRAMMechanism mechanism
      then (Err (Errorf ''DialForSCRAM: unsupported mechanism %q'' [FStr mechanism]), [])
      else negotiated ''DialForSCRAM'' (dialAndNegotiate K net_dial addr mechanism)
        (dial_step ''DialForSCRAM'' (on_unc (op_error (SetDeadline None))) dial_done))"

definition DialSCRAM ::
    "kmsg_sasl \<Rightarrow> 's scram_api \<Rightarrow> (string \<Rightarrow> go_error + stream) \<Rightarrow> string \<Rightarrow> string \<Rightarrow> string \<Rightarrow> string \<Rightarrow> dialed" where
  "DialSCRAM K S net_dial addr mechanism username password =
     (if \<not> IsSCRAMMechanism mechanism
      then (Err (Errorf ''DialSCRAM: unsupported mechanism %q'' [FStr mechanism]), [])
      else negotiated ''DialSCRAM'' (dialAndNegotiate K net_dial addr mechanism)
        (dial_step ''DialSCRAM'' (scramAuthenticate K S mechanism username password)
        (dial_step ''DialSCRAM'' (on_unc (op_error (SetDeadline None))) dial_done)))"

subsection \<open>No dial panics or leaks its socket\<close>

lemma scram_loop_not_Panic: "fst (scram_loop K S session msg c) \<noteq> Panic"
proof (induction c arbitrary: session msg rule: measure_induct_rule [of "\<lambda>c. length (rd (unc c))"])
  case (less c)
  have ih: "fst (scram_loop K S session' msg' c') \<noteq> Panic"
    if "RelaySASLAuthenticate K msg c = (Ok r, c')" for session' msg' c' r
    using less.IH RelaySASLAuthenticate_consumes [OF that] by blast
  show ?case
    by (subst scram_loop.simps)
      (auto split: prod.split go.split sum.split simp: handshake_not_Panic dest: ih)
qed

lemma scramAuthenticate_not_Panic: "fst (scramAuthenticate K S m u p c) \<noteq> Panic"
  by (auto simp: scramAuthenticate_def op_bind_def scram_loop_not_Panic split: sum.split prod.split)

definition dial_clean :: "dialed \<Rightarrow> bool" where
  "dial_clean d \<longleftrightarrow>
     fst d \<noteq> Panic \<and> list_all closed (snd d) \<and> (\<forall>c. fst d = Ok c \<longrightarrow> snd d = [])"

lemma dial_clean_step:
  "(\<And>c. fst (m c) \<noteq> Panic) \<Longrightarrow> (\<And>c. dial_clean (k c)) \<Longrightarrow> dial_clean (dial_step who m k c)"
  unfolding dial_step_def
  by (auto simp: dial_clean_def net_Close_def split: prod.split go.split) (metis fst_conv)+

lemma dial_clean_negotiated: "dial_clean d \<Longrightarrow> (\<And>c. dial_clean (k c)) \<Longrightarrow> dial_clean (negotiated who d k)"
  by (auto simp: dial_clean_def negotiated_def split: prod.split go.split)

lemma dial_clean_done: "dial_clean (dial_done c)"
  by (simp add: dial_clean_def dial_done_def)

lemma fst_not_Panic: "(\<And>c'. r \<noteq> (Panic, c')) \<Longrightarrow> fst r \<noteq> Panic"
  by (metis prod.collapse)

lemma handshake_fst_not_Panic:
  "fst (apiVersions K c) \<noteq> Panic" "fst (saslHandshake K m c) \<noteq> Panic"
  "fst (plainAuthenticate K u p c) \<noteq> Panic" "fst (RelaySASLAuthenticate K b c) \<noteq> Panic"
  by (rule fst_not_Panic, rule handshake_not_Panic)+

lemma deadline_not_Panic: "fst (on_unc (op_error (SetDeadline d)) c) \<noteq> Panic"
  by (rule fst_not_Panic) simp

lemmas dial_clean_rules =
  dial_clean_step dial_clean_negotiated dial_clean_done deadline_not_Panic scramAuthenticate_not_Panic
  handshake_fst_not_Panic

lemma dialAndNegotiate_clean: "dial_clean (dialAndNegotiate K nd addr mech)"
  by (auto simp: dialAndNegotiate_def dial_clean_def [of "(Err _, [])"] split: sum.split intro!: dial_clean_rules)

lemma Dial_clean: "dial_clean (Dial K nd addr user pass)"
  unfolding Dial_def by (intro dial_clean_rules dialAndNegotiate_clean)

lemma DialForSCRAM_clean: "dial_clean (DialForSCRAM K nd addr mech)"
  unfolding DialForSCRAM_def
  by (auto simp: dial_clean_def [of "(Err _, [])"] intro!: dial_clean_rules dialAndNegotiate_clean)

lemma DialSCRAM_clean: "dial_clean (DialSCRAM K S nd addr mech user pass)"
  unfolding DialSCRAM_def
  by (auto simp: dial_clean_def [of "(Err _, [])"] intro!: dial_clean_rules dialAndNegotiate_clean)

subsection \<open>Frame conditions of a connection\<close>

definition uconn_step :: "UConn \<Rightarrow> UConn \<Rightarrow> bool" where
  "uconn_step c d \<longleftrightarrow> stream_step (unc c) (unc d) \<and> reqTO d = reqTO c"

interpretation uconn: frame_condition uconn_step
  by unfold_locales (auto simp: uconn_step_def stream.R_refl dest: stream.R_trans)

lemma on_unc_keeps: "keeps stream_step m \<Longrightarrow> keeps uconn_step (on_unc m)"
  by (rule keepsI) (auto simp: uconn_step_def dest: keepsD)

lemma nextCorrelationID_keeps: "keeps uconn_step nextCorrelationID"
  by (rule keepsI) (auto simp: uconn_step_def stream.R_refl)

lemmas uconn_keeps_base = uconn.keeps_rules nextCorrelationID_keeps on_unc_keeps stream_ops_keeps

lemma applyRequestDeadline_keeps: "keeps uconn_step applyRequestDeadline"
  unfolding applyRequestDeadline_def by (intro uconn_keeps_base)

lemma read_response_keeps: "keeps uconn_step (read_response who cid key ver)"
  unfolding read_response_def by (intro uconn_keeps_base)

lemmas uconn_keeps = uconn_keeps_base applyRequestDeadline_keeps read_response_keeps

lemma RoundTrip_keeps: "keeps uconn_step (RoundTrip f cid hv rv)"
  unfolding RoundTrip_def by (intro uconn_keeps)

lemma RoundTripRequest_keeps: "keeps uconn_step (RoundTripRequest api key ver req cl)"
  unfolding RoundTripRequest_def by (intro uconn_keeps)

lemma directRoundTrip_keeps: "keeps uconn_step (directRoundTrip api req key ver)"
  unfolding directRoundTrip_def by (intro uconn_keeps)

lemma handshake_keeps:
  "keeps uconn_step (apiVersions K)" "keeps uconn_step (saslHandshake K mech)"
  "keeps uconn_step (plainAuthenticate K user pass)" "keeps uconn_step (RelaySASLAuthenticate K payload)"
  unfolding apiVersions_def saslHandshake_def plainAuthenticate_def RelaySASLAuthenticate_def
  by (intro uconn_keeps directRoundTrip_keeps)+

subsection \<open>Successful dials\<close>

lemma dial_step_Ok:
  "dial_step who m k c = (Ok c', l) \<longleftrightarrow> (\<exists>c1. m c = (Ok (), c1) \<and> k c1 = (Ok c', l))"
  by (auto simp: dial_step_def split: prod.split go.split)

lemma negotiated_Ok:
  "negotiated who d k = (Ok c', l) \<longleftrightarrow> (\<exists>c1 l1. d = (Ok c1, l1) \<and> k c1 = (Ok c', l))"
  by (auto simp: negotiated_def split: prod.split go.split)

lemma dial_done_Ok [simp]: "dial_done c = (Ok c', l) \<longleftrightarrow> c' = c \<and> l = []"
  by (auto simp: dial_done_def)

lemma clear_deadline_Ok:
  "on_unc (op_error (SetDeadline d)) c = (Ok u, c') \<longleftrightarrow>
     deadline_err (unc c) = None \<and> c' = c\<lparr>unc := (unc c)\<lparr>rd_deadline := d, wr_deadline := d\<rparr>\<rparr>"
  by (auto simp: SetDeadline_def)

text \<open>What a handshake step sends: its one request, with the next correlation id.\<close>

definition sends :: "UConn \<Rightarrow> byte list \<Rightarrow> UConn \<Rightarrow> bool" where
  "sends c b c' \<longleftrightarrow> wr (unc c') = wr (unc c) @ b \<and> corrIDGen c' = corrIDGen c + 1 \<and>
     rd_deadline (unc c') = rd_deadline (unc c) \<and> remote_addr (unc c') = remote_addr (unc c) \<and> reqTO c' = reqTO c"

lemma directRoundTrip_sends:
  assumes "directRoundTrip api req key ver c = (Ok body, c')"
  shows "sends c (AppendRequest api ''kroxy'' ver req (corrIDGen c + 1)) c'"
  using assms by (elim directRoundTrip_Ok) (simp add: sends_def)

lemma apiVersions_Ok:
  "apiVersions K c = (Ok u, c') \<Longrightarrow> sends c (AppendRequest (k_ApiVersions K) ''kroxy'' 0 () (corrIDGen c + 1)) c'"
  by (auto simp: apiVersions_def op_bind_Ok dest: directRoundTrip_sends)

lemma saslHandshake_Ok:
  "saslHandshake K mech c = (Ok u, c') \<Longrightarrow>
     sends c (AppendRequest (k_SASLHandshake K) ''kroxy'' 1 \<lparr>HandshakeMechanism = mech\<rparr> (corrIDGen c + 1)) c'"
  by (auto simp: saslHandshake_def op_bind_Ok split: if_splits dest!: directRoundTrip_sends)

lemma plainAuthenticate_Ok:
  assumes "plainAuthenticate K user pass c = (Ok u, c')"
  shows "sends c (AppendRequest (k_SASLAuthenticate K) ''kroxy'' 1 \<lparr>SASLAuthBytes = plain_payload [] user pass\<rparr> (corrIDGen c + 1)) c'"
    and "\<exists>f body resp. response_frame (corrIDGen c + 1) SaslAuthenticateKey 1 body f \<and>
      rd (unc c) = frame_bytes f @ rd (unc c') \<and>
      ReadResp (k_SASLAuthenticate K) 1 body = Inr resp \<and> AuthErrorCode resp = 0"
proof -
  from assms obtain body resp where d: "directRoundTrip (k_SASLAuthenticate K)
      \<lparr>SASLAuthBytes = plain_payload [] user pass\<rparr> SaslAuthenticateKey 1 c = (Ok body, c')"
    and r: "ReadResp (k_SASLAuthenticate K) 1 body = Inr resp" "AuthErrorCode resp = 0"
    by (auto simp: plainAuthenticate_def plain_payload_def op_bind_Ok split: if_splits)
  show "sends c (AppendRequest (k_SASLAuthenticate K) ''kroxy'' 1 \<lparr>SASLAuthBytes = plain_payload [] user pass\<rparr> (corrIDGen c + 1)) c'"
    using d by (rule directRoundTrip_sends)
  from d obtain f where "response_frame (corrIDGen c + 1) SaslAuthenticateKey 1 body f" "rd (unc c) = frame_bytes f @ rd (unc c')"
    by (elim directRoundTrip_Ok) simp
  with r show "\<exists>f body resp. response_frame (corrIDGen c + 1) SaslAuthenticateKey 1 body f \<and>
      rd (unc c) = frame_bytes f @ rd (unc c') \<and>
      ReadResp (k_SASLAuthenticate K) 1 body = Inr resp \<and> AuthErrorCode resp = 0"
    by blast
qed

text \<open>The bytes of the negotiation that every dial starts with.\<close>

definition negotiation :: "kmsg_sasl \<Rightarrow> string \<Rightarrow> byte list" where
  "negotiation K mech =
     AppendRequest (k_ApiVersions K) ''kroxy'' 0 () 1 @
     AppendRequest (k_SASLHandshake K) ''kroxy'' 1 \<lparr>HandshakeMechanism = mech\<rparr> 2"

lemma dialAndNegotiate_Ok:
  assumes "dialAndNegotiate K nd addr mech = (Ok c, l)"
  shows "\<exists>nc. nd addr = Inr nc \<and> wr (unc c) = wr nc @ negotiation K mech \<and> corrIDGen c = 2 \<and>
    remote_addr (unc c) = remote_addr nc \<and> reqTO c = DefaultRequestTimeout \<and> rd_deadline (unc c) = Some dialTimeout"
  using assms
  by (auto simp: dialAndNegotiate_def dial_step_Ok clear_deadline_Ok negotiation_def sends_def
      simp del: on_unc_Ok split: sum.splits dest!: apiVersions_Ok saslHandshake_Ok)

lemma dialAndNegotiate_rd:
  assumes "dialAndNegotiate K nd addr mech = (Ok c, l)" and "nd addr = Inr nc"
  shows "suffix (rd (unc c)) (rd nc)"
proof -
  let ?c = "\<lparr>unc = nc, corrIDGen = 0, reqTO = DefaultRequestTimeout\<rparr>"
  from assms obtain c1 c2 where d: "on_unc (op_error (SetDeadline (Some dialTimeout))) ?c = (Ok (), c1)"
    and v: "apiVersions K c1 = (Ok (), c2)" and h: "saslHandshake K mech c2 = (Ok (), c)"
    by (auto simp: dialAndNegotiate_def dial_step_Ok simp del: on_unc_Ok)
  have "uconn_step ?c c1"
    using d by (rule keepsD [OF on_unc_keeps [OF stream_ops_keeps(4)]])
  moreover have "uconn_step c1 c2" "uconn_step c2 c"
    using keepsD [OF handshake_keeps(1) v] keepsD [OF handshake_keeps(2) h] by auto
  ultimately have "uconn_step ?c c"
    using uconn.R_trans by blast
  then show ?thesis
    by (simp add: uconn_step_def stream_step_def)
qed

lemma Dial_Ok:
  assumes "Dial K nd addr user pass = (Ok c, l)"
  shows "\<exists>nc. nd addr = Inr nc \<and>
    wr (unc c) = wr nc @ negotiation K MechanismPlain @
      AppendRequest (k_SASLAuthenticate K) ''kroxy'' 1 \<lparr>SASLAuthBytes = plain_payload [] user pass\<rparr> 3 \<and>
    corrIDGen c = 3 \<and> reqTO c = DefaultRequestTimeout \<and> rd_deadline (unc c) = None"
    and "nd addr = Inr nc \<Longrightarrow> \<exists>pre f body resp. rd nc = pre @ frame_bytes f @ rd (unc c) \<and>
      response_frame 3 SaslAuthenticateKey 1 body f \<and>
      ReadResp (k_SASLAuthenticate K) 1 body = Inr resp \<and> AuthErrorCode resp = 0"
proof -
  from assms obtain c1 l1 c2 where d: "dialAndNegotiate K nd addr MechanismPlain = (Ok c1, l1)"
    and a: "plainAuthenticate K user pass c1 = (Ok (), c2)"
    and c: "c = c2\<lparr>unc := (unc c2)\<lparr>rd_deadline := None, wr_deadline := None\<rparr>\<rparr>"
    by (auto simp: Dial_def negotiated_Ok dial_step_Ok clear_deadline_Ok simp del: on_unc_Ok)
  show "\<exists>nc. nd addr = Inr nc \<and>
    wr (unc c) = wr nc @ negotiation K MechanismPlain @
      AppendRequest (k_SASLAuthenticate K) ''kroxy'' 1 \<lparr>SASLAuthBytes = plain_payload [] user pass\<rparr> 3 \<and>
    corrIDGen c = 3 \<and> reqTO c = DefaultRequestTimeout \<and> rd_deadline (unc c) = None"
    using dialAndNegotiate_Ok [OF d] plainAuthenticate_Ok(1) [OF a] c by (auto simp: sends_def)
  show "\<exists>pre f body resp. rd nc = pre @ frame_bytes f @ rd (unc c) \<and>
      response_frame 3 SaslAuthenticateKey 1 body f \<and>
      ReadResp (k_SASLAuthenticate K) 1 body = Inr resp \<and> AuthErrorCode resp = 0" if nc: "nd addr = Inr nc"
  proof -
    have "corrIDGen c1 + 1 = 3"
      using dialAndNegotiate_Ok [OF d] by auto
    with plainAuthenticate_Ok(2) [OF a] obtain f body resp where
      "response_frame 3 SaslAuthenticateKey 1 body f" "rd (unc c1) = frame_bytes f @ rd (unc c2)"
      "ReadResp (k_SASLAuthenticate K) 1 body = Inr resp" "AuthErrorCode resp = 0"
      by auto
    then show ?thesis
      using dialAndNegotiate_rd [OF d nc] c by (auto simp: suffix_def)
  qed
qed

lemma DialForSCRAM_Ok:
  assumes "DialForSCRAM K nd addr mech = (Ok c, l)"
  shows "\<exists>nc. nd addr = Inr nc \<and> wr (unc c) = wr nc @ negotiation K mech \<and>
    corrIDGen c = 2 \<and> reqTO c = DefaultRequestTimeout \<and> rd_deadline (unc c) = None" and "IsSCRAMMechanism mech"
proof -
  from assms obtain c1 l1 where d: "dialAndNegotiate K nd addr mech = (Ok c1, l1)"
    and c: "c = c1\<lparr>unc := (unc c1)\<lparr>rd_deadline := None, wr_deadline := None\<rparr>\<rparr>" and m: "IsSCRAMMechanism mech"
    by (auto simp: DialForSCRAM_def negotiated_Ok dial_step_Ok clear_deadline_Ok simp del: on_unc_Ok split: if_splits)
  show "\<exists>nc. nd addr = Inr nc \<and> wr (unc c) = wr nc @ negotiation K mech \<and>
      corrIDGen c = 2 \<and> reqTO c = DefaultRequestTimeout \<and> rd_deadline (unc c) = None"
    using dialAndNegotiate_Ok [OF d] c by auto
  show "IsSCRAMMechanism mech" by (rule m)
qed

text \<open>An accepted run of the SCRAM client: server messages its session took, the last of which made
  it done.\<close>

inductive scram_accepts :: "'s scram_api \<Rightarrow> 's \<Rightarrow> byte list list \<Rightarrow> bool" for S where
  accepts_last: "Challenge S s m = Inr (True, nxt, s') \<Longrightarrow> scram_accepts S s [m]"
| accepts_more: "Challenge S s m = Inr (False, nxt, s') \<Longrightarrow> scram_accepts S s' ms \<Longrightarrow> scram_accepts S s (m # ms)"

inductive_cases scram_accepts_NilE: "scram_accepts S s []"

lemma scram_loop_accepts:
  "scram_loop K S session msg c = (Ok (), c') \<Longrightarrow> \<exists>ms. scram_accepts S session ms"
proof (induction c arbitrary: session msg rule: measure_induct_rule [of "\<lambda>c. length (rd (unc c))"])
  case (less c)
  from less.prems obtain serverMsg errMsg c1 where r: "RelaySASLAuthenticate K msg c = (Ok (serverMsg, 0, errMsg), c1)"
    by (subst (asm) scram_loop.simps) (auto split: prod.splits go.splits if_splits)
  with less.prems obtain fin nxt session' where ch: "Challenge S session serverMsg = Inr (fin, nxt, session')"
    by (subst (asm) scram_loop.simps) (auto split: sum.splits)
  show ?case
  proof (cases fin)
    case True
    with ch show ?thesis by (auto intro: accepts_last)
  next
    case False
    with less.prems r ch have "scram_loop K S session' nxt c1 = (Ok (), c')"
      by (subst (asm) scram_loop.simps) simp
    with less.IH [OF RelaySASLAuthenticate_consumes [OF r]] obtain ms where "scram_accepts S session' ms"
      by blast
    with ch False show ?thesis by (auto intro: accepts_more)
  qed
qed

lemma DialSCRAM_Ok:
  assumes "DialSCRAM K S nd addr mech user pass = (Ok c, l)"
  shows "\<exists>nc session msg ms. nd addr = Inr nc \<and>
    Authenticate S mech user pass (remote_addr nc) = Inr (session, msg) \<and> scram_accepts S session ms"
proof -
  from assms obtain c1 l1 c2 where d: "dialAndNegotiate K nd addr mech = (Ok c1, l1)"
    and a: "scramAuthenticate K S mech user pass c1 = (Ok (), c2)"
    by (auto simp: DialSCRAM_def negotiated_Ok dial_step_Ok simp del: on_unc_Ok split: if_splits)
  from a obtain session msg where "Authenticate S mech user pass (remote_addr (unc c1)) = Inr (session, msg)"
    and "scram_loop K S session msg c1 = (Ok (), c2)"
    by (auto simp: scramAuthenticate_def op_bind_def split: if_splits sum.splits)
  with dialAndNegotiate_Ok [OF d] scram_loop_accepts show ?thesis by fastforce
qed

subsection \<open>Against a broker that answers\<close>

lemma directRoundTrip_answers:
  assumes "wr_left (unc c) = None" and "response_frame (corrIDGen c + 1) key ver body f" and "frame_ok f"
    and "rd (unc c) = frame_bytes f @ rest"
  shows "directRoundTrip api req key ver c =
    (Ok body, c\<lparr>corrIDGen := corrIDGen c + 1, unc := (unc c)\<lparr>
       wr := wr (unc c) @ AppendRequest api ''kroxy'' ver req (corrIDGen c + 1), rd := rest\<rparr>\<rparr>)"
proof -
  let ?c = "c\<lparr>corrIDGen := corrIDGen c + 1, unc := (unc c)\<lparr>
       wr := wr (unc c) @ AppendRequest api ''kroxy'' ver req (corrIDGen c + 1)\<rparr>\<rparr>"
  have "read_response ''directRoundTrip'' (corrIDGen c + 1) key ver ?c = (Ok body, ?c\<lparr>unc := (unc ?c)\<lparr>rd := rest\<rparr>\<rparr>)"
    using assms(2-4) by (intro read_response_frame) simp_all
  then show ?thesis
    using assms(1) by (simp add: directRoundTrip_def op_bind_def op_wrap_def on_unc_def Let_def)
qed

text \<open>A connection to a broker that accepts everything written and will send the given frames.\<close>

definition answering :: "stream \<Rightarrow> byte list list \<Rightarrow> bool" where
  "answering s fs \<longleftrightarrow> wr_left s = None \<and> deadline_err s = None \<and> rd s = concat (map frame_bytes fs) \<and> list_all frame_ok fs"

definition reply :: "int32 \<Rightarrow> byte list \<Rightarrow> byte list" where
  "reply cid body = PutUint32 cid @ body"

lemma reply_response_frame: "ResponseHeaderVersion key ver = 0 \<Longrightarrow> response_frame cid key ver body (reply cid body)"
  by (simp add: response_frame_def reply_def)

lemma directRoundTrip_reply:
  assumes "answering (unc c) (reply cid body # fs)" and "cid = corrIDGen c + 1" and "ResponseHeaderVersion key ver = 0"
  shows "\<exists>c'. directRoundTrip api req key ver c = (Ok body, c') \<and> answering (unc c') fs \<and> corrIDGen c' = cid"
  using assms(1) directRoundTrip_answers [OF _ reply_response_frame [OF assms(3)], of c body "concat (map frame_bytes fs)" api req]
  unfolding assms(2) by (auto simp: answering_def)

lemma deadline_answering:
  "answering (unc c) fs \<Longrightarrow> \<exists>c'. on_unc (op_error (SetDeadline d)) c = (Ok (), c') \<and> answering (unc c') fs \<and> corrIDGen c' = corrIDGen c"
  by (auto simp: SetDeadline_def answering_def)

lemma dialAndNegotiate_answered:
  assumes "nd addr = Inr nc" and "answering nc (reply 1 b1 # reply 2 b2 # fs)"
    and "ReadResp (k_SASLHandshake K) 1 b2 = Inr hs" and "HandshakeErrorCode hs = 0"
  shows "\<exists>c. dialAndNegotiate K nd addr mech = (Ok c, []) \<and> answering (unc c) fs \<and> corrIDGen c = 2"
proof -
  let ?c = "\<lparr>unc = nc, corrIDGen = 0, reqTO = DefaultRequestTimeout\<rparr>"
  have "answering (unc ?c) (reply 1 b1 # reply 2 b2 # fs)"
    using assms(2) by simp
  from deadline_answering [OF this, of "Some dialTimeout"]
  obtain c0 where c0: "on_unc (op_error (SetDeadline (Some dialTimeout))) ?c = (Ok (), c0)"
    and "answering (unc c0) (reply 1 b1 # reply 2 b2 # fs)" "1 = corrIDGen c0 + 1"
    by auto
  from directRoundTrip_reply [OF this(2,3) handshake_header_versions(1), of "k_ApiVersions K" "()"]
  obtain c1 where c1: "directRoundTrip (k_ApiVersions K) () ApiVersionsKey 0 c0 = (Ok b1, c1)"
    and "answering (unc c1) (reply 2 b2 # fs)" "2 = corrIDGen c1 + 1"
    by auto
  from directRoundTrip_reply [OF this(2,3) handshake_header_versions(2), of "k_SASLHandshake K" "\<lparr>HandshakeMechanism = mech\<rparr>"]
  obtain c2 where c2: "directRoundTrip (k_SASLHandshake K) \<lparr>HandshakeMechanism = mech\<rparr> SaslHandshakeKey 1 c1 = (Ok b2, c2)"
    and a2: "answering (unc c2) fs" "corrIDGen c2 = 2"
    by auto
  have h: "saslHandshake K mech c1 = (Ok (), c2)"
    using c2 assms(3,4) by (simp add: saslHandshake_def)
  have v: "apiVersions K c0 = (Ok (), c1)"
    using c1 by (simp add: apiVersions_def)
  have "dialAndNegotiate K nd addr mech = (Ok c2, [])"
    using assms(1) by (simp add: dialAndNegotiate_def dial_step_def c0 v h dial_done_def del: on_unc_Ok)
  with a2 show ?thesis by blast
qed

lemma Dial_answered:
  assumes "nd addr = Inr nc" and "answering nc [reply 1 b1, reply 2 b2, reply 3 b3]"
    and "ReadResp (k_SASLHandshake K) 1 b2 = Inr hs" and "HandshakeErrorCode hs = 0"
    and "ReadResp (k_SASLAuthenticate K) 1 b3 = Inr au" and "AuthErrorCode au = 0"
  shows "\<exists>c. Dial K nd addr user pass = (Ok c, []) \<and> rd (unc c) = []"
proof -
  from dialAndNegotiate_answered [where nd = nd and addr = addr and mech = MechanismPlain, OF assms(1-4)]
  obtain c2 where n: "dialAndNegotiate K nd addr MechanismPlain = (Ok c2, [])"
    and "answering (unc c2) [reply 3 b3]" "3 = corrIDGen c2 + 1"
    by auto
  from directRoundTrip_reply [OF this(2,3) handshake_header_versions(3), of "k_SASLAuthenticate K" "\<lparr>SASLAuthBytes = [0] @ bytes_of user @ [0] @ bytes_of pass\<rparr>"]
  obtain c3 where c3: "directRoundTrip (k_SASLAuthenticate K) \<lparr>SASLAuthBytes = [0] @ bytes_of user @ [0] @ bytes_of pass\<rparr> SaslAuthenticateKey 1 c2 = (Ok b3, c3)"
    and a3: "answering (unc c3) []"
    by auto
  from deadline_answering [OF a3, of None] obtain c4 where
    c4: "on_unc (op_error (SetDeadline None)) c3 = (Ok (), c4)" "answering (unc c4) []"
    by blast
  have "plainAuthenticate K user pass c2 = (Ok (), c3)"
    using c3 assms(5,6) by (simp add: plainAuthenticate_def)
  then show ?thesis
    using n c4 by (simp add: Dial_def negotiated_def dial_step_def dial_done_def answering_def del: on_unc_Ok)
qed

lemma RoundTrip_Ok:
  assumes "RoundTrip req cid hv rv c = (Ok resp, c')"
  shows "8 \<le> length req" and "corrIDGen c' = corrIDGen c + 1"
    and "wr (unc c') = wr (unc c) @ frame_bytes (take 4 req @ PutUint32 (corrIDGen c + 1) @ drop 8 req)"
    and "\<exists>f. rd (unc c) = frame_bytes f @ rd (unc c') \<and> frame_ok f \<and> 4 \<le> length f \<and> take 4 f = PutUint32 (corrIDGen c + 1) \<and>
      resp = PutUint32 cid @ drop 4 f"
proof -
  let ?c1 = "c\<lparr>corrIDGen := corrIDGen c + 1\<rparr>"
  let ?out = "take 4 req @ PutUint32 (corrIDGen c + 1) @ drop 8 req"
  from assms obtain c2 w f t where len: "8 \<le> length req" and d: "applyRequestDeadline ?c1 = (Ok (), c2)"
    and w: "write_frame ?out (unc c2) = (Ok (), w)"
    and r: "read_frame w = (Ok f, t)" and four: "\<not> length f < 4" and got: "BigEndian_Uint32 (take 4 f) = corrIDGen c + 1"
    and resp: "resp = PutUint32 cid @ drop 4 f" and c': "c' = c2\<lparr>unc := t\<rparr>"
    by (auto simp: RoundTrip_def op_bind_Ok Let_def split: if_splits)
  show "8 \<le> length req" by (rule len)
  from d have c2: "corrIDGen c2 = corrIDGen c + 1" "wr (unc c2) = wr (unc c)" "rd (unc c2) = rd (unc c)"
    by (auto simp: applyRequestDeadline_Ok)
  from write_frame_Ok [OF w] have w': "wr w = wr (unc c2) @ frame_bytes ?out" "rd w = rd (unc c2)" by auto
  from r obtain rest where t: "frame_ok f" "rd w = frame_bytes f @ rest" "t = w\<lparr>rd := rest\<rparr>"
    by (auto simp: read_frame_Ok)
  show "corrIDGen c' = corrIDGen c + 1" using c' c2 by simp
  show "wr (unc c') = wr (unc c) @ frame_bytes ?out" using c' c2 w' t by simp
  have "take 4 f = PutUint32 (corrIDGen c + 1)"
    using four got PutUint32_Uint32_list [of "take 4 f"] by simp
  then show "\<exists>f. rd (unc c) = frame_bytes f @ rd (unc c') \<and> frame_ok f \<and> 4 \<le> length f \<and> take 4 f = PutUint32 (corrIDGen c + 1) \<and>
      resp = PutUint32 cid @ drop 4 f"
    using c' c2 w' t resp four by (intro exI [of _ f]) simp
qed

lemma RoundTrip_answers:
  assumes "8 \<le> length req" and "wr_left (unc c) = None" and "deadline_err (unc c) = None"
    and "frame_ok (reply (corrIDGen c + 1) body)" and "rd (unc c) = frame_bytes (reply (corrIDGen c + 1) body) @ rest"
  shows "\<exists>c'. RoundTrip req cid hv rv c = (Ok (reply cid body), c') \<and> rd (unc c') = rest"
proof -
  let ?d = "if reqTO c \<le> 0 then None else Some (reqTO c)"
  let ?c2 = "c\<lparr>corrIDGen := corrIDGen c + 1, unc := (unc c)\<lparr>rd_deadline := ?d, wr_deadline := ?d\<rparr>\<rparr>"
  let ?out = "take 4 req @ PutUint32 (corrIDGen c + 1) @ drop 8 req"
  let ?w = "(unc ?c2)\<lparr>wr := wr (unc c) @ frame_bytes ?out\<rparr>"
  have d: "applyRequestDeadline (c\<lparr>corrIDGen := corrIDGen c + 1\<rparr>) = (Ok (), ?c2)"
    using assms(3) by (simp add: applyRequestDeadline_Ok)
  have w: "on_unc (write_frame ?out) ?c2 = (Ok (), ?c2\<lparr>unc := ?w\<rparr>)"
    using assms(2) by simp
  have r: "on_unc read_frame (?c2\<lparr>unc := ?w\<rparr>) = (Ok (reply (corrIDGen c + 1) body), ?c2\<lparr>unc := ?w\<lparr>rd := rest\<rparr>\<rparr>)"
    using assms(4,5) by (simp add: read_frame_Ok)
  have "\<not> length (reply (corrIDGen c + 1) body) < 4" "BigEndian_Uint32 (take 4 (reply (corrIDGen c + 1) body)) = corrIDGen c + 1"
    "drop 4 (reply (corrIDGen c + 1) body) = body"
    by (simp_all add: reply_def)
  then show ?thesis
    using assms(1) d w r by (simp add: RoundTrip_def op_bind_def op_wrap_def Let_def reply_def [of cid] del: on_unc_Ok)
qed

subsection \<open>Properties\<close>

text \<open>A message library whose responses always decode to success, and a broker that answers the three
  requests of a dial.\<close>

definition example_kapi :: "'p \<Rightarrow> ('q, 'p) kapi" where
  "example_kapi p = \<lparr>ReadReq = (\<lambda>_ _. Inl EOF), AppendRequest = (\<lambda>_ _ _ cid. PutUint32 cid),
     ReadResp = (\<lambda>_ _. Inr p), AppendResp = (\<lambda>_ _ dst. dst)\<rparr>"

definition example_kmsg :: kmsg_sasl where
  "example_kmsg = \<lparr>k_ApiVersions = example_kapi \<lparr>ApiKeys = []\<rparr>,
     k_SASLHandshake = example_kapi \<lparr>HandshakeErrorCode = 0, SupportedMechanisms = []\<rparr>,
     k_SASLAuthenticate = example_kapi \<lparr>AuthErrorCode = 0, AuthErrorMessage = None, AuthBytes = []\<rparr>\<rparr>"

definition example_broker :: stream where
  "example_broker = input_stream (concat (map frame_bytes [reply 1 [], reply 2 [], reply 3 []]))"

lemma frame_ok_reply: "length body < 1000 \<Longrightarrow> frame_ok (reply cid body)"
  by (cases body) (auto simp: frame_ok_def reply_def PutUint32_def)

lemma example_broker_answers: "answering example_broker [reply 1 [], reply 2 [], reply 3 []]"
  by (simp add: answering_def example_broker_def input_stream_def frame_ok_reply)

lemma example_Dial: "\<exists>c. Dial example_kmsg (\<lambda>_. Inr example_broker) addr user pass = (Ok c, [])"
  using Dial_answered [OF refl example_broker_answers, of example_kmsg, OF _ _ _ _, of
      "\<lparr>HandshakeErrorCode = 0, SupportedMechanisms = []\<rparr>" "\<lparr>AuthErrorCode = 0, AuthErrorMessage = None, AuthBytes = []\<rparr>" addr user pass]
  by (auto simp: example_kmsg_def example_kapi_def)



text \<open>C19: no dial of any kind, against any broker and any behaviour of the message and SCRAM
  libraries, panics or leaks a socket: when it fails, the socket it opened is closed, and when it
  succeeds no socket is given up.\<close>

theorem dials_clean:
  "dial_clean (Dial K net_dial addr user pass) \<and> dial_clean (DialForSCRAM K net_dial addr mech) \<and>
   dial_clean (DialSCRAM K S net_dial addr mech user pass)"
  by (simp add: Dial_clean DialForSCRAM_clean DialSCRAM_clean)

text \<open>C13: RoundTrip is transparent but for the correlation id. On success it has sent the client's
  frame with only bytes 4 to 7 replaced, by a correlation id one above the last; the broker's frame it
  returns carried that very id, and is returned with the client's id in its place and otherwise byte
  for byte. A response to another request is never returned.\<close>

theorem RoundTrip_transparent:
  assumes "RoundTrip reqFrame clientCID hv rv c = (Ok resp, c')"
  shows "wr (unc c') = wr (unc c) @ frame_bytes (take 4 reqFrame @ PutUint32 (corrIDGen c + 1) @ drop 8 reqFrame) \<and>
    corrIDGen c' = corrIDGen c + 1 \<and>
    (\<exists>f. rd (unc c) = frame_bytes f @ rd (unc c') \<and> BigEndian_Uint32 (take 4 f) = corrIDGen c + 1 \<and>
       BigEndian_Uint32 (take 4 resp) = clientCID \<and> drop 4 resp = drop 4 f \<and> length resp = length f)"
  using RoundTrip_Ok [OF assms] by auto

theorem RoundTrip_transparent_witness:
  "\<exists>c' f. RoundTrip [0, 3, 0, 1, 0, 0, 0, 9, 5] 9 1 0
       \<lparr>unc = input_stream (frame_bytes (reply 1 [42])), corrIDGen = 0, reqTO = DefaultRequestTimeout\<rparr> = (Ok (reply 9 [42]), c') \<and>
     wr (unc c') = frame_bytes ([0, 3, 0, 1] @ PutUint32 1 @ [5]) \<and> rd (input_stream (frame_bytes (reply 1 [42]))) = frame_bytes f @ rd (unc c')"
proof -
  let ?c = "\<lparr>unc = input_stream (frame_bytes (reply 1 [42])), corrIDGen = 0, reqTO = DefaultRequestTimeout\<rparr>"
  obtain c' where c': "RoundTrip [0, 3, 0, 1, 0, 0, 0, 9, 5] 9 1 0 ?c = (Ok (reply 9 [42]), c')"
    using RoundTrip_answers [of "[0, 3, 0, 1, 0, 0, 0, 9, 5]" ?c "[42]" "[]" 9 1 0]
    by (auto simp: input_stream_def frame_ok_reply)
  show ?thesis
    using RoundTrip_transparent [OF c'] c' by (auto simp: input_stream_def)
qed

text \<open>C34: a response to a flexible request that holds nothing but the correlation id makes
  RoundTripRequest panic: the length is checked against four bytes and five are sliced off. Any broker
  can so crash the process, whatever the request was.\<close>

theorem RoundTripRequest_short_response:
  assumes "ResponseHeaderVersion key ver = 1"
    and "wr_left (unc c) = None" and "deadline_err (unc c) = None"
    and "rd (unc c) = frame_bytes (PutUint32 (corrIDGen c + 1)) @ rest"
  shows "fst (RoundTripRequest api key ver req clientID c) = Panic"
proof -
  let ?d = "if reqTO c \<le> 0 then None else Some (reqTO c)"
  let ?f = "PutUint32 (corrIDGen c + 1)"
  let ?c2 = "c\<lparr>corrIDGen := corrIDGen c + 1, unc := (unc c)\<lparr>rd_deadline := ?d, wr_deadline := ?d\<rparr>\<rparr>"
  let ?b = "AppendRequest api clientID ver req (corrIDGen c + 1)"
  let ?w = "(unc ?c2)\<lparr>wr := wr (unc c) @ ?b\<rparr>"
  have d: "applyRequestDeadline (c\<lparr>corrIDGen := corrIDGen c + 1\<rparr>) = (Ok (), ?c2)"
    using assms(3) by (simp add: applyRequestDeadline_Ok)
  have w: "on_unc (write_bytes ?b) ?c2 = (Ok (), ?c2\<lparr>unc := ?w\<rparr>)"
    using assms(2) by simp
  have "frame_ok ?f" by (simp add: frame_ok_def PutUint32_def)
  then have r: "on_unc read_frame (?c2\<lparr>unc := ?w\<rparr>) = (Ok ?f, ?c2\<lparr>unc := ?w\<lparr>rd := rest\<rparr>\<rparr>)"
    using assms(4) by (simp add: read_frame_Ok)
  have "BigEndian_Uint32 (take 4 ?f) = corrIDGen c + 1" "slice_from ?f 5 = Panic"
    by (simp_all add: slice_from_def)
  then show ?thesis
    using d w r assms(1)
    by (simp add: RoundTripRequest_def read_response_def op_bind_def op_wrap_def Let_def del: on_unc_Ok)
qed

theorem RoundTripRequest_short_response_witness:
  "fst (RoundTripRequest (example_kapi ()) MetadataKey 9 () ''cli''
     \<lparr>unc = input_stream (frame_bytes (PutUint32 8)), corrIDGen = 7, reqTO = 0\<rparr>) = Panic"
  by (rule RoundTripRequest_short_response [where rest = "[]"])
    (simp_all add: ResponseHeaderVersion_def isFlexibleRequest_def key_defs input_stream_def)


definition example_scram :: "nat scram_api" where
  "example_scram = \<lparr>Authenticate = (\<lambda>_ _ _ _. Inr (0, [1])), Challenge = (\<lambda>n m. Inr (True, [], n))\<rparr>"

lemma scram_loop_answered:
  assumes "answering (unc c) [reply (corrIDGen c + 1) b]" and "K = example_kmsg"
  shows "\<exists>c'. scram_loop K example_scram n msg c = (Ok (), c') \<and> answering (unc c') []"
proof -
  let ?d = "if reqTO c \<le> 0 then None else Some (reqTO c)"
  let ?c1 = "c\<lparr>unc := (unc c)\<lparr>rd_deadline := ?d, wr_deadline := ?d\<rparr>\<rparr>"
  have d: "applyRequestDeadline c = (Ok (), ?c1)"
    using assms(1) by (simp add: applyRequestDeadline_Ok answering_def)
  have "answering (unc ?c1) [reply (corrIDGen c + 1) b]" and "corrIDGen c + 1 = corrIDGen ?c1 + 1"
    using assms(1) by (simp_all add: answering_def)
  from directRoundTrip_reply [OF this handshake_header_versions(3), of "k_SASLAuthenticate K" "\<lparr>SASLAuthBytes = msg\<rparr>"]
  obtain c2 where c2: "directRoundTrip (k_SASLAuthenticate K) \<lparr>SASLAuthBytes = msg\<rparr> SaslAuthenticateKey 1 ?c1 = (Ok b, c2)"
    and a: "answering (unc c2) []"
    by auto
  have "RelaySASLAuthenticate K msg c = (Ok ([], 0, []), c2)"
    using d c2 assms(2) by (simp add: RelaySASLAuthenticate_def example_kmsg_def example_kapi_def)
  then show ?thesis
    using a by (subst scram_loop.simps) (simp add: example_scram_def)
qed

lemma example_DialSCRAM:
  "\<exists>c. DialSCRAM example_kmsg example_scram (\<lambda>_. Inr example_broker) ''k:9092'' ''SCRAM-SHA-256'' ''acme'' ''pw'' = (Ok c, [])"
proof -
  have hs: "ReadResp (k_SASLHandshake example_kmsg) 1 [] = Inr \<lparr>HandshakeErrorCode = 0, SupportedMechanisms = []\<rparr>"
    by (simp add: example_kmsg_def example_kapi_def)
  from dialAndNegotiate_answered [where nd = "\<lambda>_. Inr example_broker" and addr = "''k:9092''" and mech = "''SCRAM-SHA-256''",
      OF refl example_broker_answers hs]
  obtain c2 where n: "dialAndNegotiate example_kmsg (\<lambda>_. Inr example_broker) ''k:9092'' ''SCRAM-SHA-256'' = (Ok c2, [])"
    and a: "answering (unc c2) [reply (corrIDGen c2 + 1) []]"
    by auto
  from scram_loop_answered [OF a refl, of 0 "[1]"] obtain c3 where
    s: "scram_loop example_kmsg example_scram 0 [1] c2 = (Ok (), c3)" and a3: "answering (unc c3) []"
    by blast
  from deadline_answering [OF a3, of None] obtain c4 where
    c4: "on_unc (op_error (SetDeadline None)) c3 = (Ok (), c4)"
    by blast
  have "scramAuthenticate example_kmsg example_scram ''SCRAM-SHA-256'' ''acme'' ''pw'' c2 = (Ok (), c3)"
    using s by (simp add: scramAuthenticate_def op_bind_def example_scram_def MechanismSCRAMSHA256_def)
  then show ?thesis
    using n c4 by (simp add: DialSCRAM_def IsSCRAMMechanism_def MechanismSCRAMSHA256_def negotiated_def
        dial_step_def dial_done_def del: on_unc_Ok)
qed


end
