(* ===== verification/Proxy_Conn.thy ===== *)
theory Proxy_Conn
  imports Kroxy_Config Observability Upstream_Conn
begin

text \<open>
  \<open>proxy/conn.go\<close> and the configuration of \<open>proxy/listener.go\<close>: the state of a client connection,
  the SASL state machine, the lazy dial of the upstream and the pass-through of requests.

  The methods of \<open>conn\<close> are operations on the record \<open>conn\<close>. What is outside the connection is the
  record \<open>env\<close> of parameters: the message library, the SCRAM client, and what the n-th dial of the
  connection to an address returns. The resolver is shared with other connections and with the admin
  service, so each handler that looks a tenant up is given its state at that moment. Two fields are not
  in the code and are only ever extended: \<open>dialed\<close> lists the addresses dialled and \<open>lost\<close> the sockets
  that failed dials gave up. Log records are not modelled.
\<close>

subsection \<open>State\<close>

typedecl tls_Certificate

record ServerConfig =
  srv_Listen :: string
  srv_Advertised :: string
  srv_TLS :: "tls_Certificate tls_Config option"
  UpstreamSASLMechanism :: string

definition errSaslAuthFailed :: int16 where "errSaslAuthFailed = 58"
definition errUnsupportedSaslMech :: int16 where "errUnsupportedSaslMech = 33"
definition errIllegalSaslState :: int16 where "errIllegalSaslState = 34"

datatype connState = stateAwaitHandshake | stateAwaitAuth | stateRelaySaslInFlight | stateAuthenticated

record conn =
  nc :: stream
  cfg :: ServerConfig
  metrics :: "Metrics option"
  state :: connState
  clientMechanism :: string
  tenant :: Tenant
  password :: string
  upstream :: "UConn option"
  scramRoundsCompleted :: int
  dialed :: "string list"
  lost :: "stream list"

record 's env =
  kmsg_of :: kmsg_sasl
  scram_of :: "'s scram_api"
  net_dial :: "nat \<Rightarrow> string \<Rightarrow> go_error + stream"

definition zero_tenant :: Tenant where
  "zero_tenant = \<lparr>ID = [], TopicPrefix = [], Upstream = []\<rparr>"

definition newConn :: "stream \<Rightarrow> ServerConfig \<Rightarrow> Metrics option \<Rightarrow> conn" where
  "newConn s c m = \<lparr>nc = s, cfg = c, metrics = m, state = stateAwaitHandshake, clientMechanism = [],
     tenant = zero_tenant, password = [], upstream = None, scramRoundsCompleted = 0, dialed = [], lost = []\<rparr>"

definition conn_close :: "conn \<Rightarrow> conn" where
  "conn_close c = c\<lparr>nc := net_Close (nc c), upstream := map_option UConn_Close (upstream c)\<rparr>"

text \<open>Operations on the client socket, on the upstream connection (a nil one panics), and on the
  metrics, which may be nil.\<close>

definition on_nc :: "(stream, 'a) op \<Rightarrow> (conn, 'a) op" where
  "on_nc m c = (case m (nc c) of (r, s) \<Rightarrow> (r, c\<lparr>nc := s\<rparr>))"

definition on_upstream :: "(UConn, 'a) op \<Rightarrow> (conn, 'a) op" where
  "on_upstream m c =
     (case upstream c of None \<Rightarrow> (Panic, c) | Some u \<Rightarrow> (case m u of (r, u) \<Rightarrow> (r, c\<lparr>upstream := Some u\<rparr>)))"

definition record_metric :: "metric \<Rightarrow> (conn, unit) op" where
  "record_metric e = op_modify (\<lambda>c. c\<lparr>metrics := map_option (\<lambda>m. m @ [e]) (metrics c)\<rparr>)"

definition writeResponse :: "('q, 'p) kapi \<Rightarrow> RequestHeader \<Rightarrow> 'p \<Rightarrow> (conn, unit) op" where
  "writeResponse api hdr resp =
     op_wrap ''writeResponse'' (on_nc (write_frame
       (EncodeResponse (AppendResp api (APIVersion hdr)) resp (CorrelationID hdr) (APIKey hdr) (APIVersion hdr))))"

subsection \<open>The upstream connection\<close>

definition shouldTranslatePlainToSCRAM :: "conn \<Rightarrow> bool" where
  "shouldTranslatePlainToSCRAM c \<longleftrightarrow>
     clientMechanism c = MechanismPlain \<and> IsSCRAMMechanism (UpstreamSASLMechanism (cfg c))"

definition note_dial :: "string \<Rightarrow> dialed \<Rightarrow> conn \<Rightarrow> conn" where
  "note_dial addr d c = c\<lparr>dialed := dialed c @ [addr], lost := lost c @ snd d\<rparr>"

definition dial_upstream :: "'s env \<Rightarrow> conn \<Rightarrow> dialed" where
  "dial_upstream E c =
     (let addr = Upstream (tenant c); nd = net_dial E (length (dialed c))
      in if shouldTranslatePlainToSCRAM c
         then DialSCRAM (kmsg_of E) (scram_of E) nd addr (UpstreamSASLMechanism (cfg c)) (ID (tenant c)) (password c)
         else Dial (kmsg_of E) nd addr (ID (tenant c)) (password c))"

definition ensureUpstream :: "'s env \<Rightarrow> (conn, unit) op" where
  "ensureUpstream E c =
     (if upstream c \<noteq> None then (Ok (), c)
      else let up = dial_upstream E c;
               c = note_dial (Upstream (tenant c)) up c
           in case fst up of
                Panic \<Rightarrow> (Panic, c)
              | Err err \<Rightarrow>
                  op_bind (record_metric (UpstreamErrorTotal_Inc ''dial'')) (\<lambda>_. op_fail (Wrap err ''ensureUpstream'')) c
              | Ok u \<Rightarrow> (Ok (), c\<lparr>upstream := Some u\<rparr>))"

definition forwardPassthrough :: "'s env \<Rightarrow> RequestHeader \<Rightarrow> byte list \<Rightarrow> (conn, unit) op" where
  "forwardPassthrough E hdr frame =
     op_bind (op_wrap ''forwardPassthrough'' (ensureUpstream E)) (\<lambda>_.
     op_bind (op_wrap ''forwardPassthrough'' (on_upstream (RoundTrip frame (CorrelationID hdr) (HeaderVersion hdr)
       (ResponseHeaderVersion (APIKey hdr) (APIVersion hdr))))) (\<lambda>respFrame.
     on_nc (write_frame respFrame)))"

subsection \<open>ApiVersions and the SASL state machine\<close>

definition advertised_versions :: "ApiVersionsKeyRange list" where
  "advertised_versions = map (\<lambda>(k, v). \<lparr>ApiKey = k, MinVersion = 0, MaxVersion = v\<rparr>)
     [(ApiVersionsKey, 3), (SaslHandshakeKey, 1), (SaslAuthenticateKey, 2),
      (ProduceKey, 9), (FetchKey, 11), (ListOffsetsKey, 7), (MetadataKey, 9), (OffsetCommitKey, 9),
      (OffsetFetchKey, 9), (FindCoordinatorKey, 4), (JoinGroupKey, 9), (HeartbeatKey, 4), (LeaveGroupKey, 5),
      (SyncGroupKey, 5), (DescribeGroupsKey, 5), (ListGroupsKey, 4), (CreateTopicsKey, 6), (DeleteTopicsKey, 5),
      (InitProducerIDKey, 4), (AddPartitionsToTxnKey, 4), (AddOffsetsToTxnKey, 3), (EndTxnKey, 3),
      (TxnOffsetCommitKey, 3), (DescribeConfigsKey, 4), (DeleteGroupsKey, 2), (OffsetDeleteKey, 0)]"

definition handleApiVersions :: "'s env \<Rightarrow> RequestHeader \<Rightarrow> (conn, unit) op" where
  "handleApiVersions E hdr = writeResponse (k_ApiVersions (kmsg_of E)) hdr \<lparr>ApiKeys = advertised_versions\<rparr>"

definition observeHandshake :: "string \<Rightarrow> string \<Rightarrow> (conn, unit) op" where
  "observeHandshake mech result =
     (let mech = (if mech \<in> {MechanismPlain, MechanismSCRAMSHA256, MechanismSCRAMSHA512} then mech else ''unknown'')
      in record_metric (SaslHandshakeTotal_Inc mech result))"

definition handleSaslHandshake :: "'s env \<Rightarrow> RequestHeader \<Rightarrow> byte list \<Rightarrow> (conn, unit) op" where
  "handleSaslHandshake E hdr body =
     (let api = k_SASLHandshake (kmsg_of E);
          respond = (\<lambda>code. writeResponse api hdr \<lparr>HandshakeErrorCode = code,
            SupportedMechanisms = [MechanismPlain, MechanismSCRAMSHA256, MechanismSCRAMSHA512]\<rparr>)
      in op_bind (op_lift (go_wrap ''handleSaslHandshake'' (ReadReq api (APIVersion hdr) body))) (\<lambda>req.
         op_bind (op_get state) (\<lambda>st.
         if st \<noteq> stateAwaitHandshake
         then op_bind (observeHandshake (HandshakeMechanism req) ''illegal_state'') (\<lambda>_. respond errIllegalSaslState)
         else if HandshakeMechanism req \<noteq> MechanismPlain \<and> \<not> IsSCRAMMechanism (HandshakeMechanism req)
         then op_bind (observeHandshake (HandshakeMechanism req) ''unsupported'') (\<lambda>_. respond errUnsupportedSaslMech)
         else op_bind (op_modify (\<lambda>c. c\<lparr>clientMechanism := HandshakeMechanism req, state := stateAwaitAuth\<rparr>)) (\<lambda>_.
              respond 0))))"

text \<open>A refusal: count its result, then answer with an error code and message.\<close>

definition auth_response :: "'s env \<Rightarrow> RequestHeader \<Rightarrow> int16 \<Rightarrow> string option \<Rightarrow> byte list \<Rightarrow> (conn, unit) op" where
  "auth_response E hdr code msg payload =
     writeResponse (k_SASLAuthenticate (kmsg_of E)) hdr \<lparr>AuthErrorCode = code, AuthErrorMessage = msg, AuthBytes = payload\<rparr>"

definition refuse :: "'s env \<Rightarrow> RequestHeader \<Rightarrow> string \<Rightarrow> string \<Rightarrow> int16 \<Rightarrow> string \<Rightarrow> (conn, unit) op" where
  "refuse E hdr mech result code msg =
     op_bind (observeHandshake mech result) (\<lambda>_. auth_response E hdr code (Some msg) [])"

definition handleSaslAuthenticatePlain :: "'s env \<Rightarrow> memoryResolver \<Rightarrow> RequestHeader \<Rightarrow> byte list \<Rightarrow> (conn, unit) op" where
  "handleSaslAuthenticatePlain E R hdr body =
     op_bind (op_lift (go_wrap ''handleSaslAuthenticatePlain''
       (ReadReq (k_SASLAuthenticate (kmsg_of E)) (APIVersion hdr) body))) (\<lambda>req.
     op_bind (op_get state) (\<lambda>st.
     if st \<noteq> stateAwaitAuth
     then refuse E hdr MechanismPlain ''illegal_state'' errIllegalSaslState ''SASL handshake required''
     else case ParsePlain (SASLAuthBytes req) of
            Inl err \<Rightarrow> refuse E hdr MechanismPlain ''malformed'' errSaslAuthFailed ''malformed PLAIN payload''
          | Inr creds \<Rightarrow>
              (case memoryResolver_Get R (Username creds) of
                 Inl err \<Rightarrow>
                   op_bind (record_metric (ResolverCallsTotal_Inc ''unauthorized'')) (\<lambda>_.
                   refuse E hdr MechanismPlain ''unauthorized'' errSaslAuthFailed ''authentication failed'')
               | Inr t \<Rightarrow>
                   op_bind (record_metric (ResolverCallsTotal_Inc ''ok'')) (\<lambda>_.
                   op_bind (op_modify (\<lambda>c. c\<lparr>tenant := t, password := Password creds, state := stateAuthenticated\<rparr>)) (\<lambda>_.
                   op_bind (observeHandshake MechanismPlain ''ok'') (\<lambda>_.
                   auth_response E hdr 0 None []))))))"

text \<open>The end of the SCRAM handler, once an upstream is in place: relay one message.\<close>

definition scram_failed :: "go_error \<Rightarrow> (conn, unit) op" where
  "scram_failed rErr =
     op_bind (record_metric (UpstreamErrorTotal_Inc ''scram_relay'')) (\<lambda>_.
     op_bind (op_get clientMechanism) (\<lambda>mech.
     op_bind (observeHandshake mech ''upstream_error'') (\<lambda>_.
     op_fail (Wrap rErr ''handleSaslAuthenticateSCRAM''))))"

definition scram_answer :: "'s env \<Rightarrow> RequestHeader \<Rightarrow> byte list \<Rightarrow> int16 \<Rightarrow> string \<Rightarrow> (conn, unit) op" where
  "scram_answer E hdr respBytes errCode errMsg =
     (let respond = auth_response E hdr errCode (if errMsg \<noteq> [] then Some errMsg else None) respBytes
      in op_bind (op_get clientMechanism) (\<lambda>mech.
         if errCode \<noteq> 0
         then op_bind (observeHandshake mech ''unauthorized'') (\<lambda>_. respond)
         else op_bind (op_modify (\<lambda>c. c\<lparr>scramRoundsCompleted := scramRoundsCompleted c + 1\<rparr>)) (\<lambda>_.
              op_bind (op_get scramRoundsCompleted) (\<lambda>rounds.
              if rounds \<ge> 2
              then op_bind (op_modify (\<lambda>c. c\<lparr>state := stateAuthenticated\<rparr>)) (\<lambda>_.
                   op_bind (observeHandshake mech ''ok'') (\<lambda>_. respond))
              else respond))))"

definition scram_relay :: "'s env \<Rightarrow> RequestHeader \<Rightarrow> byte list \<Rightarrow> (conn, unit) op" where
  "scram_relay E hdr payload c =
     (case on_upstream (RelaySASLAuthenticate (kmsg_of E) payload) c of
        (Panic, c) \<Rightarrow> (Panic, c)
      | (Err rErr, c) \<Rightarrow> scram_failed rErr c
      | (Ok (respBytes, errCode, errMsg), c) \<Rightarrow> scram_answer E hdr respBytes errCode errMsg c)"

definition dial_scram :: "'s env \<Rightarrow> string \<Rightarrow> Tenant \<Rightarrow> (conn, dialed) op" where
  "dial_scram E mech t c =
     (let up = DialForSCRAM (kmsg_of E) (net_dial E (length (dialed c))) (Upstream t) mech
      in (Ok up, note_dial (Upstream t) up c))"

definition handleSaslAuthenticateSCRAM :: "'s env \<Rightarrow> memoryResolver \<Rightarrow> RequestHeader \<Rightarrow> byte list \<Rightarrow> (conn, unit) op" where
  "handleSaslAuthenticateSCRAM E R hdr body =
     op_bind (op_lift (go_wrap ''handleSaslAuthenticateSCRAM''
       (ReadReq (k_SASLAuthenticate (kmsg_of E)) (APIVersion hdr) body))) (\<lambda>req.
     op_bind (op_get state) (\<lambda>st.
     op_bind (op_get clientMechanism) (\<lambda>mech.
     if st \<noteq> stateAwaitAuth \<and> st \<noteq> stateRelaySaslInFlight
     then refuse E hdr mech ''illegal_state'' errIllegalSaslState ''SASL handshake required''
     else if st = stateAwaitAuth
     then (case ParseSCRAMClientFirstUsername (SASLAuthBytes req) of
             Inl err \<Rightarrow> refuse E hdr mech ''malformed'' errSaslAuthFailed ''malformed SCRAM client-first-message''
           | Inr username \<Rightarrow>
               (case memoryResolver_Get R username of
                  Inl err \<Rightarrow>
                    op_bind (record_metric (ResolverCallsTotal_Inc ''unauthorized'')) (\<lambda>_.
                    refuse E hdr mech ''unauthorized'' errSaslAuthFailed ''authentication failed'')
                | Inr t \<Rightarrow>
                    op_bind (record_metric (ResolverCallsTotal_Inc ''ok'')) (\<lambda>_.
                    op_bind (op_modify (\<lambda>c. c\<lparr>tenant := t\<rparr>)) (\<lambda>_.
                    op_bind (dial_scram E mech t) (\<lambda>up.
                    case fst up of
                      Panic \<Rightarrow> op_lift Panic
                    | Err dErr \<Rightarrow>
                        op_bind (record_metric (UpstreamErrorTotal_Inc ''scram_dial'')) (\<lambda>_.
                        refuse E hdr mech ''upstream_error'' errSaslAuthFailed ''upstream unavailable'')
                    | Ok u \<Rightarrow>
                        op_bind (op_modify (\<lambda>c. c\<lparr>upstream := Some u, state := stateRelaySaslInFlight\<rparr>)) (\<lambda>_.
                        scram_relay E hdr (SASLAuthBytes req)))))))
     else scram_relay E hdr (SASLAuthBytes req))))"

definition handleSaslAuthenticate :: "'s env \<Rightarrow> memoryResolver \<Rightarrow> RequestHeader \<Rightarrow> byte list \<Rightarrow> (conn, unit) op" where
  "handleSaslAuthenticate E R hdr body c =
     (if IsSCRAMMechanism (clientMechanism c)
      then handleSaslAuthenticateSCRAM E R hdr body c
      else handleSaslAuthenticatePlain E R hdr body c)"

subsection \<open>The phases of a connection\<close>

text \<open>The order in which the source declares them.\<close>

fun phase :: "connState \<Rightarrow> nat" where
  "phase stateAwaitHandshake = 0"
| "phase stateAwaitAuth = 1"
| "phase stateRelaySaslInFlight = 2"
| "phase stateAuthenticated = 3"

instantiation connState :: linorder
begin

definition less_eq_connState :: "connState \<Rightarrow> connState \<Rightarrow> bool" where
  "s \<le> t \<longleftrightarrow> phase s \<le> phase t"

definition less_connState :: "connState \<Rightarrow> connState \<Rightarrow> bool" where
  "s < t \<longleftrightarrow> phase s < phase t"

instance
proof
  fix s t :: connState
  show "s \<le> t \<Longrightarrow> t \<le> s \<Longrightarrow> s = t"
    by (cases s; cases t) (simp_all add: less_eq_connState_def)
qed (auto simp: less_eq_connState_def less_connState_def)

end

subsection \<open>The abstract authentication machine\<close>

text \<open>The part of a connection that authentication is about, and the steps it may take while the
  resolver is \<open>R\<close>.\<close>

record auth =
  a_state :: connState
  a_mech :: string
  a_tenant :: Tenant
  a_password :: string
  a_up :: bool
  a_rounds :: int

definition auth_of :: "conn \<Rightarrow> auth" where
  "auth_of c = \<lparr>a_state = state c, a_mech = clientMechanism c, a_tenant = tenant c, a_password = password c,
     a_up = (upstream c \<noteq> None), a_rounds = scramRoundsCompleted c\<rparr>"

definition auth_init :: auth where
  "auth_init = \<lparr>a_state = stateAwaitHandshake, a_mech = [], a_tenant = zero_tenant, a_password = [], a_up = False, a_rounds = 0\<rparr>"

inductive auth_step :: "memoryResolver \<Rightarrow> auth \<Rightarrow> auth \<Rightarrow> bool" for R where
  handshake: "a_state a = stateAwaitHandshake \<Longrightarrow> m \<in> {MechanismPlain, MechanismSCRAMSHA256, MechanismSCRAMSHA512} \<Longrightarrow>
     auth_step R a (a\<lparr>a_mech := m, a_state := stateAwaitAuth\<rparr>)"
| plain: "a_state a = stateAwaitAuth \<Longrightarrow> \<not> IsSCRAMMechanism (a_mech a) \<Longrightarrow> memoryResolver_Get R u = Inr t \<Longrightarrow>
     auth_step R a (a\<lparr>a_tenant := t, a_password := p, a_state := stateAuthenticated\<rparr>)"
| scram_resolve: "a_state a = stateAwaitAuth \<Longrightarrow> IsSCRAMMechanism (a_mech a) \<Longrightarrow> memoryResolver_Get R u = Inr t \<Longrightarrow>
     auth_step R a (a\<lparr>a_tenant := t\<rparr>)"
| scram_dial: "a_state a = stateAwaitAuth \<Longrightarrow> IsSCRAMMechanism (a_mech a) \<Longrightarrow> memoryResolver_Get R u = Inr t \<Longrightarrow>
     auth_step R a (a\<lparr>a_tenant := t, a_up := True, a_state := stateRelaySaslInFlight\<rparr>)"
| scram_round: "a_state a = stateRelaySaslInFlight \<Longrightarrow> a_rounds a + 1 < 2 \<Longrightarrow>
     auth_step R a (a\<lparr>a_rounds := a_rounds a + 1\<rparr>)"
| scram_final: "a_state a = stateRelaySaslInFlight \<Longrightarrow> a_rounds a + 1 \<ge> 2 \<Longrightarrow>
     auth_step R a (a\<lparr>a_rounds := a_rounds a + 1, a_state := stateAuthenticated\<rparr>)"
| connect: "a_state a = stateAuthenticated \<Longrightarrow> auth_step R a (a\<lparr>a_up := True\<rparr>)"

inductive_cases auth_stepE: "auth_step R a b"

definition auth_inv :: "auth \<Rightarrow> bool" where
  "auth_inv a \<longleftrightarrow>
     (a_state a = stateAwaitHandshake \<longrightarrow> a = auth_init) \<and>
     (a_state a \<noteq> stateAwaitHandshake \<longrightarrow> a_mech a \<in> {MechanismPlain, MechanismSCRAMSHA256, MechanismSCRAMSHA512}) \<and>
     (a_state a = stateAwaitAuth \<longrightarrow> \<not> a_up a \<and> a_rounds a = 0 \<and> a_password a = []) \<and>
     (a_state a = stateRelaySaslInFlight \<longrightarrow> IsSCRAMMechanism (a_mech a) \<and> a_up a \<and> a_rounds a \<in> {0, 1} \<and> a_password a = []) \<and>
     (a_state a \<ge> stateRelaySaslInFlight \<longrightarrow> valid_tenant (a_tenant a)) \<and>
     (a_state a = stateAuthenticated \<longrightarrow>
        (if IsSCRAMMechanism (a_mech a) then a_up a \<and> a_rounds a = 2 \<and> a_password a = [] else a_rounds a = 0))"

lemma auth_inv_init: "auth_inv auth_init"
  by (simp add: auth_inv_def auth_init_def less_eq_connState_def)

lemma plain_not_scram [simp]: "\<not> IsSCRAMMechanism MechanismPlain"
  by (simp add: IsSCRAMMechanism_def MechanismPlain_def MechanismSCRAMSHA256_def MechanismSCRAMSHA512_def)

lemma auth_step_inv: "auth_step R a b \<Longrightarrow> resolver_inv R \<Longrightarrow> auth_inv a \<Longrightarrow> auth_inv b"
proof (induction rule: auth_step.induct)
  case (plain a u t p)
  then have "valid_tenant t" using memory.Get_valid by blast
  with plain show ?case by (auto simp: auth_inv_def less_eq_connState_def)
next
  case (scram_dial a u t)
  then have "valid_tenant t" using memory.Get_valid by blast
  with scram_dial show ?case by (auto simp: auth_inv_def less_eq_connState_def)
qed (auto simp: auth_inv_def less_eq_connState_def auth_init_def)

lemma auth_step_phase: "auth_step R a b \<Longrightarrow> a_state a \<le> a_state b"
  by (induction rule: auth_step.induct) (auto simp: less_eq_connState_def)

lemma auth_steps_inv: "(auth_step R)\<^sup>*\<^sup>* a b \<Longrightarrow> resolver_inv R \<Longrightarrow> auth_inv a \<Longrightarrow> auth_inv b"
  by (induction rule: rtranclp_induct) (auto dest: auth_step_inv)

lemma auth_steps_phase: "(auth_step R)\<^sup>*\<^sup>* a b \<Longrightarrow> a_state a \<le> a_state b"
  by (induction rule: rtranclp_induct) (auto dest: auth_step_phase)

subsection \<open>The handlers implement the machine\<close>

lemma record_metric_eq [simp]:
  "record_metric e c = (Ok (), c\<lparr>metrics := map_option (\<lambda>m. m @ [e]) (metrics c)\<rparr>)"
  by (simp add: record_metric_def)

lemma observeHandshake_eq [simp]:
  "observeHandshake m r c = (Ok (), c\<lparr>metrics := map_option (\<lambda>ms. ms @ [SaslHandshakeTotal_Inc
     (if m \<in> {MechanismPlain, MechanismSCRAMSHA256, MechanismSCRAMSHA512} then m else ''unknown'') r]) (metrics c)\<rparr>)"
  by (simp add: observeHandshake_def Let_def)

lemma on_nc_Pair: "on_nc m c = (r, c') \<longleftrightarrow> (\<exists>s. m (nc c) = (r, s) \<and> c' = c\<lparr>nc := s\<rparr>)"
  by (auto simp: on_nc_def split: prod.split)

lemma snd_on_nc [simp]: "snd (on_nc m c) = c\<lparr>nc := snd (m (nc c))\<rparr>"
  by (simp add: on_nc_def split: prod.split)

lemma on_upstream_Pair:
  "on_upstream m c = (r, c') \<longleftrightarrow>
     (case upstream c of None \<Rightarrow> r = Panic \<and> c' = c | Some u \<Rightarrow> (\<exists>u'. m u = (r, u') \<and> c' = c\<lparr>upstream := Some u'\<rparr>))"
  by (auto simp: on_upstream_def split: prod.split option.split)

lemma snd_writeResponse [simp]: "\<exists>s. snd (writeResponse api hdr resp c) = c\<lparr>nc := s\<rparr>"
  by (simp add: writeResponse_def) blast

lemma auth_of_simps [simp]:
  "auth_of (c\<lparr>nc := s\<rparr>) = auth_of c" "auth_of (c\<lparr>metrics := ms\<rparr>) = auth_of c"
  "auth_of (note_dial a d c) = auth_of c"
  "auth_of (snd (writeResponse api hdr resp c)) = auth_of c"
  "auth_of (snd (auth_response E hdr code msg pl c)) = auth_of c"
  "auth_of (snd (refuse E hdr mech res code m c)) = auth_of c"
  by (simp_all add: auth_of_def note_dial_def writeResponse_def auth_response_def refuse_def)

lemma auth_of_sel [simp]:
  "a_state (auth_of c) = state c" "a_mech (auth_of c) = clientMechanism c" "a_tenant (auth_of c) = tenant c"
  "a_password (auth_of c) = password c" "a_up (auth_of c) \<longleftrightarrow> upstream c \<noteq> None" "a_rounds (auth_of c) = scramRoundsCompleted c"
  by (simp_all add: auth_of_def)

lemma auth_of_upd [simp]:
  "auth_of (c\<lparr>state := st\<rparr>) = (auth_of c)\<lparr>a_state := st\<rparr>"
  "auth_of (c\<lparr>clientMechanism := m\<rparr>) = (auth_of c)\<lparr>a_mech := m\<rparr>"
  "auth_of (c\<lparr>tenant := t\<rparr>) = (auth_of c)\<lparr>a_tenant := t\<rparr>"
  "auth_of (c\<lparr>password := p\<rparr>) = (auth_of c)\<lparr>a_password := p\<rparr>"
  "auth_of (c\<lparr>upstream := Some u\<rparr>) = (auth_of c)\<lparr>a_up := True\<rparr>"
  "auth_of (c\<lparr>scramRoundsCompleted := n\<rparr>) = (auth_of c)\<lparr>a_rounds := n\<rparr>"
  by (simp_all add: auth_of_def)

lemma note_dial_sel [simp]:
  "nc (note_dial a d c) = nc c" "upstream (note_dial a d c) = upstream c" "state (note_dial a d c) = state c"
  "clientMechanism (note_dial a d c) = clientMechanism c" "tenant (note_dial a d c) = tenant c"
  "password (note_dial a d c) = password c" "metrics (note_dial a d c) = metrics c" "cfg (note_dial a d c) = cfg c"
  "scramRoundsCompleted (note_dial a d c) = scramRoundsCompleted c"
  by (simp_all add: note_dial_def)

lemma handleApiVersions_auth: "auth_of (snd (handleApiVersions E hdr c)) = auth_of c"
  by (simp add: handleApiVersions_def)

lemma handleSaslHandshake_auth: "(auth_step R)\<^sup>*\<^sup>* (auth_of c) (auth_of (snd (handleSaslHandshake E hdr body c)))"
proof (cases "ReadReq (k_SASLHandshake (kmsg_of E)) (APIVersion hdr) body")
  case (Inl e)
  then show ?thesis by (simp add: handleSaslHandshake_def Let_def)
next
  case (Inr req)
  then show ?thesis
    by (auto simp: handleSaslHandshake_def Let_def IsSCRAMMechanism_def
        intro!: r_into_rtranclp auth_step.handshake)
qed

lemma handleSaslAuthenticatePlain_auth:
  assumes "\<not> IsSCRAMMechanism (clientMechanism c)"
  shows "(auth_step R)\<^sup>*\<^sup>* (auth_of c) (auth_of (snd (handleSaslAuthenticatePlain E R hdr body c)))"
proof (cases "ReadReq (k_SASLAuthenticate (kmsg_of E)) (APIVersion hdr) body")
  case (Inl e)
  then show ?thesis by (simp add: handleSaslAuthenticatePlain_def)
next
  case (Inr req)
  with assms show ?thesis
    by (auto simp: handleSaslAuthenticatePlain_def split: sum.split intro!: r_into_rtranclp auth_step.plain)
qed

lemma scram_relay_auth:
  assumes "state c = stateRelaySaslInFlight"
  shows "(auth_step R)\<^sup>*\<^sup>* (auth_of c) (auth_of (snd (scram_relay E hdr payload c)))"
proof -
  obtain r c1 where r: "on_upstream (RelaySASLAuthenticate (kmsg_of E) payload) c = (r, c1)" by force
  then have c1: "auth_of c1 = auth_of c"
    by (auto simp: on_upstream_Pair auth_of_def split: option.splits)
  then have "state c1 = stateRelaySaslInFlight" "scramRoundsCompleted c1 = scramRoundsCompleted c"
    using assms by (metis auth_of_sel(1), metis auth_of_sel(6))
  with r c1 assms show ?thesis
    using auth_step.scram_round [of "auth_of c" R] auth_step.scram_final [of "auth_of c" R]
    by (cases r) (auto simp: scram_relay_def scram_failed_def scram_answer_def Let_def intro: r_into_rtranclp)
qed

lemma handleSaslAuthenticateSCRAM_auth:
  assumes "IsSCRAMMechanism (clientMechanism c)"
  shows "(auth_step R)\<^sup>*\<^sup>* (auth_of c) (auth_of (snd (handleSaslAuthenticateSCRAM E R hdr body c)))"
proof (cases "ReadReq (k_SASLAuthenticate (kmsg_of E)) (APIVersion hdr) body")
  case (Inl e)
  then show ?thesis by (simp add: handleSaslAuthenticateSCRAM_def)
next
  case (Inr req)
  have dial: "(auth_step R)\<^sup>*\<^sup>* (auth_of c) (auth_of (snd (scram_relay E hdr p d)))"
    if "state c = stateAwaitAuth" "memoryResolver_Get R u = Inr t" "state d = stateRelaySaslInFlight"
      "auth_of d = (auth_of c)\<lparr>a_tenant := t, a_up := True, a_state := stateRelaySaslInFlight\<rparr>" for t u d p
  proof -
    have "auth_step R (auth_of c) (auth_of d)"
      using auth_step.scram_dial [of "auth_of c" R u t] that assms by simp
    then show ?thesis
      using scram_relay_auth [OF that(3), of R E hdr p] by (rule converse_rtranclp_into_rtranclp)
  qed
  show ?thesis
  proof (cases "state c = stateAwaitAuth")
    case False
    with Inr show ?thesis
      by (simp add: handleSaslAuthenticateSCRAM_def scram_relay_auth)
  next
    case st: True
    show ?thesis
    proof (cases "ParseSCRAMClientFirstUsername (SASLAuthBytes req)")
      case (Inl e)
      with Inr st show ?thesis by (simp add: handleSaslAuthenticateSCRAM_def)
    next
      case u: (Inr u)
      show ?thesis
      proof (cases "memoryResolver_Get R u")
        case (Inl e)
        with Inr st u show ?thesis by (simp add: handleSaslAuthenticateSCRAM_def)
      next
        case t: (Inr t)
        have "(auth_step R)\<^sup>*\<^sup>* (auth_of c) ((auth_of c)\<lparr>a_tenant := t\<rparr>)"
          using auth_step.scram_resolve [of "auth_of c" R u t] st t assms by simp
        with Inr st u t show ?thesis
          by (simp add: handleSaslAuthenticateSCRAM_def dial_scram_def Let_def dial split: go.split)
      qed
    qed
  qed
qed

lemma handleSaslAuthenticate_auth:
  "(auth_step R)\<^sup>*\<^sup>* (auth_of c) (auth_of (snd (handleSaslAuthenticate E R hdr body c)))"
  by (simp add: handleSaslAuthenticate_def handleSaslAuthenticatePlain_auth handleSaslAuthenticateSCRAM_auth)

lemma ensureUpstream_auth:
  assumes "state c = stateAuthenticated"
  shows "(auth_step R)\<^sup>*\<^sup>* (auth_of c) (auth_of (snd (ensureUpstream E c)))"
  using assms auth_step.connect [of "auth_of c" R]
  by (auto simp: ensureUpstream_def Let_def split: go.split intro!: r_into_rtranclp)

subsection \<open>Frame conditions of a connection\<close>

text \<open>The calls that observe a request; the loop alone makes them.\<close>

fun request_call :: "metric \<Rightarrow> bool" where
  "request_call (RequestsTotal_Inc _ _) = True"
| "request_call (RequestDuration_Observe _ _ _) = True"
| "request_call _ = False"

text \<open>The metrics a connection may touch, with the label values it may use.\<close>

fun conn_metric :: "metric \<Rightarrow> bool" where
  "conn_metric (SaslHandshakeTotal_Inc mech result) \<longleftrightarrow>
     mech \<in> {''PLAIN'', ''SCRAM-SHA-256'', ''SCRAM-SHA-512'', ''unknown''} \<and>
     result \<in> {''ok'', ''illegal_state'', ''unsupported'', ''malformed'', ''unauthorized'', ''upstream_error''}"
| "conn_metric (UpstreamErrorTotal_Inc kind) \<longleftrightarrow> kind \<in> {''dial'', ''scram_dial'', ''scram_relay''}"
| "conn_metric (ResolverCallsTotal_Inc result) \<longleftrightarrow> result \<in> {''ok'', ''unauthorized''}"
| "conn_metric (RequestsTotal_Inc k t) \<longleftrightarrow> True"
| "conn_metric (RequestDuration_Observe k t d) \<longleftrightarrow> True"
| "conn_metric _ \<longleftrightarrow> False"

definition metrics_step :: "Metrics option \<Rightarrow> Metrics option \<Rightarrow> bool" where
  "metrics_step m m' \<longleftrightarrow>
     (case m of None \<Rightarrow> m' = None | Some a \<Rightarrow> (\<exists>n. m' = Some (a @ n) \<and> list_all conn_metric n))"

definition conn_step :: "conn \<Rightarrow> conn \<Rightarrow> bool" where
  "conn_step c d \<longleftrightarrow>
     stream_step (nc c) (nc d) \<and> cfg d = cfg c \<and> metrics_step (metrics c) (metrics d) \<and>
     prefix (dialed c) (dialed d) \<and> (\<exists>n. lost d = lost c @ n \<and> list_all closed n)"

lemma metrics_step_refl: "metrics_step m m"
  by (simp add: metrics_step_def split: option.split)

lemma metrics_step_trans: "metrics_step a b \<Longrightarrow> metrics_step b c \<Longrightarrow> metrics_step a c"
  by (fastforce simp: metrics_step_def split: option.splits)

interpretation connf: frame_condition conn_step
proof
  show "conn_step c c" for c
    by (auto simp: conn_step_def stream.R_refl metrics_step_refl split: option.split)
  show "conn_step c e" if "conn_step c d" "conn_step d e" for c d e
    using that
    by (auto simp: conn_step_def split: option.splits
        dest: stream.R_trans metrics_step_trans prefix_order.trans)
qed

lemma on_nc_keeps: "keeps stream_step m \<Longrightarrow> keeps conn_step (on_nc m)"
  by (rule keepsI)
    (auto simp: conn_step_def on_nc_Pair metrics_step_refl split: option.split dest: keepsD)

lemma on_upstream_keeps: "keeps conn_step (on_upstream m)"
  by (rule keepsI)
    (auto simp: conn_step_def on_upstream_Pair stream.R_refl metrics_step_refl split: option.splits dest: keepsD)

lemma record_metric_keeps: "conn_metric e \<Longrightarrow> keeps conn_step (record_metric e)"
  by (rule keepsI)
    (auto simp: conn_step_def stream.R_refl metrics_step_def split: option.split)

lemma observeHandshake_keeps:
  "r \<in> {''ok'', ''illegal_state'', ''unsupported'', ''malformed'', ''unauthorized'', ''upstream_error''} \<Longrightarrow>
   keeps conn_step (observeHandshake m r)"
  unfolding observeHandshake_def Let_def
  by (intro record_metric_keeps) (auto simp: MechanismPlain_def MechanismSCRAMSHA256_def MechanismSCRAMSHA512_def)

lemma modify_keeps:
  "keeps conn_step (op_modify (\<lambda>c. c\<lparr>state := st\<rparr>))"
  "keeps conn_step (op_modify (\<lambda>c. c\<lparr>clientMechanism := m, state := st\<rparr>))"
  "keeps conn_step (op_modify (\<lambda>c. c\<lparr>tenant := t, password := p, state := st\<rparr>))"
  "keeps conn_step (op_modify (\<lambda>c. c\<lparr>tenant := t\<rparr>))"
  "keeps conn_step (op_modify (\<lambda>c. c\<lparr>upstream := up, state := st\<rparr>))"
  "keeps conn_step (op_modify (\<lambda>c. c\<lparr>scramRoundsCompleted := scramRoundsCompleted c + 1\<rparr>))"
  by (auto simp: keeps_def conn_step_def stream.R_refl metrics_step_refl split: option.split)

lemma writeResponse_keeps: "keeps conn_step (writeResponse api hdr resp)"
  unfolding writeResponse_def by (intro connf.keeps_rules on_nc_keeps stream_ops_keeps)

lemma auth_response_keeps: "keeps conn_step (auth_response E hdr code msg pl)"
  unfolding auth_response_def by (rule writeResponse_keeps)

lemma refuse_keeps:
  "r \<in> {''ok'', ''illegal_state'', ''unsupported'', ''malformed'', ''unauthorized'', ''upstream_error''} \<Longrightarrow>
   keeps conn_step (refuse E hdr m r code msg)"
  unfolding refuse_def by (intro connf.keeps_rules observeHandshake_keeps auth_response_keeps)

lemmas conn_keeps = connf.keeps_rules on_nc_keeps on_upstream_keeps record_metric_keeps observeHandshake_keeps
  modify_keeps writeResponse_keeps auth_response_keeps refuse_keeps

lemma note_dial_step: "list_all closed (snd d) \<Longrightarrow> conn_step c (note_dial a d c)"
  by (auto simp: conn_step_def note_dial_def stream.R_refl metrics_step_refl split: option.split)

lemma dial_upstream_clean: "dial_clean (dial_upstream E c)"
  by (simp add: dial_upstream_def Let_def Dial_clean DialSCRAM_clean)

lemma ensureUpstream_keeps: "keeps conn_step (ensureUpstream E)"
proof (rule keepsI)
  fix c r d
  assume e: "ensureUpstream E c = (r, d)"
  let ?c = "note_dial (Upstream (tenant c)) (dial_upstream E c) c"
  have n: "conn_step c ?c"
    using dial_upstream_clean [of E c] by (simp add: dial_clean_def note_dial_step)
  have "conn_step ?c (?c\<lparr>upstream := Some u\<rparr>)" if "upstream c = None" for u
    using that by (simp add: conn_step_def stream.R_refl metrics_step_refl)
  moreover have "conn_step ?c (?c\<lparr>metrics := map_option (\<lambda>m. m @ [UpstreamErrorTotal_Inc ''dial'']) (metrics c)\<rparr>)"
    using keepsD [OF record_metric_keeps [of "UpstreamErrorTotal_Inc ''dial''"] record_metric_eq, of ?c] by simp
  ultimately show "conn_step c d"
    using e n connf.R_refl [of c] connf.R_trans [OF n]
    by (auto simp: ensureUpstream_def Let_def split: go.splits if_splits)
qed

lemma forwardPassthrough_keeps: "keeps conn_step (forwardPassthrough E hdr frame)"
  unfolding forwardPassthrough_def by (intro conn_keeps ensureUpstream_keeps stream_ops_keeps)

lemma handleApiVersions_keeps: "keeps conn_step (handleApiVersions E hdr)"
  unfolding handleApiVersions_def by (rule writeResponse_keeps)

lemma handleSaslHandshake_keeps: "keeps conn_step (handleSaslHandshake E hdr body)"
  unfolding handleSaslHandshake_def by (intro conn_keeps) simp_all

lemma handleSaslAuthenticatePlain_keeps: "keeps conn_step (handleSaslAuthenticatePlain E R hdr body)"
  unfolding handleSaslAuthenticatePlain_def by (intro conn_keeps) simp_all

lemma scram_failed_keeps: "keeps conn_step (scram_failed e)"
  unfolding scram_failed_def by (intro conn_keeps) simp_all

lemma scram_answer_keeps: "keeps conn_step (scram_answer E hdr b code msg)"
  unfolding scram_answer_def by (intro conn_keeps) simp_all

lemma scram_relay_keeps: "keeps conn_step (scram_relay E hdr payload)"
proof (rule keepsI)
  fix c r d
  assume e: "scram_relay E hdr payload c = (r, d)"
  obtain q c1 where q: "on_upstream (RelaySASLAuthenticate (kmsg_of E) payload) c = (q, c1)" by force
  then have c1: "conn_step c c1" by (rule keepsD [OF on_upstream_keeps])
  have "conn_step c1 d"
    using e q connf.R_refl keepsD [OF scram_failed_keeps] keepsD [OF scram_answer_keeps]
    by (cases q) (auto simp: scram_relay_def)
  with c1 show "conn_step c d" by (rule connf.R_trans)
qed

lemma dial_scram_keeps: "keeps conn_step (dial_scram E mech t)"
  using DialForSCRAM_clean [of "kmsg_of E"]
  by (auto simp: keeps_def dial_scram_def Let_def dial_clean_def intro!: note_dial_step)

lemma handleSaslAuthenticateSCRAM_keeps: "keeps conn_step (handleSaslAuthenticateSCRAM E R hdr body)"
  unfolding handleSaslAuthenticateSCRAM_def
  by (intro conn_keeps scram_relay_keeps dial_scram_keeps keeps_go) simp_all

lemma handleSaslAuthenticate_keeps: "keeps conn_step (handleSaslAuthenticate E R hdr body)"
  by (rule keepsI)
    (auto simp: handleSaslAuthenticate_def split: if_splits
      dest: keepsD [OF handleSaslAuthenticateSCRAM_keeps] keepsD [OF handleSaslAuthenticatePlain_keeps])

subsection \<open>Relations that sockets and metrics do not matter to\<close>

text \<open>A relation between the states before and after that holds whatever happens to the bytes of the two
  sockets, as it does of those that follow one of the other fields. The operations that only read and
  write keep every such relation, and the SASL handlers every one that does not look at what they set.\<close>

locale conn_frame = frame_condition R for R :: "conn \<Rightarrow> conn \<Rightarrow> bool" +
  assumes R_nc: "R c (c\<lparr>nc := s\<rparr>)"
    and R_upstream: "upstream c = Some u \<Longrightarrow> R c (c\<lparr>upstream := Some v\<rparr>)"
begin

lemma on_nc_free: "keeps R (on_nc m)"
  by (simp add: keeps_def on_nc_def R_nc split: prod.split)

lemma on_upstream_free: "keeps R (on_upstream m)"
  by (auto simp: keeps_def on_upstream_def R_refl R_upstream split: option.split prod.split)

lemma responses_free: "keeps R (writeResponse api hdr resp)" "keeps R (auth_response E hdr code msg payload)"
  unfolding writeResponse_def auth_response_def by (intro keeps_rules on_nc_free)+

lemma handleApiVersions_free: "keeps R (handleApiVersions E hdr)"
  unfolding handleApiVersions_def by (rule responses_free)

end

locale sasl_frame = conn_frame R for R :: "conn \<Rightarrow> conn \<Rightarrow> bool" +
  assumes R_metrics: "\<not> request_call e \<Longrightarrow> R c (c\<lparr>metrics := map_option (\<lambda>m. m @ [e]) (metrics c)\<rparr>)"
    and R_state: "R c (c\<lparr>state := st\<rparr>)"
    and R_rounds: "R c (c\<lparr>scramRoundsCompleted := n\<rparr>)"
    and R_handshake: "R c (c\<lparr>clientMechanism := mech, state := st\<rparr>)"
    and R_plain: "R c (c\<lparr>tenant := t, password := p, state := st\<rparr>)"
begin

lemma record_metric_free: "\<not> request_call e \<Longrightarrow> keeps R (record_metric e)"
  unfolding record_metric_def by (intro keeps_modify R_metrics)

lemma observeHandshake_free: "keeps R (observeHandshake mech result)"
  unfolding observeHandshake_def Let_def by (rule record_metric_free) simp

lemma refuse_free: "keeps R (refuse E hdr mech result code msg)"
  unfolding refuse_def by (intro keeps_rules observeHandshake_free responses_free)

lemma scram_answer_free: "keeps R (scram_answer E hdr payload code msg)"
  unfolding scram_answer_def
  by (intro keeps_rules keeps_modify observeHandshake_free responses_free R_state R_rounds)

lemma scram_failed_free: "keeps R (scram_failed err)"
  unfolding scram_failed_def by (intro keeps_rules record_metric_free observeHandshake_free) simp

lemma scram_relay_free: "keeps R (scram_relay E hdr payload)"
proof (rule keepsI)
  fix c r d
  assume e: "scram_relay E hdr payload c = (r, d)"
  obtain q c1 where q: "on_upstream (RelaySASLAuthenticate (kmsg_of E) payload) c = (q, c1)" by force
  have "R c c1" by (rule keepsD [OF on_upstream_free q])
  moreover have "R c1 d"
    using e q keepsD [OF scram_answer_free] keepsD [OF scram_failed_free] R_refl
    by (cases q) (auto simp: scram_relay_def)
  ultimately show "R c d" by (rule R_trans)
qed

lemma handleSaslHandshake_free: "keeps R (handleSaslHandshake E hdr body)"
  unfolding handleSaslHandshake_def
  by (intro keeps_rules keeps_modify observeHandshake_free responses_free R_handshake)

lemma handleSaslAuthenticatePlain_free: "keeps R (handleSaslAuthenticatePlain E T hdr body)"
  unfolding handleSaslAuthenticatePlain_def
  by (intro keeps_rules keeps_modify record_metric_free observeHandshake_free refuse_free responses_free R_plain) simp_all

end

subsection \<open>One response per request\<close>

text \<open>\<open>answers cid m\<close>: when \<open>m\<close> succeeds it has written one frame to the client, which starts with the
  correlation id \<open>cid\<close>, and has read nothing from it. \<open>quiet\<close> operations leave the client socket alone.\<close>

definition same_nc :: "conn \<Rightarrow> conn \<Rightarrow> bool" where
  "same_nc c d \<longleftrightarrow> nc d = nc c"

definition one_frame :: "int32 \<Rightarrow> conn \<Rightarrow> conn \<Rightarrow> bool" where
  "one_frame cid c d \<longleftrightarrow>
     rd (nc d) = rd (nc c) \<and> (\<exists>b. wr (nc d) = wr (nc c) @ frame_bytes (PutUint32 cid @ b))"

definition answers :: "int32 \<Rightarrow> (conn, 'a) op \<Rightarrow> bool" where
  "answers cid m \<longleftrightarrow> (\<forall>c a d. m c = (Ok a, d) \<longrightarrow> one_frame cid c d)"

interpretation quiet: frame_condition same_nc
  by unfold_locales (simp_all add: same_nc_def)

abbreviation quiet_op :: "(conn, 'a) op \<Rightarrow> bool" where
  "quiet_op \<equiv> keeps same_nc"

lemma quiet_ops:
  "quiet_op (on_upstream m)" "quiet_op (record_metric e)" "quiet_op (observeHandshake mech r)"
  "quiet_op (op_modify (\<lambda>c. c\<lparr>state := st\<rparr>))"
  "quiet_op (op_modify (\<lambda>c. c\<lparr>clientMechanism := mech, state := st\<rparr>))"
  "quiet_op (op_modify (\<lambda>c. c\<lparr>tenant := t, password := p, state := st\<rparr>))"
  "quiet_op (op_modify (\<lambda>c. c\<lparr>tenant := t\<rparr>))"
  "quiet_op (op_modify (\<lambda>c. c\<lparr>upstream := up, state := st\<rparr>))"
  "quiet_op (op_modify (\<lambda>c. c\<lparr>scramRoundsCompleted := scramRoundsCompleted c + 1\<rparr>))"
  "quiet_op (dial_scram E mech t)" "quiet_op (ensureUpstream E)"
  by (simp_all add: keeps_def same_nc_def on_upstream_def dial_scram_def ensureUpstream_def Let_def
      split: option.split prod.split go.split)

lemma answers_bind: "quiet_op m \<Longrightarrow> (\<And>a. answers cid (f a)) \<Longrightarrow> answers cid (op_bind m f)"
  unfolding answers_def op_bind_Ok one_frame_def by (metis keepsD same_nc_def)

lemma answers_bind_value:
  "quiet_op m \<Longrightarrow> (\<And>c a d. m c = (Ok a, d) \<Longrightarrow> P a) \<Longrightarrow> (\<And>a. P a \<Longrightarrow> answers cid (f a)) \<Longrightarrow> answers cid (op_bind m f)"
  unfolding answers_def op_bind_Ok one_frame_def by (metis keepsD same_nc_def)

lemma answers_simps:
  "answers cid (op_fail e)" "answers cid (op_lift Panic)" "answers cid m \<Longrightarrow> answers cid (op_wrap w m)"
  by (simp_all add: answers_def)

lemma answers_case:
  "(b \<Longrightarrow> answers cid m) \<Longrightarrow> (\<not> b \<Longrightarrow> answers cid n) \<Longrightarrow> answers cid (if b then m else n)"
  "(\<And>e. answers cid (f e)) \<Longrightarrow> (\<And>a. answers cid (g a)) \<Longrightarrow> answers cid (case x of Inl e \<Rightarrow> f e | Inr a \<Rightarrow> g a)"
  "(\<And>a. answers cid (g a)) \<Longrightarrow> (\<And>e. answers cid (f e)) \<Longrightarrow> answers cid h \<Longrightarrow>
     answers cid (case y of Ok a \<Rightarrow> g a | Err e \<Rightarrow> f e | Panic \<Rightarrow> h)"
  "answers cid (k z) \<Longrightarrow> answers cid (Let z k)"
  by (simp_all split: sum.split go.split)

lemma answers_write: "f = PutUint32 cid @ b \<Longrightarrow> answers cid (on_nc (write_frame f))"
  by (fastforce simp: answers_def on_nc_Pair one_frame_def dest: write_frame_Ok)

text \<open>The documented behaviour of the message library that a response needs: encoding appends.\<close>

definition appends :: "('q, 'p) kapi \<Rightarrow> bool" where
  "appends api \<longleftrightarrow> (\<forall>v p dst. AppendResp api v p dst = dst @ AppendResp api v p [])"

lemma EncodeResponse_appends:
  assumes "appends api"
  shows "EncodeResponse (AppendResp api v) resp cid key ver =
    PutUint32 cid @ (if ResponseHeaderVersion key ver = 1 then [0] else []) @ AppendResp api v resp []"
proof -
  let ?h = "PutUint32 cid @ (if ResponseHeaderVersion key ver = 1 then [0] else [])"
  have "AppendResp api v resp ?h = ?h @ AppendResp api v resp []"
    using assms unfolding appends_def by blast
  moreover have "EncodeResponse (AppendResp api v) resp cid key ver = AppendResp api v resp ?h"
    using ResponseHeaderVersion_cases [of key ver]
    by (auto simp: EncodeResponse_def AppendResponseHeader_eq Let_def)
  ultimately show ?thesis by (simp only: append_assoc)
qed

lemma writeResponse_answers: "appends api \<Longrightarrow> answers (CorrelationID hdr) (writeResponse api hdr resp)"
  unfolding writeResponse_def by (intro answers_simps answers_write) (rule EncodeResponse_appends)

definition appends_sasl :: "'s env \<Rightarrow> bool" where
  "appends_sasl E \<longleftrightarrow> appends (k_ApiVersions (kmsg_of E)) \<and> appends (k_SASLHandshake (kmsg_of E)) \<and>
     appends (k_SASLAuthenticate (kmsg_of E))"

lemma sasl_responses:
  assumes "appends_sasl E"
  shows "answers (CorrelationID hdr) (auth_response E hdr code msg pl)"
    and "answers (CorrelationID hdr) (refuse E hdr mech r code m)"
    and "answers (CorrelationID hdr) (handleApiVersions E hdr)"
    and "answers (CorrelationID hdr) (handleSaslHandshake E hdr body)"
proof -
  have a: "appends (k_ApiVersions (kmsg_of E))" "appends (k_SASLHandshake (kmsg_of E))" "appends (k_SASLAuthenticate (kmsg_of E))"
    using assms by (simp_all add: appends_sasl_def)
  show r: "answers (CorrelationID hdr) (auth_response E hdr code msg pl)" for code msg pl
    unfolding auth_response_def by (rule writeResponse_answers [OF a(3)])
  show "answers (CorrelationID hdr) (refuse E hdr mech r code m)"
    unfolding refuse_def by (intro answers_bind quiet_ops r)
  show "answers (CorrelationID hdr) (handleApiVersions E hdr)"
    unfolding handleApiVersions_def by (rule writeResponse_answers [OF a(1)])
  show "answers (CorrelationID hdr) (handleSaslHandshake E hdr body)"
    unfolding handleSaslHandshake_def
    by (intro answers_bind answers_case quiet_ops quiet.keeps_rules writeResponse_answers a)
qed

lemma handleSaslAuthenticatePlain_answers:
  "appends_sasl E \<Longrightarrow> answers (CorrelationID hdr) (handleSaslAuthenticatePlain E R hdr body)"
  unfolding handleSaslAuthenticatePlain_def
  by (intro answers_bind answers_case quiet_ops quiet.keeps_rules sasl_responses)

lemma scram_relay_answers:
  assumes "appends_sasl E"
  shows "answers (CorrelationID hdr) (scram_relay E hdr payload)"
proof -
  have a: "answers (CorrelationID hdr) (scram_answer E hdr b code msg)" for b code msg
    unfolding scram_answer_def
    by (intro answers_bind answers_case quiet_ops quiet.keeps_rules sasl_responses assms)
  have f: "answers (CorrelationID hdr) (scram_failed e)" for e
    unfolding scram_failed_def by (intro answers_bind answers_simps quiet_ops quiet.keeps_rules)
  have "one_frame (CorrelationID hdr) c d" if e: "scram_relay E hdr payload c = (Ok u, d)" for c u d
  proof -
    obtain q c1 where q: "on_upstream (RelaySASLAuthenticate (kmsg_of E) payload) c = (q, c1)" by force
    have nc: "nc c1 = nc c"
      using keepsD [OF quiet_ops(1) q] by (simp add: same_nc_def)
    have "one_frame (CorrelationID hdr) c1 d"
      using e q a f by (cases q) (auto simp: scram_relay_def answers_def)
    with nc show ?thesis by (simp add: one_frame_def)
  qed
  then show ?thesis by (simp add: answers_def)
qed

lemma handleSaslAuthenticateSCRAM_answers:
  "appends_sasl E \<Longrightarrow> answers (CorrelationID hdr) (handleSaslAuthenticateSCRAM E R hdr body)"
  unfolding handleSaslAuthenticateSCRAM_def
  by (intro answers_bind answers_case answers_simps quiet_ops quiet.keeps_rules sasl_responses scram_relay_answers)

lemma handleSaslAuthenticate_answers:
  "appends_sasl E \<Longrightarrow> answers (CorrelationID hdr) (handleSaslAuthenticate E R hdr body)"
  using handleSaslAuthenticateSCRAM_answers [of E hdr R body] handleSaslAuthenticatePlain_answers [of E hdr R body]
  by (auto simp: answers_def handleSaslAuthenticate_def)

lemma forwardPassthrough_answers: "answers (CorrelationID hdr) (forwardPassthrough E hdr frame)"
proof -
  let ?rt = "op_wrap ''forwardPassthrough'' (on_upstream (RoundTrip frame (CorrelationID hdr) (HeaderVersion hdr)
    (ResponseHeaderVersion (APIKey hdr) (APIVersion hdr))))"
  have "\<exists>b. a = PutUint32 (CorrelationID hdr) @ b" if "?rt c = (Ok a, d)" for c a d
    using that by (auto simp: on_upstream_Pair split: option.splits dest!: RoundTrip_Ok(4))
  then have "answers (CorrelationID hdr) (op_bind ?rt (\<lambda>f. on_nc (write_frame f)))"
    by (intro answers_bind_value [where P = "\<lambda>f. \<exists>b. f = PutUint32 (CorrelationID hdr) @ b"])
      (auto intro: answers_write quiet.keeps_wrap quiet_ops)
  then show ?thesis
    unfolding forwardPassthrough_def by (rule answers_bind [OF quiet.keeps_wrap [OF quiet_ops(11)]])
qed

end
