(* ===== verification/Rewrite_Names.thy ===== *)
theory Rewrite_Names
  imports Kroxy_Prelude
begin

text \<open>
  \<open>rewrite/rewrite.go\<close>: the map between the names a tenant uses and the names the shared
  cluster holds, and the contracts the message rewriters are proved against.

  A nullable Kafka string (\<open>*string\<close>) is a \<open>string option\<close>.
\<close>

definition PrefixIn :: "string \<Rightarrow> string \<Rightarrow> string" where
  "PrefixIn pfx name = (if pfx = [] \<or> name = [] then name else pfx @ name)"

definition PrefixInPtr :: "string \<Rightarrow> string option \<Rightarrow> string option" where
  "PrefixInPtr pfx name =
     (case name of None \<Rightarrow> name | Some n \<Rightarrow> if n = [] \<or> pfx = [] then name else Some (pfx @ n))"

definition StripOut :: "string \<Rightarrow> string \<Rightarrow> string" where
  "StripOut pfx name = (if pfx = [] then name else TrimPrefix name pfx)"

definition StripOutPtr :: "string \<Rightarrow> string option \<Rightarrow> string option" where
  "StripOutPtr pfx name =
     (case name of None \<Rightarrow> name | Some n \<Rightarrow> if pfx = [] then name else Some (TrimPrefix n pfx))"

definition BelongsToTenant :: "string \<Rightarrow> string \<Rightarrow> bool" where
  "BelongsToTenant pfx name = (if pfx = [] then True else HasPrefix name pfx)"

text \<open>The specification side: every name of a list is empty or carries the tenant's prefix.\<close>

definition confined :: "string \<Rightarrow> string list \<Rightarrow> bool" where
  "confined pfx ns \<longleftrightarrow> list_all (\<lambda>n. n = [] \<or> BelongsToTenant pfx n) ns"

subsection \<open>Names\<close>

lemma PrefixIn_Nil [simp]: "PrefixIn [] n = n" "PrefixIn p [] = []"
  by (simp_all add: PrefixIn_def)

lemma map_PrefixIn_Nil [simp]: "map (PrefixIn []) ns = ns"
  by (simp add: map_idI)

lemma StripOut_Nil [simp]: "StripOut [] n = n" "StripOut p [] = []"
  by (simp_all add: StripOut_def TrimPrefix_def HasPrefix_def)

lemma StripOut_PrefixIn [simp]: "StripOut p (PrefixIn p n) = n"
  by (auto simp: StripOut_def PrefixIn_def TrimPrefix_def HasPrefix_def)

lemma BelongsToTenant_PrefixIn: "n \<noteq> [] \<Longrightarrow> BelongsToTenant p (PrefixIn p n)"
  by (simp add: BelongsToTenant_def PrefixIn_def)

lemma PrefixIn_StripOut:
  "BelongsToTenant p x \<Longrightarrow> x \<noteq> p \<Longrightarrow> PrefixIn p (StripOut p x) = x"
  by (auto simp: BelongsToTenant_def PrefixIn_def StripOut_def HasPrefix_iff)

lemma PrefixInPtr_map [simp]: "PrefixInPtr p n = map_option (PrefixIn p) n"
  by (cases n) (auto simp: PrefixInPtr_def PrefixIn_def)

lemma StripOutPtr_map [simp]: "StripOutPtr p n = map_option (StripOut p) n"
  by (cases n) (auto simp: StripOutPtr_def StripOut_def)

lemma PrefixIn_eq_Nil_iff [simp]: "PrefixIn p n = [] \<longleftrightarrow> n = []"
  by (auto simp: PrefixIn_def)

lemma BelongsToTenant_both:
  assumes "BelongsToTenant p n" and "BelongsToTenant q n"
  shows "HasPrefix p q \<or> HasPrefix q p"
  using assms by (auto simp: BelongsToTenant_def HasPrefix_prefix split: if_splits dest: prefix_same_cases)

text \<open>
  The contract between the name map and its clients: stripping undoes prefixing, a prefixed name
  belongs to the tenant, and a name that belongs to two tenants makes their prefixes comparable.
\<close>

locale tenant_names =
  fixes enc :: "string \<Rightarrow> string \<Rightarrow> string"
    and dec :: "string \<Rightarrow> string \<Rightarrow> string"
    and own :: "string \<Rightarrow> string \<Rightarrow> bool"
  assumes dec_enc: "dec p (enc p n) = n"
    and own_enc: "n \<noteq> [] \<Longrightarrow> own p (enc p n)"
    and own_comparable: "own p n \<Longrightarrow> own q n \<Longrightarrow> HasPrefix p q \<or> HasPrefix q p"
    and enc_Nil: "enc p [] = []"
begin

lemma enc_inject: "enc p m = enc p n \<longleftrightarrow> m = n"
  using dec_enc by metis

lemma enc_nonempty: "n \<noteq> [] \<Longrightarrow> enc p n \<noteq> []"
  using enc_inject [of p n "[]"] enc_Nil by simp

lemma map_dec_enc: "map (dec p) (map (enc p) ns) = ns"
  by (simp add: dec_enc comp_def)

lemma enc_confined: "m \<in> set (map (enc p) ns) \<Longrightarrow> m = [] \<or> own p m"
  using own_enc enc_Nil by (metis (no_types, lifting) in_set_conv_nth length_map nth_map)

lemma enc_disjoint:
  assumes "\<not> HasPrefix p q" and "\<not> HasPrefix q p" and "m \<noteq> []" and "n \<noteq> []"
  shows "enc p m \<noteq> enc q n"
  using assms own_comparable own_enc by metis

lemma own_disjoint:
  "\<not> HasPrefix p q \<Longrightarrow> \<not> HasPrefix q p \<Longrightarrow> own p n \<Longrightarrow> \<not> own q n"
  using own_comparable by blast

end

interpretation names: tenant_names PrefixIn StripOut BelongsToTenant
  by unfold_locales (auto simp: BelongsToTenant_PrefixIn BelongsToTenant_both)

subsection \<open>Messages that carry names\<close>

text \<open>
  What it means for a function to change the names of a message and nothing else: \<open>names\<close> lists
  the names a message carries, \<open>mapn f\<close> applies \<open>f\<close> to each of them, and these satisfy the laws
  of a map on a container. A rewriter of requests is the map that prefixes, a rewriter of responses
  the one that strips, a filtering rewriter first drops the entries of other tenants.
\<close>

locale named_message =
  fixes names_of :: "'m \<Rightarrow> string list"
    and mapn :: "(string \<Rightarrow> string) \<Rightarrow> 'm \<Rightarrow> 'm"
  assumes names_mapn: "names_of (mapn f m) = map f (names_of m)"
    and mapn_id: "mapn (\<lambda>n. n) m = m"
    and mapn_mapn: "mapn f (mapn g m) = mapn (\<lambda>n. f (g n)) m"
begin

lemma mapn_strip_prefix: "mapn (StripOut p) (mapn (PrefixIn p) m) = m"
  by (simp add: mapn_mapn mapn_id)

end

locale prefixing =
  fixes names_of :: "'m \<Rightarrow> string list"
    and rin :: "string \<Rightarrow> 'm \<Rightarrow> 'm"
  assumes names_rin: "names_of (rin p m) = map (PrefixIn p) (names_of m)"
begin

lemma rin_confined: "n \<in> set (names_of (rin p m)) \<Longrightarrow> n = [] \<or> BelongsToTenant p n"
  unfolding names_rin by (rule names.enc_confined)

lemma rin_list_confined: "confined p (names_of (rin p m))"
  using rin_confined by (auto simp: confined_def list_all_iff)

lemma rin_disjoint:
  assumes "\<not> HasPrefix p q" and "\<not> HasPrefix q p" and "n \<noteq> []"
    and "n \<in> set (names_of (rin p m))"
  shows "n \<notin> set (names_of (rin q m'))"
proof
  assume "n \<in> set (names_of (rin q m'))"
  then have "BelongsToTenant q n" and "BelongsToTenant p n"
    using assms(3,4) rin_confined by blast+
  then show False
    using names.own_disjoint assms(1,2) by blast
qed

end

locale request_rewriter = named_message names_of mapn
  for names_of :: "'m \<Rightarrow> string list" and mapn :: "(string \<Rightarrow> string) \<Rightarrow> 'm \<Rightarrow> 'm" +
  fixes rin :: "string \<Rightarrow> 'm \<Rightarrow> 'm"
  assumes rin_mapn: "rin p m = mapn (PrefixIn p) m"
begin

lemma rin_recover: "mapn (StripOut p) (rin p m) = m"
  by (simp add: rin_mapn mapn_strip_prefix)

lemma rin_inject: "rin p m = rin p m' \<Longrightarrow> m = m'"
  by (metis rin_recover)

end

sublocale request_rewriter \<subseteq> prefixing names_of rin
  by unfold_locales (simp add: rin_mapn names_mapn)

locale response_rewriter = named_message names_of mapn
  for names_of :: "'m \<Rightarrow> string list" and mapn :: "(string \<Rightarrow> string) \<Rightarrow> 'm \<Rightarrow> 'm" +
  fixes rout :: "string \<Rightarrow> 'm \<Rightarrow> 'm"
  assumes rout_mapn: "rout p m = mapn (StripOut p) m"
begin

lemma names_rout: "names_of (rout p m) = map (StripOut p) (names_of m)"
  by (simp add: rout_mapn names_mapn)

lemma rout_prefixed: "rout p (mapn (PrefixIn p) m) = m"
  by (simp add: rout_mapn mapn_strip_prefix)

lemma rout_names: "names_of m = map (PrefixIn p) ns \<Longrightarrow> names_of (rout p m) = ns"
  by (simp add: names_rout comp_def)

end

locale response_filter =
  fixes names_of :: "'m \<Rightarrow> string list"
    and rout :: "string \<Rightarrow> 'm \<Rightarrow> 'm"
  assumes names_rout: "names_of (rout p m) = map (StripOut p) (filter (BelongsToTenant p) (names_of m))"
begin

lemma rout_only_own:
  "n \<in> set (names_of (rout p m)) \<Longrightarrow> n \<noteq> [] \<Longrightarrow> PrefixIn p n \<in> set (names_of m)"
  by (auto simp: names_rout) (metis PrefixIn_StripOut StripOut_PrefixIn append_Nil2 PrefixIn_def
      StripOut_def TrimPrefix_append)

lemma rout_all_own:
  "PrefixIn p n \<in> set (names_of m) \<Longrightarrow> n \<noteq> [] \<Longrightarrow> n \<in> set (names_of (rout p m))"
  by (auto simp: names_rout image_iff BelongsToTenant_PrefixIn intro!: bexI [of _ "PrefixIn p n"])

lemma rout_hides_others:
  assumes "\<not> HasPrefix p q" and "\<not> HasPrefix q p"
    and "\<forall>x\<in>set (names_of m). BelongsToTenant q x"
  shows "names_of (rout p m) = []"
  using assms names.own_disjoint [of p q] by (auto simp: names_rout filter_empty_conv)

end

lemma PrefixIn_collide:
  assumes "HasPrefix p q" and "q \<noteq> []"
  shows "\<exists>m n. m \<noteq> [] \<and> n \<noteq> [] \<and> PrefixIn p m = PrefixIn q n"
proof -
  from assms(1) obtain t where t: "p = q @ t"
    by (auto simp: HasPrefix_iff)
  have "PrefixIn p ''x'' = PrefixIn q (t @ ''x'')"
    using assms(2) t by (simp add: PrefixIn_def)
  then show ?thesis by (intro exI [of _ "''x''"] exI [of _ "t @ ''x''"]) simp
qed

subsection \<open>Properties\<close>

text \<open>C27: for a tenant with a non-empty prefix, PrefixIn is a bijection from the non-empty names
  the tenant can use onto the cluster names that carry the prefix and are longer than it, and
  StripOut is its inverse. No two client names share a cluster name, and every such cluster name is
  reachable.\<close>

theorem PrefixIn_bij:
  assumes "p \<noteq> []"
  shows "bij_betw (PrefixIn p) {n. n \<noteq> []} {x. BelongsToTenant p x \<and> x \<noteq> p} \<and>
    (\<forall>n. StripOut p (PrefixIn p n) = n)"
proof -
  have "PrefixIn p ` {n. n \<noteq> []} = {x. BelongsToTenant p x \<and> x \<noteq> p}"
    using assms by (auto simp: PrefixIn_def BelongsToTenant_def HasPrefix_iff image_iff)
  moreover have "inj_on (PrefixIn p) {n. n \<noteq> []}"
    by (auto intro: inj_onI simp: names.enc_inject)
  ultimately show ?thesis
    by (simp add: bij_betw_def)
qed

theorem PrefixIn_bij_witness:
  "bij_betw (PrefixIn ''t.'') {n. n \<noteq> []} {x. BelongsToTenant ''t.'' x \<and> x \<noteq> ''t.''} \<and>
   PrefixIn ''t.'' ''orders'' = ''t.orders'' \<and> StripOut ''t.'' ''t.orders'' = ''orders''"
  using PrefixIn_bij [of "''t.''"] by (simp add: PrefixIn_def StripOut_def TrimPrefix_def HasPrefix_def)

text \<open>C28: two tenants with non-empty prefixes can never name the same cluster object exactly when
  neither prefix is a prefix of the other. Comparable prefixes always collide: this is the condition
  under which the isolation of tenants holds, and nothing in the code checks it.\<close>

theorem tenants_disjoint_iff:
  assumes "p \<noteq> []" and "q \<noteq> []"
  shows "(\<forall>m n. m \<noteq> [] \<longrightarrow> n \<noteq> [] \<longrightarrow> PrefixIn p m \<noteq> PrefixIn q n) \<longleftrightarrow>
    \<not> HasPrefix p q \<and> \<not> HasPrefix q p"
proof
  assume "\<forall>m n. m \<noteq> [] \<longrightarrow> n \<noteq> [] \<longrightarrow> PrefixIn p m \<noteq> PrefixIn q n"
  then show "\<not> HasPrefix p q \<and> \<not> HasPrefix q p"
    using PrefixIn_collide [of p q] PrefixIn_collide [of q p] assms by metis
next
  assume "\<not> HasPrefix p q \<and> \<not> HasPrefix q p"
  then show "\<forall>m n. m \<noteq> [] \<longrightarrow> n \<noteq> [] \<longrightarrow> PrefixIn p m \<noteq> PrefixIn q n"
    using names.enc_disjoint by blast
qed

theorem tenants_disjoint_iff_witness:
  "PrefixIn ''a.'' ''orders'' \<noteq> PrefixIn ''b.'' ''orders'' \<and>
   (\<exists>m n. m \<noteq> [] \<and> n \<noteq> [] \<and> PrefixIn ''a'' m = PrefixIn ''ab'' n)"
proof
  show "PrefixIn ''a.'' ''orders'' \<noteq> PrefixIn ''b.'' ''orders''"
    using tenants_disjoint_iff [of "''a.''" "''b.''"] by (simp add: HasPrefix_def)
  show "\<exists>m n. m \<noteq> [] \<and> n \<noteq> [] \<and> PrefixIn ''a'' m = PrefixIn ''ab'' n"
    using tenants_disjoint_iff [of "''a''" "''ab''"] by (simp add: HasPrefix_def)
qed

end
