(* ===== verification/Kafka_Messages.thy ===== *)
theory Kafka_Messages
  imports Rewrite_Names
begin

text \<open>
  The typed Kafka messages the rewriters work on. They are the generated structs of the message
  library, of which each record here has the fields that kroxy reads or writes. The records are
  extensible: the scheme variable of each (written \<open>'x\<close>, \<open>'y\<close>) stands for all its other fields,
  which are carried along and which no definition can inspect. Messages that share a shape share a
  record, and a message that has more fields extends it, so \<open>ProduceRequest\<close> is a \<open>TopicsMsg\<close> with
  its \<open>Acks\<close>.

  For every shape the theory gives the names a message carries and the map over them, with the laws
  of the locale \<open>named_message\<close>.
\<close>

subsection \<open>Messages about topics\<close>

record NamedTopic =
  Topic :: string

record PtrTopic =
  TopicPtr :: "string option"

record 'x TopicsMsg =
  Topics :: "'x NamedTopic_scheme list"

record 'x ProduceRequest = "'x TopicsMsg" +
  Acks :: int16

record 'x MetadataRequest =
  MetadataTopics :: "'x PtrTopic_scheme list option"

record MetadataResponseBroker =
  NodeID :: int32
  Host :: string
  Port :: int32
  Rack :: "string option"

record MetadataPartition =
  Leader :: int32
  Replicas :: "int32 list"
  ISR :: "int32 list"
  OfflineReplicas :: "int32 list"

record 'x MetadataTopic = PtrTopic +
  Partitions :: "'x MetadataPartition_scheme list"

record ('x, 'y) MetadataResponse =
  Brokers :: "MetadataResponseBroker list"
  ControllerID :: int32
  ResponseTopics :: "('x, 'y) MetadataTopic_scheme list"

record 'x DeleteTopicsRequest =
  TopicNames :: "string list"
  DeleteTopics :: "'x PtrTopic_scheme list"

record 'x DeleteTopicsResponse =
  DeletedTopics :: "'x PtrTopic_scheme list"

record ConfigResource =
  ResourceType :: int8
  ResourceName :: string

record 'x ConfigsMsg =
  Resources :: "'x ConfigResource_scheme list"

subsection \<open>Messages about groups and transactions\<close>

record 'x GroupTopicsMsg = "'x TopicsMsg" +
  Group :: string

record ('x, 'y) OffsetFetchRequest = "'x GroupTopicsMsg" +
  RequestGroups :: "('x, 'y) GroupTopicsMsg_scheme list"

record ('x, 'y) OffsetFetchResponse = "'x TopicsMsg" +
  ResponseGroups :: "('x, 'y) GroupTopicsMsg_scheme list"

record 'x TxnTopics = "'x TopicsMsg" +
  TransactionalID :: string

record ('x, 'y) AddPartitionsToTxnRequest = "'x TxnTopics" +
  Transactions :: "('x, 'y) TxnTopics_scheme list"

record ('x, 'y) AddPartitionsToTxnResponse = "'x TopicsMsg" +
  ResponseTransactions :: "('x, 'y) TxnTopics_scheme list"

record 'x TxnOffsetCommitRequest = "'x GroupTopicsMsg" +
  CommitTransactionalID :: string

record AddOffsetsToTxnRequest =
  OffsetsTransactionalID :: string
  OffsetsGroup :: string

record EndTxnRequest =
  EndTransactionalID :: string

record InitProducerIDRequest =
  TransactionalIDPtr :: "string option"

record GroupMsg =
  GroupID :: string

record GroupsMsg =
  GroupIDs :: "string list"

record 'x GroupListMsg =
  GroupList :: "'x GroupMsg_scheme list"

record FindCoordinatorRequest =
  CoordinatorType :: int8
  CoordinatorKey :: string
  CoordinatorKeys :: "string list"

record CoordinatorAddr =
  CoordNodeID :: int32
  CoordHost :: string
  CoordPort :: int32

record Coordinator = CoordinatorAddr +
  Key :: string

record 'x FindCoordinatorResponse = CoordinatorAddr +
  Coordinators :: "'x Coordinator_scheme list"

record JoinGroupProtocol =
  Metadata :: "byte list"

record 'x JoinGroupRequest = GroupMsg +
  ProtocolType :: string
  Protocols :: "'x JoinGroupProtocol_scheme list"

record JoinGroupMember =
  ProtocolMetadata :: "byte list"

record 'x JoinGroupResponse =
  JoinProtocolType :: "string option"
  Members :: "'x JoinGroupMember_scheme list"

record GroupAssignmentEntry =
  Assignment :: "byte list"

record 'x SyncGroupRequest = GroupMsg +
  SyncProtocolType :: "string option"
  GroupAssignment :: "'x GroupAssignmentEntry_scheme list"

record SyncGroupResponse =
  SyncRespProtocolType :: "string option"
  MemberAssignment :: "byte list"

record DescribedMember =
  DescribedMetadata :: "byte list"
  DescribedAssignment :: "byte list"

record 'x DescribedGroup = GroupMsg +
  DescribedProtocolType :: string
  DescribedMembers :: "'x DescribedMember_scheme list"

record ('x, 'y) DescribeGroupsResponse =
  DescribedGroups :: "('x, 'y) DescribedGroup_scheme list"

text \<open>The blobs inside group messages.\<close>

record 'x ConsumerMemberMetadata =
  SubTopics :: "string list"
  OwnedPartitions :: "'x NamedTopic_scheme list"

type_synonym ('x, 'y) ConsumerMemberAssignment = "('x, 'y) TopicsMsg_scheme"

subsection \<open>The names of a message and the map over them\<close>

definition on_topic :: "(string \<Rightarrow> string) \<Rightarrow> 'x NamedTopic_scheme \<Rightarrow> 'x NamedTopic_scheme" where
  "on_topic f t = t\<lparr>Topic := f (Topic t)\<rparr>"

definition on_ptr :: "(string \<Rightarrow> string) \<Rightarrow> 'x PtrTopic_scheme \<Rightarrow> 'x PtrTopic_scheme" where
  "on_ptr f t = t\<lparr>TopicPtr := map_option f (TopicPtr t)\<rparr>"

definition ptr_names :: "'x PtrTopic_scheme list \<Rightarrow> string list" where
  "ptr_names ts = List.map_filter TopicPtr ts"

definition topic_names :: "('x, 'y) TopicsMsg_scheme \<Rightarrow> string list" where
  "topic_names m = map Topic (Topics m)"

definition map_topics :: "(string \<Rightarrow> string) \<Rightarrow> ('x, 'y) TopicsMsg_scheme \<Rightarrow> ('x, 'y) TopicsMsg_scheme" where
  "map_topics f m = m\<lparr>Topics := map (on_topic f) (Topics m)\<rparr>"

lemma on_topic_simps [simp]:
  "Topic (on_topic f t) = f (Topic t)"
  "on_topic (\<lambda>n. n) t = t"
  "on_topic f (on_topic g t) = on_topic (\<lambda>n. f (g n)) t"
  by (simp_all add: on_topic_def)

lemma on_topic_comp [simp]:
  "Topic \<circ> on_topic f = f \<circ> Topic" "on_topic f \<circ> on_topic g = on_topic (\<lambda>n. f (g n))"
  "on_topic (\<lambda>n. n) = id"
  by (simp_all add: fun_eq_iff)

lemma on_ptr_simps [simp]:
  "TopicPtr (on_ptr f t) = map_option f (TopicPtr t)"
  "on_ptr (\<lambda>n. n) t = t"
  "on_ptr f (on_ptr g t) = on_ptr (\<lambda>n. f (g n)) t"
  by (simp_all add: on_ptr_def option.map_comp comp_def option.map_ident)

lemma on_ptr_comp [simp]:
  "on_ptr f \<circ> on_ptr g = on_ptr (\<lambda>n. f (g n))" "on_ptr (\<lambda>n. n) = id"
  by (simp_all add: fun_eq_iff)

lemma ptr_names_map [simp]: "ptr_names (map (on_ptr f) ts) = map f (ptr_names ts)"
  by (induction ts) (auto simp: ptr_names_def List.map_filter_simps split: option.splits)

lemma ptr_names_simps [simp]:
  "ptr_names [] = []"
  "ptr_names (t # ts) = (case TopicPtr t of None \<Rightarrow> ptr_names ts | Some n \<Rightarrow> n # ptr_names ts)"
  by (simp_all add: ptr_names_def List.map_filter_simps split: option.split)

interpretation topics_msg: named_message topic_names map_topics
  by unfold_locales (simp_all add: topic_names_def map_topics_def)

end
