(* ===== verification/Rewrite_Topics.thy ===== *)
theory Rewrite_Topics
  imports Kafka_Messages
begin

text \<open>
  \<open>rewrite/produce_fetch.go\<close>, \<open>rewrite/metadata.go\<close> and \<open>rewrite/topics_admin.go\<close>: the
  rewriting of the messages that name topics and configuration resources. Each Go function mutates
  the message it is given; its model returns the changed message. A loop over a slice that assigns
  to the elements is a \<open>map\<close>, a loop that appends the kept elements to a truncated slice is a
  recursion that drops the others.
\<close>

subsection \<open>Produce, Fetch, ListOffsets\<close>

definition ProduceRequestIn :: "string \<Rightarrow> ('x, 'y) ProduceRequest_scheme \<Rightarrow> ('x, 'y) ProduceRequest_scheme" where
  "ProduceRequestIn pfx req =
     req\<lparr>Topics := map (\<lambda>t. t\<lparr>Topic := PrefixIn pfx (Topic t)\<rparr>) (Topics req)\<rparr>"

definition ProduceResponseOut :: "string \<Rightarrow> ('x, 'y) TopicsMsg_scheme \<Rightarrow> ('x, 'y) TopicsMsg_scheme" where
  "ProduceResponseOut pfx resp =
     resp\<lparr>Topics := map (\<lambda>t. t\<lparr>Topic := StripOut pfx (Topic t)\<rparr>) (Topics resp)\<rparr>"

definition FetchRequestIn :: "string \<Rightarrow> ('x, 'y) TopicsMsg_scheme \<Rightarrow> ('x, 'y) TopicsMsg_scheme" where
  "FetchRequestIn pfx req =
     req\<lparr>Topics := map (\<lambda>t. t\<lparr>Topic := PrefixIn pfx (Topic t)\<rparr>) (Topics req)\<rparr>"

definition FetchResponseOut :: "string \<Rightarrow> ('x, 'y) TopicsMsg_scheme \<Rightarrow> ('x, 'y) TopicsMsg_scheme" where
  "FetchResponseOut pfx resp =
     resp\<lparr>Topics := map (\<lambda>t. t\<lparr>Topic := StripOut pfx (Topic t)\<rparr>) (Topics resp)\<rparr>"

definition ListOffsetsRequestIn :: "string \<Rightarrow> ('x, 'y) TopicsMsg_scheme \<Rightarrow> ('x, 'y) TopicsMsg_scheme" where
  "ListOffsetsRequestIn pfx req =
     req\<lparr>Topics := map (\<lambda>t. t\<lparr>Topic := PrefixIn pfx (Topic t)\<rparr>) (Topics req)\<rparr>"

definition ListOffsetsResponseOut :: "string \<Rightarrow> ('x, 'y) TopicsMsg_scheme \<Rightarrow> ('x, 'y) TopicsMsg_scheme" where
  "ListOffsetsResponseOut pfx resp =
     resp\<lparr>Topics := map (\<lambda>t. t\<lparr>Topic := StripOut pfx (Topic t)\<rparr>) (Topics resp)\<rparr>"

subsection \<open>Metadata\<close>

definition MetadataRequestIn :: "string \<Rightarrow> ('x, 'y) MetadataRequest_scheme \<Rightarrow> ('x, 'y) MetadataRequest_scheme" where
  "MetadataRequestIn pfx req =
     req\<lparr>MetadataTopics := map_option (map (\<lambda>t. t\<lparr>TopicPtr := PrefixInPtr pfx (TopicPtr t)\<rparr>)) (MetadataTopics req)\<rparr>"

definition zero_partition :: "'x MetadataPartition_scheme \<Rightarrow> 'x MetadataPartition_scheme" where
  "zero_partition p =
     p\<lparr>Leader := 0, Replicas := map (\<lambda>_. 0) (Replicas p), ISR := map (\<lambda>_. 0) (ISR p),
       OfflineReplicas := map (\<lambda>_. 0) (OfflineReplicas p)\<rparr>"

fun metadata_topics_out :: "string \<Rightarrow> ('x, 'y) MetadataTopic_scheme list \<Rightarrow> ('x, 'y) MetadataTopic_scheme list" where
  "metadata_topics_out pfx [] = []"
| "metadata_topics_out pfx (t # ts) =
     (case TopicPtr t of
        None \<Rightarrow> metadata_topics_out pfx ts
      | Some n \<Rightarrow>
          if \<not> BelongsToTenant pfx n then metadata_topics_out pfx ts
          else t\<lparr>TopicPtr := StripOutPtr pfx (TopicPtr t),
                 Partitions := map zero_partition (Partitions t)\<rparr> # metadata_topics_out pfx ts)"

definition MetadataResponseOut ::
    "string \<Rightarrow> string \<Rightarrow> int32 \<Rightarrow> ('x, 'y, 'z) MetadataResponse_scheme \<Rightarrow> ('x, 'y, 'z) MetadataResponse_scheme" where
  "MetadataResponseOut pfx advertisedHost advertisedPort resp =
     (let rack = (case Brokers resp of [] \<Rightarrow> None | b # _ \<Rightarrow> Rack b)
      in resp\<lparr>Brokers := [\<lparr>NodeID = 0, Host = advertisedHost, Port = advertisedPort, Rack = rack\<rparr>],
              ControllerID := 0,
              ResponseTopics := metadata_topics_out pfx (ResponseTopics resp)\<rparr>)"

subsection \<open>Topic administration\<close>

definition configResourceTypeTopic :: int8 where "configResourceTypeTopic = 2"
definition configResourceTypeGroup :: int8 where "configResourceTypeGroup = 32"

definition CreateTopicsRequestIn :: "string \<Rightarrow> ('x, 'y) TopicsMsg_scheme \<Rightarrow> ('x, 'y) TopicsMsg_scheme" where
  "CreateTopicsRequestIn pfx req =
     req\<lparr>Topics := map (\<lambda>t. t\<lparr>Topic := PrefixIn pfx (Topic t)\<rparr>) (Topics req)\<rparr>"

definition CreateTopicsResponseOut :: "string \<Rightarrow> ('x, 'y) TopicsMsg_scheme \<Rightarrow> ('x, 'y) TopicsMsg_scheme" where
  "CreateTopicsResponseOut pfx resp =
     resp\<lparr>Topics := map (\<lambda>t. t\<lparr>Topic := StripOut pfx (Topic t)\<rparr>) (Topics resp)\<rparr>"

definition DeleteTopicsRequestIn :: "string \<Rightarrow> ('x, 'y) DeleteTopicsRequest_scheme \<Rightarrow> ('x, 'y) DeleteTopicsRequest_scheme" where
  "DeleteTopicsRequestIn pfx req =
     req\<lparr>TopicNames := map (PrefixIn pfx) (TopicNames req),
         DeleteTopics := map (\<lambda>t. t\<lparr>TopicPtr := PrefixInPtr pfx (TopicPtr t)\<rparr>) (DeleteTopics req)\<rparr>"

definition DeleteTopicsResponseOut :: "string \<Rightarrow> ('x, 'y) DeleteTopicsResponse_scheme \<Rightarrow> ('x, 'y) DeleteTopicsResponse_scheme" where
  "DeleteTopicsResponseOut pfx resp =
     resp\<lparr>DeletedTopics := map (\<lambda>t. t\<lparr>TopicPtr := StripOutPtr pfx (TopicPtr t)\<rparr>) (DeletedTopics resp)\<rparr>"

definition DescribeConfigsRequestIn :: "string \<Rightarrow> ('x, 'y) ConfigsMsg_scheme \<Rightarrow> ('x, 'y) ConfigsMsg_scheme" where
  "DescribeConfigsRequestIn pfx req =
     req\<lparr>Resources := map (\<lambda>r.
       if ResourceType r = configResourceTypeTopic \<or> ResourceType r = configResourceTypeGroup
       then r\<lparr>ResourceName := PrefixIn pfx (ResourceName r)\<rparr> else r) (Resources req)\<rparr>"

fun config_resources_out :: "string \<Rightarrow> 'x ConfigResource_scheme list \<Rightarrow> 'x ConfigResource_scheme list" where
  "config_resources_out pfx [] = []"
| "config_resources_out pfx (r # rs) =
     (if ResourceType r = configResourceTypeTopic \<or> ResourceType r = configResourceTypeGroup
      then if \<not> BelongsToTenant pfx (ResourceName r) then config_resources_out pfx rs
           else r\<lparr>ResourceName := StripOut pfx (ResourceName r)\<rparr> # config_resources_out pfx rs
      else r # config_resources_out pfx rs)"

definition DescribeConfigsResponseOut :: "string \<Rightarrow> ('x, 'y) ConfigsMsg_scheme \<Rightarrow> ('x, 'y) ConfigsMsg_scheme" where
  "DescribeConfigsResponseOut pfx resp = resp\<lparr>Resources := config_resources_out pfx (Resources resp)\<rparr>"

declare ProduceRequestIn_def [rewrite_defs] ProduceResponseOut_def [rewrite_defs]
  FetchRequestIn_def [rewrite_defs] FetchResponseOut_def [rewrite_defs]
  ListOffsetsRequestIn_def [rewrite_defs] ListOffsetsResponseOut_def [rewrite_defs]
  CreateTopicsRequestIn_def [rewrite_defs] CreateTopicsResponseOut_def [rewrite_defs]

subsection \<open>The names of these messages\<close>

definition metadata_request_names :: "('x, 'y) MetadataRequest_scheme \<Rightarrow> string list" where
  "metadata_request_names m = (case MetadataTopics m of None \<Rightarrow> [] | Some ts \<Rightarrow> ptr_names ts)"

definition map_metadata_request :: "(string \<Rightarrow> string) \<Rightarrow> ('x, 'y) MetadataRequest_scheme \<Rightarrow> ('x, 'y) MetadataRequest_scheme" where
  "map_metadata_request f m = m\<lparr>MetadataTopics := map_option (map (on_ptr f)) (MetadataTopics m)\<rparr>"

definition metadata_response_names :: "('x, 'y, 'z) MetadataResponse_scheme \<Rightarrow> string list" where
  "metadata_response_names m = ptr_names (ResponseTopics m)"

definition delete_request_names :: "('x, 'y) DeleteTopicsRequest_scheme \<Rightarrow> string list" where
  "delete_request_names m = TopicNames m @ ptr_names (DeleteTopics m)"

definition map_delete_request :: "(string \<Rightarrow> string) \<Rightarrow> ('x, 'y) DeleteTopicsRequest_scheme \<Rightarrow> ('x, 'y) DeleteTopicsRequest_scheme" where
  "map_delete_request f m =
     m\<lparr>TopicNames := map f (TopicNames m), DeleteTopics := map (on_ptr f) (DeleteTopics m)\<rparr>"

definition delete_response_names :: "('x, 'y) DeleteTopicsResponse_scheme \<Rightarrow> string list" where
  "delete_response_names m = ptr_names (DeletedTopics m)"

definition map_delete_response :: "(string \<Rightarrow> string) \<Rightarrow> ('x, 'y) DeleteTopicsResponse_scheme \<Rightarrow> ('x, 'y) DeleteTopicsResponse_scheme" where
  "map_delete_response f m = m\<lparr>DeletedTopics := map (on_ptr f) (DeletedTopics m)\<rparr>"

definition tenant_resource :: "'x ConfigResource_scheme \<Rightarrow> bool" where
  "tenant_resource r \<longleftrightarrow> ResourceType r = configResourceTypeTopic \<or> ResourceType r = configResourceTypeGroup"

definition config_names :: "('x, 'y) ConfigsMsg_scheme \<Rightarrow> string list" where
  "config_names m = map ResourceName (filter tenant_resource (Resources m))"

definition map_configs :: "(string \<Rightarrow> string) \<Rightarrow> ('x, 'y) ConfigsMsg_scheme \<Rightarrow> ('x, 'y) ConfigsMsg_scheme" where
  "map_configs f m =
     m\<lparr>Resources := map (\<lambda>r. if tenant_resource r then r\<lparr>ResourceName := f (ResourceName r)\<rparr> else r) (Resources m)\<rparr>"

declare topic_names_def [names_defs] metadata_request_names_def [names_defs]
  metadata_response_names_def [names_defs] delete_request_names_def [names_defs]
  delete_response_names_def [names_defs] config_names_def [names_defs]

subsection \<open>Interpretations\<close>

lemma loop_topics: "map (\<lambda>t. t\<lparr>Topic := f (Topic t)\<rparr>) ts = map (on_topic f) ts"
  by (simp add: on_topic_def)

interpretation produce_in: request_rewriter topic_names map_topics ProduceRequestIn
  by unfold_locales (simp add: rewrite_defs map_topics_def loop_topics)

interpretation produce_out: response_rewriter topic_names map_topics ProduceResponseOut
  by unfold_locales (simp add: rewrite_defs map_topics_def loop_topics)

interpretation fetch_in: request_rewriter topic_names map_topics FetchRequestIn
  by unfold_locales (simp add: rewrite_defs map_topics_def loop_topics)

interpretation fetch_out: response_rewriter topic_names map_topics FetchResponseOut
  by unfold_locales (simp add: rewrite_defs map_topics_def loop_topics)

interpretation list_offsets_in: request_rewriter topic_names map_topics ListOffsetsRequestIn
  by unfold_locales (simp add: rewrite_defs map_topics_def loop_topics)

interpretation list_offsets_out: response_rewriter topic_names map_topics ListOffsetsResponseOut
  by unfold_locales (simp add: rewrite_defs map_topics_def loop_topics)

interpretation create_topics_in: request_rewriter topic_names map_topics CreateTopicsRequestIn
  by unfold_locales (simp add: rewrite_defs map_topics_def loop_topics)

interpretation create_topics_out: response_rewriter topic_names map_topics CreateTopicsResponseOut
  by unfold_locales (simp add: rewrite_defs map_topics_def loop_topics)

lemma map_ptr_simps [simp]:
  "map_option (map (on_ptr f)) (map_option (map (on_ptr g)) ts) = map_option (map (on_ptr (\<lambda>n. f (g n)))) ts"
  "map_option (map (on_ptr (\<lambda>n. n))) ts = ts"
  by (cases ts; simp)+

interpretation metadata_in: request_rewriter metadata_request_names map_metadata_request MetadataRequestIn
proof unfold_locales
  show "metadata_request_names (map_metadata_request f m) = map f (metadata_request_names m)" for f m
    by (simp add: metadata_request_names_def map_metadata_request_def split: option.split)
  show "map_metadata_request (\<lambda>n. n) m = m" for m
    by (simp add: map_metadata_request_def option.map_id)
  show "map_metadata_request f (map_metadata_request g m) = map_metadata_request (\<lambda>n. f (g n)) m" for f g m
    by (simp add: map_metadata_request_def)
  show "MetadataRequestIn p m = map_metadata_request (PrefixIn p) m" for p m
    by (simp add: MetadataRequestIn_def map_metadata_request_def on_ptr_def [abs_def])
qed

interpretation delete_topics_in: request_rewriter delete_request_names map_delete_request DeleteTopicsRequestIn
  by unfold_locales
    (simp_all add: delete_request_names_def map_delete_request_def DeleteTopicsRequestIn_def on_ptr_def [symmetric])

interpretation delete_topics_out: response_rewriter delete_response_names map_delete_response DeleteTopicsResponseOut
  by unfold_locales
    (simp_all add: delete_response_names_def map_delete_response_def DeleteTopicsResponseOut_def on_ptr_def [symmetric])

lemma config_loop:
  "DescribeConfigsRequestIn p m = map_configs (PrefixIn p) m"
  by (simp add: DescribeConfigsRequestIn_def map_configs_def tenant_resource_def)

lemma filter_map_resources:
  "filter tenant_resource (map (\<lambda>r. if tenant_resource r then r\<lparr>ResourceName := f (ResourceName r)\<rparr> else r) rs)
    = map (\<lambda>r. r\<lparr>ResourceName := f (ResourceName r)\<rparr>) (filter tenant_resource rs)"
  by (induction rs) (auto simp: tenant_resource_def)

interpretation configs_in: request_rewriter config_names map_configs DescribeConfigsRequestIn
proof unfold_locales
  show "config_names (map_configs f m) = map f (config_names m)" for f m
    by (simp add: config_names_def map_configs_def filter_map_resources comp_def)
  show "map_configs (\<lambda>n. n) m = m" for m
    by (simp add: map_configs_def map_idI)
  show "map_configs f (map_configs g m) = map_configs (\<lambda>n. f (g n)) m" for f g m
    by (auto simp: map_configs_def tenant_resource_def comp_def)
qed (rule config_loop)

lemma config_resources_out_names:
  "map ResourceName (filter tenant_resource (config_resources_out p rs)) =
     map (StripOut p) (filter (BelongsToTenant p) (map ResourceName (filter tenant_resource rs)))"
  by (induction rs) (auto simp: tenant_resource_def)

lemma config_resources_out_others:
  "filter (\<lambda>r. \<not> tenant_resource r) (config_resources_out p rs) = filter (\<lambda>r. \<not> tenant_resource r) rs"
  by (induction rs) (auto simp: tenant_resource_def)

interpretation configs_out: response_filter config_names DescribeConfigsResponseOut
  by unfold_locales (simp add: config_names_def DescribeConfigsResponseOut_def config_resources_out_names)

lemma metadata_topics_out_names:
  "ptr_names (metadata_topics_out p ts) = map (StripOut p) (filter (BelongsToTenant p) (ptr_names ts))"
  by (induction ts) (auto split: option.splits)

lemma ResponseTopics_MetadataResponseOut [simp]:
  "ResponseTopics (MetadataResponseOut p h q m) = metadata_topics_out p (ResponseTopics m)"
  by (simp add: MetadataResponseOut_def Let_def)

interpretation metadata_out: response_filter metadata_response_names "\<lambda>p. MetadataResponseOut p h q" for h q
  by unfold_locales (simp add: metadata_response_names_def metadata_topics_out_names)

lemma metadata_topics_out_node:
  "t \<in> set (metadata_topics_out p ts) \<Longrightarrow> x \<in> set (Partitions t) \<Longrightarrow>
     Leader x = 0 \<and> set (Replicas x) \<union> set (ISR x) \<union> set (OfflineReplicas x) \<subseteq> {0}"
  by (induction ts) (auto simp: zero_partition_def split: option.splits if_splits)

lemma metadata_topics_out_named:
  "t \<in> set (metadata_topics_out p ts) \<Longrightarrow> TopicPtr t \<noteq> None"
  by (induction ts) (auto split: option.splits if_splits)

subsection \<open>Properties\<close>

text \<open>What a client sees in a Metadata response, whatever the broker returned. The topics are
  exactly the tenant's own among those returned, in the broker's order and with the prefix stripped;
  the only broker is node 0 at the proxy's advertised address; the controller and every leader,
  replica, in-sync replica and offline replica is node 0. A client can neither learn a foreign topic
  name nor an upstream broker.\<close>

lemma MetadataResponseOut_view:
  "metadata_response_names (MetadataResponseOut p host port m) =
     map (StripOut p) (filter (BelongsToTenant p) (metadata_response_names m)) \<and>
   map (\<lambda>b. (NodeID b, Host b, Port b)) (Brokers (MetadataResponseOut p host port m)) = [(0, host, port)] \<and>
   ControllerID (MetadataResponseOut p host port m) = 0 \<and>
   (\<forall>t \<in> set (ResponseTopics (MetadataResponseOut p host port m)). TopicPtr t \<noteq> None \<and>
     (\<forall>x \<in> set (Partitions t). Leader x = 0 \<and> set (Replicas x) \<union> set (ISR x) \<union> set (OfflineReplicas x) \<subseteq> {0}))"
  using metadata_out.names_rout [of p host port m] metadata_topics_out_node [of _ p "ResponseTopics m"]
    metadata_topics_out_named [of _ p "ResponseTopics m"]
  by (auto simp: MetadataResponseOut_def Let_def)

text \<open>A response of a two-broker cluster with one topic of each of two tenants.\<close>

definition example_metadata :: "(unit, unit, unit) MetadataResponse_scheme" where
  "example_metadata =
     \<lparr>Brokers = [\<lparr>NodeID = 4, Host = ''k4'', Port = 9093, Rack = None\<rparr>,
                 \<lparr>NodeID = 5, Host = ''k5'', Port = 9093, Rack = None\<rparr>],
      ControllerID = 5,
      ResponseTopics =
        [\<lparr>TopicPtr = Some ''a.orders'', Partitions = [\<lparr>Leader = 4, Replicas = [4, 5], ISR = [4], OfflineReplicas = []\<rparr>]\<rparr>,
         \<lparr>TopicPtr = Some ''b.orders'', Partitions = [\<lparr>Leader = 5, Replicas = [5], ISR = [5], OfflineReplicas = []\<rparr>]\<rparr>,
         \<lparr>TopicPtr = None, Partitions = []\<rparr>]\<rparr>"

end
