(* ===== verification/Rewrite_Groups.thy ===== *)
theory Rewrite_Groups
  imports Kafka_Messages
begin

text \<open>
  \<open>rewrite/groups.go\<close>: the rewriting of the messages that name consumer groups, transactional
  ids and, inside the blobs of the consumer protocol, the subscribed and assigned topics.

  The blobs are decoded and encoded by the message library. A \<open>blob_codec\<close> holds its two calls,
  \<open>ReadFrom\<close> and \<open>AppendTo(nil)\<close>; they are parameters.
\<close>

record 'm blob_codec =
  blob_ReadFrom :: "byte list \<Rightarrow> go_error + 'm"
  blob_AppendTo :: "'m \<Rightarrow> byte list"

definition CoordinatorTypeGroup :: int8 where "CoordinatorTypeGroup = 0"
definition CoordinatorTypeTransaction :: int8 where "CoordinatorTypeTransaction = 1"

subsection \<open>Coordinators and offsets\<close>

definition FindCoordinatorRequestIn :: "string \<Rightarrow> 'x FindCoordinatorRequest_scheme \<Rightarrow> 'x FindCoordinatorRequest_scheme" where
  "FindCoordinatorRequestIn pfx req =
     (if CoordinatorType req \<noteq> CoordinatorTypeGroup \<and> CoordinatorType req \<noteq> CoordinatorTypeTransaction
      then req
      else req\<lparr>CoordinatorKey := PrefixIn pfx (CoordinatorKey req),
               CoordinatorKeys := map (PrefixIn pfx) (CoordinatorKeys req)\<rparr>)"

definition FindCoordinatorResponseOut ::
    "string \<Rightarrow> string \<Rightarrow> int32 \<Rightarrow> ('x, 'y) FindCoordinatorResponse_scheme \<Rightarrow> ('x, 'y) FindCoordinatorResponse_scheme" where
  "FindCoordinatorResponseOut pfx advertisedHost advertisedPort resp =
     resp\<lparr>CoordNodeID := 0, CoordHost := advertisedHost, CoordPort := advertisedPort,
          Coordinators := map (\<lambda>c. c\<lparr>CoordNodeID := 0, CoordHost := advertisedHost,
            CoordPort := advertisedPort, Key := StripOut pfx (Key c)\<rparr>) (Coordinators resp)\<rparr>"

definition OffsetCommitRequestIn :: "string \<Rightarrow> ('x, 'y) GroupTopicsMsg_scheme \<Rightarrow> ('x, 'y) GroupTopicsMsg_scheme" where
  "OffsetCommitRequestIn pfx req =
     req\<lparr>Group := PrefixIn pfx (Group req),
         Topics := map (\<lambda>t. t\<lparr>Topic := PrefixIn pfx (Topic t)\<rparr>) (Topics req)\<rparr>"

definition OffsetCommitResponseOut :: "string \<Rightarrow> ('x, 'y) TopicsMsg_scheme \<Rightarrow> ('x, 'y) TopicsMsg_scheme" where
  "OffsetCommitResponseOut pfx resp =
     resp\<lparr>Topics := map (\<lambda>t. t\<lparr>Topic := StripOut pfx (Topic t)\<rparr>) (Topics resp)\<rparr>"

definition OffsetFetchRequestIn ::
    "string \<Rightarrow> ('x, 'y, 'z) OffsetFetchRequest_scheme \<Rightarrow> ('x, 'y, 'z) OffsetFetchRequest_scheme" where
  "OffsetFetchRequestIn pfx req =
     req\<lparr>Group := PrefixIn pfx (Group req),
         Topics := map (\<lambda>t. t\<lparr>Topic := PrefixIn pfx (Topic t)\<rparr>) (Topics req),
         RequestGroups := map (\<lambda>g. g\<lparr>Group := PrefixIn pfx (Group g),
           Topics := map (\<lambda>t. t\<lparr>Topic := PrefixIn pfx (Topic t)\<rparr>) (Topics g)\<rparr>) (RequestGroups req)\<rparr>"

definition OffsetFetchResponseOut ::
    "string \<Rightarrow> ('x, 'y, 'z) OffsetFetchResponse_scheme \<Rightarrow> ('x, 'y, 'z) OffsetFetchResponse_scheme" where
  "OffsetFetchResponseOut pfx resp =
     resp\<lparr>Topics := map (\<lambda>t. t\<lparr>Topic := StripOut pfx (Topic t)\<rparr>) (Topics resp),
          ResponseGroups := map (\<lambda>g. g\<lparr>Group := StripOut pfx (Group g),
            Topics := map (\<lambda>t. t\<lparr>Topic := StripOut pfx (Topic t)\<rparr>) (Topics g)\<rparr>) (ResponseGroups resp)\<rparr>"

definition OffsetDeleteRequestIn :: "string \<Rightarrow> ('x, 'y) GroupTopicsMsg_scheme \<Rightarrow> ('x, 'y) GroupTopicsMsg_scheme" where
  "OffsetDeleteRequestIn pfx req =
     req\<lparr>Group := PrefixIn pfx (Group req),
         Topics := map (\<lambda>t. t\<lparr>Topic := PrefixIn pfx (Topic t)\<rparr>) (Topics req)\<rparr>"

definition OffsetDeleteResponseOut :: "string \<Rightarrow> ('x, 'y) TopicsMsg_scheme \<Rightarrow> ('x, 'y) TopicsMsg_scheme" where
  "OffsetDeleteResponseOut pfx resp =
     resp\<lparr>Topics := map (\<lambda>t. t\<lparr>Topic := StripOut pfx (Topic t)\<rparr>) (Topics resp)\<rparr>"

subsection \<open>Group membership\<close>

definition consumerProtocolType :: string where
  "consumerProtocolType = ''consumer''"

definition rewriteConsumerSubscription ::
    "('x, 'y) ConsumerMemberMetadata_scheme blob_codec \<Rightarrow> byte list \<Rightarrow> (string \<Rightarrow> string) \<Rightarrow> byte list" where
  "rewriteConsumerSubscription cd meta fn =
     (if length meta = 0 then meta
      else case blob_ReadFrom cd meta of
             Inl err \<Rightarrow> meta
           | Inr m \<Rightarrow> blob_AppendTo cd
               (m\<lparr>SubTopics := map fn (SubTopics m),
                  OwnedPartitions := map (\<lambda>t. t\<lparr>Topic := fn (Topic t)\<rparr>) (OwnedPartitions m)\<rparr>))"

definition rewriteConsumerAssignment ::
    "('x, 'y) ConsumerMemberAssignment blob_codec \<Rightarrow> byte list \<Rightarrow> (string \<Rightarrow> string) \<Rightarrow> byte list" where
  "rewriteConsumerAssignment cd asg fn =
     (if length asg = 0 then asg
      else case blob_ReadFrom cd asg of
             Inl err \<Rightarrow> asg
           | Inr a \<Rightarrow> blob_AppendTo cd
               (a\<lparr>Topics := map (\<lambda>t. t\<lparr>Topic := fn (Topic t)\<rparr>) (Topics a)\<rparr>))"

definition JoinGroupRequestIn ::
    "('s, 't) ConsumerMemberMetadata_scheme blob_codec \<Rightarrow> string \<Rightarrow> ('x, 'y) JoinGroupRequest_scheme \<Rightarrow> ('x, 'y) JoinGroupRequest_scheme" where
  "JoinGroupRequestIn cd pfx req =
     (let req = req\<lparr>GroupID := PrefixIn pfx (GroupID req)\<rparr>
      in if pfx = [] \<or> ProtocolType req \<noteq> consumerProtocolType then req
         else req\<lparr>Protocols := map (\<lambda>p. p\<lparr>Metadata :=
                rewriteConsumerSubscription cd (Metadata p) (\<lambda>t. PrefixIn pfx t)\<rparr>) (Protocols req)\<rparr>)"

definition JoinGroupResponseOut ::
    "('s, 't) ConsumerMemberMetadata_scheme blob_codec \<Rightarrow> string \<Rightarrow> ('x, 'y) JoinGroupResponse_scheme \<Rightarrow> ('x, 'y) JoinGroupResponse_scheme" where
  "JoinGroupResponseOut cd pfx resp =
     (if pfx = [] \<or> (JoinProtocolType resp \<noteq> None \<and> JoinProtocolType resp \<noteq> Some consumerProtocolType)
      then resp
      else resp\<lparr>Members := map (\<lambda>m. m\<lparr>ProtocolMetadata :=
             rewriteConsumerSubscription cd (ProtocolMetadata m) (\<lambda>t. StripOut pfx t)\<rparr>) (Members resp)\<rparr>)"

definition SyncGroupRequestIn ::
    "('s, 't) ConsumerMemberAssignment blob_codec \<Rightarrow> string \<Rightarrow> ('x, 'y) SyncGroupRequest_scheme \<Rightarrow> ('x, 'y) SyncGroupRequest_scheme" where
  "SyncGroupRequestIn cd pfx req =
     (let req = req\<lparr>GroupID := PrefixIn pfx (GroupID req)\<rparr>
      in if pfx = [] \<or> (SyncProtocolType req \<noteq> None \<and> SyncProtocolType req \<noteq> Some consumerProtocolType)
         then req
         else req\<lparr>GroupAssignment := map (\<lambda>a. a\<lparr>Assignment :=
                rewriteConsumerAssignment cd (Assignment a) (\<lambda>t. PrefixIn pfx t)\<rparr>) (GroupAssignment req)\<rparr>)"

definition SyncGroupResponseOut ::
    "('s, 't) ConsumerMemberAssignment blob_codec \<Rightarrow> string \<Rightarrow> 'x SyncGroupResponse_scheme \<Rightarrow> 'x SyncGroupResponse_scheme" where
  "SyncGroupResponseOut cd pfx resp =
     (if pfx = [] \<or> (SyncRespProtocolType resp \<noteq> None \<and> SyncRespProtocolType resp \<noteq> Some consumerProtocolType)
      then resp
      else resp\<lparr>MemberAssignment :=
             rewriteConsumerAssignment cd (MemberAssignment resp) (\<lambda>t. StripOut pfx t)\<rparr>)"

definition HeartbeatRequestIn :: "string \<Rightarrow> 'x GroupMsg_scheme \<Rightarrow> 'x GroupMsg_scheme" where
  "HeartbeatRequestIn pfx req = req\<lparr>GroupID := PrefixIn pfx (GroupID req)\<rparr>"

definition LeaveGroupRequestIn :: "string \<Rightarrow> 'x GroupMsg_scheme \<Rightarrow> 'x GroupMsg_scheme" where
  "LeaveGroupRequestIn pfx req = req\<lparr>GroupID := PrefixIn pfx (GroupID req)\<rparr>"

definition DescribeGroupsRequestIn :: "string \<Rightarrow> 'x GroupsMsg_scheme \<Rightarrow> 'x GroupsMsg_scheme" where
  "DescribeGroupsRequestIn pfx req = req\<lparr>GroupIDs := map (PrefixIn pfx) (GroupIDs req)\<rparr>"

definition describe_group_out ::
    "('s, 't) ConsumerMemberMetadata_scheme blob_codec \<Rightarrow> ('u, 'v) ConsumerMemberAssignment blob_codec \<Rightarrow>
     string \<Rightarrow> ('x, 'y) DescribedGroup_scheme \<Rightarrow> ('x, 'y) DescribedGroup_scheme" where
  "describe_group_out scd acd pfx g =
     (let strip = (\<lambda>t. StripOut pfx t); g = g\<lparr>GroupID := StripOut pfx (GroupID g)\<rparr>
      in if pfx = [] \<or> (DescribedProtocolType g \<noteq> [] \<and> DescribedProtocolType g \<noteq> consumerProtocolType) then g
         else g\<lparr>DescribedMembers := map (\<lambda>m. m\<lparr>
                DescribedMetadata := rewriteConsumerSubscription scd (DescribedMetadata m) strip,
                DescribedAssignment := rewriteConsumerAssignment acd (DescribedAssignment m) strip\<rparr>)
                (DescribedMembers g)\<rparr>)"

definition DescribeGroupsResponseOut ::
    "('s, 't) ConsumerMemberMetadata_scheme blob_codec \<Rightarrow> ('u, 'v) ConsumerMemberAssignment blob_codec \<Rightarrow>
     string \<Rightarrow> ('x, 'y, 'z) DescribeGroupsResponse_scheme \<Rightarrow> ('x, 'y, 'z) DescribeGroupsResponse_scheme" where
  "DescribeGroupsResponseOut scd acd pfx resp =
     resp\<lparr>DescribedGroups := map (describe_group_out scd acd pfx) (DescribedGroups resp)\<rparr>"

fun list_groups_out :: "string \<Rightarrow> 'x GroupMsg_scheme list \<Rightarrow> 'x GroupMsg_scheme list" where
  "list_groups_out pfx [] = []"
| "list_groups_out pfx (g # gs) =
     (if \<not> BelongsToTenant pfx (GroupID g) then list_groups_out pfx gs
      else g\<lparr>GroupID := StripOut pfx (GroupID g)\<rparr> # list_groups_out pfx gs)"

definition ListGroupsResponseOut :: "string \<Rightarrow> ('x, 'y) GroupListMsg_scheme \<Rightarrow> ('x, 'y) GroupListMsg_scheme" where
  "ListGroupsResponseOut pfx resp = resp\<lparr>GroupList := list_groups_out pfx (GroupList resp)\<rparr>"

definition DeleteGroupsRequestIn :: "string \<Rightarrow> 'x GroupsMsg_scheme \<Rightarrow> 'x GroupsMsg_scheme" where
  "DeleteGroupsRequestIn pfx req = req\<lparr>GroupIDs := map (PrefixIn pfx) (GroupIDs req)\<rparr>"

definition DeleteGroupsResponseOut :: "string \<Rightarrow> ('x, 'y) GroupListMsg_scheme \<Rightarrow> ('x, 'y) GroupListMsg_scheme" where
  "DeleteGroupsResponseOut pfx resp =
     resp\<lparr>GroupList := map (\<lambda>g. g\<lparr>GroupID := StripOut pfx (GroupID g)\<rparr>) (GroupList resp)\<rparr>"

subsection \<open>Transactions\<close>

definition InitProducerIDRequestIn :: "string \<Rightarrow> 'x InitProducerIDRequest_scheme \<Rightarrow> 'x InitProducerIDRequest_scheme" where
  "InitProducerIDRequestIn pfx req = req\<lparr>TransactionalIDPtr := PrefixInPtr pfx (TransactionalIDPtr req)\<rparr>"

definition AddPartitionsToTxnRequestIn ::
    "string \<Rightarrow> ('x, 'y, 'z) AddPartitionsToTxnRequest_scheme \<Rightarrow> ('x, 'y, 'z) AddPartitionsToTxnRequest_scheme" where
  "AddPartitionsToTxnRequestIn pfx req =
     req\<lparr>TransactionalID := PrefixIn pfx (TransactionalID req),
         Topics := map (\<lambda>t. t\<lparr>Topic := PrefixIn pfx (Topic t)\<rparr>) (Topics req),
         Transactions := map (\<lambda>tx. tx\<lparr>TransactionalID := PrefixIn pfx (TransactionalID tx),
           Topics := map (\<lambda>t. t\<lparr>Topic := PrefixIn pfx (Topic t)\<rparr>) (Topics tx)\<rparr>) (Transactions req)\<rparr>"

definition AddPartitionsToTxnResponseOut ::
    "string \<Rightarrow> ('x, 'y, 'z) AddPartitionsToTxnResponse_scheme \<Rightarrow> ('x, 'y, 'z) AddPartitionsToTxnResponse_scheme" where
  "AddPartitionsToTxnResponseOut pfx resp =
     resp\<lparr>Topics := map (\<lambda>t. t\<lparr>Topic := StripOut pfx (Topic t)\<rparr>) (Topics resp),
          ResponseTransactions := map (\<lambda>tx. tx\<lparr>TransactionalID := StripOut pfx (TransactionalID tx),
            Topics := map (\<lambda>t. t\<lparr>Topic := StripOut pfx (Topic t)\<rparr>) (Topics tx)\<rparr>) (ResponseTransactions resp)\<rparr>"

definition AddOffsetsToTxnRequestIn :: "string \<Rightarrow> 'x AddOffsetsToTxnRequest_scheme \<Rightarrow> 'x AddOffsetsToTxnRequest_scheme" where
  "AddOffsetsToTxnRequestIn pfx req =
     req\<lparr>OffsetsTransactionalID := PrefixIn pfx (OffsetsTransactionalID req),
         OffsetsGroup := PrefixIn pfx (OffsetsGroup req)\<rparr>"

definition EndTxnRequestIn :: "string \<Rightarrow> 'x EndTxnRequest_scheme \<Rightarrow> 'x EndTxnRequest_scheme" where
  "EndTxnRequestIn pfx req = req\<lparr>EndTransactionalID := PrefixIn pfx (EndTransactionalID req)\<rparr>"

definition TxnOffsetCommitRequestIn ::
    "string \<Rightarrow> ('x, 'y) TxnOffsetCommitRequest_scheme \<Rightarrow> ('x, 'y) TxnOffsetCommitRequest_scheme" where
  "TxnOffsetCommitRequestIn pfx req =
     req\<lparr>CommitTransactionalID := PrefixIn pfx (CommitTransactionalID req),
         Group := PrefixIn pfx (Group req),
         Topics := map (\<lambda>t. t\<lparr>Topic := PrefixIn pfx (Topic t)\<rparr>) (Topics req)\<rparr>"

definition TxnOffsetCommitResponseOut :: "string \<Rightarrow> ('x, 'y) TopicsMsg_scheme \<Rightarrow> ('x, 'y) TopicsMsg_scheme" where
  "TxnOffsetCommitResponseOut pfx resp =
     resp\<lparr>Topics := map (\<lambda>t. t\<lparr>Topic := StripOut pfx (Topic t)\<rparr>) (Topics resp)\<rparr>"

subsection \<open>The names of these messages\<close>

definition group_topics_names :: "('x, 'y) GroupTopicsMsg_scheme \<Rightarrow> string list" where
  "group_topics_names m = Group m # map Topic (Topics m)"

definition map_group_topics :: "(string \<Rightarrow> string) \<Rightarrow> ('x, 'y) GroupTopicsMsg_scheme \<Rightarrow> ('x, 'y) GroupTopicsMsg_scheme" where
  "map_group_topics f m = m\<lparr>Group := f (Group m), Topics := map (on_topic f) (Topics m)\<rparr>"

definition offset_fetch_request_names :: "('x, 'y, 'z) OffsetFetchRequest_scheme \<Rightarrow> string list" where
  "offset_fetch_request_names m =
     Group m # map Topic (Topics m) @ concat (map group_topics_names (RequestGroups m))"

definition map_offset_fetch_request ::
    "(string \<Rightarrow> string) \<Rightarrow> ('x, 'y, 'z) OffsetFetchRequest_scheme \<Rightarrow> ('x, 'y, 'z) OffsetFetchRequest_scheme" where
  "map_offset_fetch_request f m =
     m\<lparr>Group := f (Group m), Topics := map (on_topic f) (Topics m),
       RequestGroups := map (map_group_topics f) (RequestGroups m)\<rparr>"

definition offset_fetch_response_names :: "('x, 'y, 'z) OffsetFetchResponse_scheme \<Rightarrow> string list" where
  "offset_fetch_response_names m =
     map Topic (Topics m) @ concat (map group_topics_names (ResponseGroups m))"

definition map_offset_fetch_response ::
    "(string \<Rightarrow> string) \<Rightarrow> ('x, 'y, 'z) OffsetFetchResponse_scheme \<Rightarrow> ('x, 'y, 'z) OffsetFetchResponse_scheme" where
  "map_offset_fetch_response f m =
     m\<lparr>Topics := map (on_topic f) (Topics m), ResponseGroups := map (map_group_topics f) (ResponseGroups m)\<rparr>"

definition txn_topics_names :: "('x, 'y) TxnTopics_scheme \<Rightarrow> string list" where
  "txn_topics_names m = TransactionalID m # map Topic (Topics m)"

definition map_txn_topics :: "(string \<Rightarrow> string) \<Rightarrow> ('x, 'y) TxnTopics_scheme \<Rightarrow> ('x, 'y) TxnTopics_scheme" where
  "map_txn_topics f m = m\<lparr>TransactionalID := f (TransactionalID m), Topics := map (on_topic f) (Topics m)\<rparr>"

definition add_partitions_request_names :: "('x, 'y, 'z) AddPartitionsToTxnRequest_scheme \<Rightarrow> string list" where
  "add_partitions_request_names m =
     TransactionalID m # map Topic (Topics m) @ concat (map txn_topics_names (Transactions m))"

definition map_add_partitions_request ::
    "(string \<Rightarrow> string) \<Rightarrow> ('x, 'y, 'z) AddPartitionsToTxnRequest_scheme \<Rightarrow> ('x, 'y, 'z) AddPartitionsToTxnRequest_scheme" where
  "map_add_partitions_request f m =
     m\<lparr>TransactionalID := f (TransactionalID m), Topics := map (on_topic f) (Topics m),
       Transactions := map (map_txn_topics f) (Transactions m)\<rparr>"

definition add_partitions_response_names :: "('x, 'y, 'z) AddPartitionsToTxnResponse_scheme \<Rightarrow> string list" where
  "add_partitions_response_names m =
     map Topic (Topics m) @ concat (map txn_topics_names (ResponseTransactions m))"

definition map_add_partitions_response ::
    "(string \<Rightarrow> string) \<Rightarrow> ('x, 'y, 'z) AddPartitionsToTxnResponse_scheme \<Rightarrow> ('x, 'y, 'z) AddPartitionsToTxnResponse_scheme" where
  "map_add_partitions_response f m =
     m\<lparr>Topics := map (on_topic f) (Topics m), ResponseTransactions := map (map_txn_topics f) (ResponseTransactions m)\<rparr>"

definition txn_offset_commit_names :: "('x, 'y) TxnOffsetCommitRequest_scheme \<Rightarrow> string list" where
  "txn_offset_commit_names m = CommitTransactionalID m # Group m # map Topic (Topics m)"

definition map_txn_offset_commit ::
    "(string \<Rightarrow> string) \<Rightarrow> ('x, 'y) TxnOffsetCommitRequest_scheme \<Rightarrow> ('x, 'y) TxnOffsetCommitRequest_scheme" where
  "map_txn_offset_commit f m =
     m\<lparr>CommitTransactionalID := f (CommitTransactionalID m), Group := f (Group m),
       Topics := map (on_topic f) (Topics m)\<rparr>"

definition add_offsets_names :: "'x AddOffsetsToTxnRequest_scheme \<Rightarrow> string list" where
  "add_offsets_names m = [OffsetsTransactionalID m, OffsetsGroup m]"

definition map_add_offsets :: "(string \<Rightarrow> string) \<Rightarrow> 'x AddOffsetsToTxnRequest_scheme \<Rightarrow> 'x AddOffsetsToTxnRequest_scheme" where
  "map_add_offsets f m =
     m\<lparr>OffsetsTransactionalID := f (OffsetsTransactionalID m), OffsetsGroup := f (OffsetsGroup m)\<rparr>"

definition end_txn_names :: "'x EndTxnRequest_scheme \<Rightarrow> string list" where
  "end_txn_names m = [EndTransactionalID m]"

definition map_end_txn :: "(string \<Rightarrow> string) \<Rightarrow> 'x EndTxnRequest_scheme \<Rightarrow> 'x EndTxnRequest_scheme" where
  "map_end_txn f m = m\<lparr>EndTransactionalID := f (EndTransactionalID m)\<rparr>"

definition init_producer_names :: "'x InitProducerIDRequest_scheme \<Rightarrow> string list" where
  "init_producer_names m = (case TransactionalIDPtr m of None \<Rightarrow> [] | Some n \<Rightarrow> [n])"

definition map_init_producer :: "(string \<Rightarrow> string) \<Rightarrow> 'x InitProducerIDRequest_scheme \<Rightarrow> 'x InitProducerIDRequest_scheme" where
  "map_init_producer f m = m\<lparr>TransactionalIDPtr := map_option f (TransactionalIDPtr m)\<rparr>"

definition group_names :: "'x GroupMsg_scheme \<Rightarrow> string list" where
  "group_names m = [GroupID m]"

definition map_group :: "(string \<Rightarrow> string) \<Rightarrow> 'x GroupMsg_scheme \<Rightarrow> 'x GroupMsg_scheme" where
  "map_group f m = m\<lparr>GroupID := f (GroupID m)\<rparr>"

definition groups_names :: "'x GroupsMsg_scheme \<Rightarrow> string list" where
  "groups_names m = GroupIDs m"

definition map_groups :: "(string \<Rightarrow> string) \<Rightarrow> 'x GroupsMsg_scheme \<Rightarrow> 'x GroupsMsg_scheme" where
  "map_groups f m = m\<lparr>GroupIDs := map f (GroupIDs m)\<rparr>"

definition group_list_names :: "('x, 'y) GroupListMsg_scheme \<Rightarrow> string list" where
  "group_list_names m = map GroupID (GroupList m)"

definition map_group_list :: "(string \<Rightarrow> string) \<Rightarrow> ('x, 'y) GroupListMsg_scheme \<Rightarrow> ('x, 'y) GroupListMsg_scheme" where
  "map_group_list f m = m\<lparr>GroupList := map (map_group f) (GroupList m)\<rparr>"

definition tenant_coordinator :: "'x FindCoordinatorRequest_scheme \<Rightarrow> bool" where
  "tenant_coordinator m \<longleftrightarrow>
     CoordinatorType m = CoordinatorTypeGroup \<or> CoordinatorType m = CoordinatorTypeTransaction"

definition find_coordinator_names :: "'x FindCoordinatorRequest_scheme \<Rightarrow> string list" where
  "find_coordinator_names m =
     (if tenant_coordinator m then CoordinatorKey m # CoordinatorKeys m else [])"

definition map_find_coordinator :: "(string \<Rightarrow> string) \<Rightarrow> 'x FindCoordinatorRequest_scheme \<Rightarrow> 'x FindCoordinatorRequest_scheme" where
  "map_find_coordinator f m =
     (if tenant_coordinator m
      then m\<lparr>CoordinatorKey := f (CoordinatorKey m), CoordinatorKeys := map f (CoordinatorKeys m)\<rparr> else m)"

text \<open>The names a blob carries: those of its decoded form, none when it does not decode.\<close>

definition subscription_names :: "('x, 'y) ConsumerMemberMetadata_scheme \<Rightarrow> string list" where
  "subscription_names m = SubTopics m @ map Topic (OwnedPartitions m)"

definition map_subscription ::
    "(string \<Rightarrow> string) \<Rightarrow> ('x, 'y) ConsumerMemberMetadata_scheme \<Rightarrow> ('x, 'y) ConsumerMemberMetadata_scheme" where
  "map_subscription f m =
     m\<lparr>SubTopics := map f (SubTopics m), OwnedPartitions := map (on_topic f) (OwnedPartitions m)\<rparr>"

definition blob_names :: "'m blob_codec \<Rightarrow> ('m \<Rightarrow> string list) \<Rightarrow> byte list \<Rightarrow> string list" where
  "blob_names cd nm b =
     (if b = [] then [] else case blob_ReadFrom cd b of Inl e \<Rightarrow> [] | Inr m \<Rightarrow> nm m)"

definition blob_ok :: "'m blob_codec \<Rightarrow> bool" where
  "blob_ok cd \<longleftrightarrow> (\<forall>m. blob_ReadFrom cd (blob_AppendTo cd m) = Inr m \<and> blob_AppendTo cd m \<noteq> [])"

definition join_group_names ::
    "('s, 't) ConsumerMemberMetadata_scheme blob_codec \<Rightarrow> ('x, 'y) JoinGroupRequest_scheme \<Rightarrow> string list" where
  "join_group_names cd m =
     GroupID m # (if ProtocolType m = consumerProtocolType
                  then concat (map (\<lambda>p. blob_names cd subscription_names (Metadata p)) (Protocols m)) else [])"

definition sync_group_names ::
    "('s, 't) ConsumerMemberAssignment blob_codec \<Rightarrow> ('x, 'y) SyncGroupRequest_scheme \<Rightarrow> string list" where
  "sync_group_names cd m =
     GroupID m # (if SyncProtocolType m = None \<or> SyncProtocolType m = Some consumerProtocolType
                  then concat (map (\<lambda>a. blob_names cd topic_names (Assignment a)) (GroupAssignment m)) else [])"

subsection \<open>Interpretations\<close>

lemma loop_on_topic: "map (\<lambda>t. t\<lparr>Topic := f (Topic t)\<rparr>) ts = map (on_topic f) ts"
  by (simp add: on_topic_def)

interpretation group_topics_msg: named_message group_topics_names map_group_topics
  by unfold_locales (simp_all add: group_topics_names_def map_group_topics_def)

interpretation txn_topics_msg: named_message txn_topics_names map_txn_topics
  by unfold_locales (simp_all add: txn_topics_names_def map_txn_topics_def)

lemmas part_msg_simps =
  group_topics_msg.names_mapn group_topics_msg.mapn_id group_topics_msg.mapn_mapn
  txn_topics_msg.names_mapn txn_topics_msg.mapn_id txn_topics_msg.mapn_mapn
  map_concat comp_def map_idI

interpretation offset_commit_in: request_rewriter group_topics_names map_group_topics OffsetCommitRequestIn
  by unfold_locales (simp add: OffsetCommitRequestIn_def map_group_topics_def loop_on_topic)

interpretation offset_delete_in: request_rewriter group_topics_names map_group_topics OffsetDeleteRequestIn
  by unfold_locales (simp add: OffsetDeleteRequestIn_def map_group_topics_def loop_on_topic)

interpretation offset_commit_out: response_rewriter topic_names map_topics OffsetCommitResponseOut
  by unfold_locales (simp add: OffsetCommitResponseOut_def map_topics_def loop_on_topic)

interpretation offset_delete_out: response_rewriter topic_names map_topics OffsetDeleteResponseOut
  by unfold_locales (simp add: OffsetDeleteResponseOut_def map_topics_def loop_on_topic)

interpretation txn_offset_commit_out: response_rewriter topic_names map_topics TxnOffsetCommitResponseOut
  by unfold_locales (simp add: TxnOffsetCommitResponseOut_def map_topics_def loop_on_topic)

interpretation offset_fetch_in: request_rewriter offset_fetch_request_names map_offset_fetch_request OffsetFetchRequestIn
proof unfold_locales
  show "offset_fetch_request_names (map_offset_fetch_request f m) = map f (offset_fetch_request_names m)" for f m
    by (simp add: offset_fetch_request_names_def map_offset_fetch_request_def part_msg_simps)
  show "map_offset_fetch_request (\<lambda>n. n) m = m" for m
    by (simp add: map_offset_fetch_request_def part_msg_simps)
  show "map_offset_fetch_request f (map_offset_fetch_request g m) = map_offset_fetch_request (\<lambda>n. f (g n)) m" for f g m
    by (simp add: map_offset_fetch_request_def part_msg_simps)
  show "OffsetFetchRequestIn p m = map_offset_fetch_request (PrefixIn p) m" for p m
    by (simp add: OffsetFetchRequestIn_def map_offset_fetch_request_def map_group_topics_def [abs_def] loop_on_topic)
qed

interpretation offset_fetch_out: response_rewriter offset_fetch_response_names map_offset_fetch_response OffsetFetchResponseOut
proof unfold_locales
  show "offset_fetch_response_names (map_offset_fetch_response f m) = map f (offset_fetch_response_names m)" for f m
    by (simp add: offset_fetch_response_names_def map_offset_fetch_response_def part_msg_simps)
  show "map_offset_fetch_response (\<lambda>n. n) m = m" for m
    by (simp add: map_offset_fetch_response_def part_msg_simps)
  show "map_offset_fetch_response f (map_offset_fetch_response g m) = map_offset_fetch_response (\<lambda>n. f (g n)) m" for f g m
    by (simp add: map_offset_fetch_response_def part_msg_simps)
  show "OffsetFetchResponseOut p m = map_offset_fetch_response (StripOut p) m" for p m
    by (simp add: OffsetFetchResponseOut_def map_offset_fetch_response_def map_group_topics_def [abs_def] loop_on_topic)
qed

interpretation add_partitions_in: request_rewriter add_partitions_request_names map_add_partitions_request AddPartitionsToTxnRequestIn
proof unfold_locales
  show "add_partitions_request_names (map_add_partitions_request f m) = map f (add_partitions_request_names m)" for f m
    by (simp add: add_partitions_request_names_def map_add_partitions_request_def part_msg_simps)
  show "map_add_partitions_request (\<lambda>n. n) m = m" for m
    by (simp add: map_add_partitions_request_def part_msg_simps)
  show "map_add_partitions_request f (map_add_partitions_request g m) = map_add_partitions_request (\<lambda>n. f (g n)) m" for f g m
    by (simp add: map_add_partitions_request_def part_msg_simps)
  show "AddPartitionsToTxnRequestIn p m = map_add_partitions_request (PrefixIn p) m" for p m
    by (simp add: AddPartitionsToTxnRequestIn_def map_add_partitions_request_def map_txn_topics_def [abs_def] loop_on_topic)
qed

interpretation add_partitions_out: response_rewriter add_partitions_response_names map_add_partitions_response AddPartitionsToTxnResponseOut
proof unfold_locales
  show "add_partitions_response_names (map_add_partitions_response f m) = map f (add_partitions_response_names m)" for f m
    by (simp add: add_partitions_response_names_def map_add_partitions_response_def part_msg_simps)
  show "map_add_partitions_response (\<lambda>n. n) m = m" for m
    by (simp add: map_add_partitions_response_def part_msg_simps)
  show "map_add_partitions_response f (map_add_partitions_response g m) = map_add_partitions_response (\<lambda>n. f (g n)) m" for f g m
    by (simp add: map_add_partitions_response_def part_msg_simps)
  show "AddPartitionsToTxnResponseOut p m = map_add_partitions_response (StripOut p) m" for p m
    by (simp add: AddPartitionsToTxnResponseOut_def map_add_partitions_response_def map_txn_topics_def [abs_def] loop_on_topic)
qed

interpretation txn_offset_commit_in: request_rewriter txn_offset_commit_names map_txn_offset_commit TxnOffsetCommitRequestIn
  by unfold_locales
    (simp_all add: txn_offset_commit_names_def map_txn_offset_commit_def TxnOffsetCommitRequestIn_def loop_on_topic)

interpretation add_offsets_in: request_rewriter add_offsets_names map_add_offsets AddOffsetsToTxnRequestIn
  by unfold_locales (simp_all add: add_offsets_names_def map_add_offsets_def AddOffsetsToTxnRequestIn_def)

interpretation end_txn_in: request_rewriter end_txn_names map_end_txn EndTxnRequestIn
  by unfold_locales (simp_all add: end_txn_names_def map_end_txn_def EndTxnRequestIn_def)

interpretation init_producer_in: request_rewriter init_producer_names map_init_producer InitProducerIDRequestIn
  by unfold_locales
    (simp_all add: init_producer_names_def map_init_producer_def InitProducerIDRequestIn_def
      option.map_comp comp_def option.map_ident split: option.split)

interpretation heartbeat_in: request_rewriter group_names map_group HeartbeatRequestIn
  by unfold_locales (simp_all add: group_names_def map_group_def HeartbeatRequestIn_def)

interpretation leave_group_in: request_rewriter group_names map_group LeaveGroupRequestIn
  by unfold_locales (simp add: map_group_def LeaveGroupRequestIn_def)

interpretation describe_groups_in: request_rewriter groups_names map_groups DescribeGroupsRequestIn
  by unfold_locales (simp_all add: groups_names_def map_groups_def DescribeGroupsRequestIn_def comp_def)

interpretation delete_groups_in: request_rewriter groups_names map_groups DeleteGroupsRequestIn
  by unfold_locales (simp add: map_groups_def DeleteGroupsRequestIn_def)

interpretation delete_groups_out: response_rewriter group_list_names map_group_list DeleteGroupsResponseOut
  by unfold_locales
    (simp_all add: group_list_names_def map_group_list_def DeleteGroupsResponseOut_def map_group_def
      comp_def map_idI)

interpretation find_coordinator_in: request_rewriter find_coordinator_names map_find_coordinator FindCoordinatorRequestIn
  by unfold_locales
    (auto simp: find_coordinator_names_def map_find_coordinator_def FindCoordinatorRequestIn_def
      tenant_coordinator_def comp_def)

lemma list_groups_out_names:
  "map GroupID (list_groups_out p gs) = map (StripOut p) (filter (BelongsToTenant p) (map GroupID gs))"
  by (induction gs) auto

interpretation list_groups_out: response_filter group_list_names ListGroupsResponseOut
  by unfold_locales (simp add: group_list_names_def ListGroupsResponseOut_def list_groups_out_names)

subsection \<open>Blobs of the consumer protocol\<close>

lemma rewriteConsumerSubscription_map:
  "rewriteConsumerSubscription cd b f =
     (if b = [] then b else case blob_ReadFrom cd b of Inl e \<Rightarrow> b | Inr m \<Rightarrow> blob_AppendTo cd (map_subscription f m))"
  by (simp add: rewriteConsumerSubscription_def map_subscription_def loop_on_topic split: sum.split)

lemma rewriteConsumerAssignment_map:
  "rewriteConsumerAssignment cd b f =
     (if b = [] then b else case blob_ReadFrom cd b of Inl e \<Rightarrow> b | Inr a \<Rightarrow> blob_AppendTo cd (map_topics f a))"
  by (simp add: rewriteConsumerAssignment_def map_topics_def loop_on_topic split: sum.split)

interpretation subscription_msg: named_message subscription_names map_subscription
  by unfold_locales (simp_all add: subscription_names_def map_subscription_def comp_def)

lemma blob_names_subscription:
  "blob_ok cd \<Longrightarrow>
   blob_names cd subscription_names (rewriteConsumerSubscription cd b f) = map f (blob_names cd subscription_names b)"
  by (auto simp: blob_names_def blob_ok_def rewriteConsumerSubscription_map subscription_msg.names_mapn split: sum.splits)

lemma blob_names_assignment:
  "blob_ok cd \<Longrightarrow>
   blob_names cd topic_names (rewriteConsumerAssignment cd b f) = map f (blob_names cd topic_names b)"
  by (auto simp: blob_names_def blob_ok_def rewriteConsumerAssignment_map topics_msg.names_mapn split: sum.splits)

lemma join_group_prefixing: "blob_ok cd \<Longrightarrow> prefixing (join_group_names cd) (JoinGroupRequestIn cd)"
  by unfold_locales
    (auto simp: join_group_names_def JoinGroupRequestIn_def Let_def blob_names_subscription map_concat comp_def)

lemma sync_group_prefixing: "blob_ok cd \<Longrightarrow> prefixing (sync_group_names cd) (SyncGroupRequestIn cd)"
  by unfold_locales
    (auto simp: sync_group_names_def SyncGroupRequestIn_def Let_def blob_names_assignment map_concat comp_def)

lemma subscription_roundtrip:
  assumes "blob_ok cd" and "blob_ReadFrom cd b = Inr m" and "b \<noteq> []"
  shows "rewriteConsumerSubscription cd (rewriteConsumerSubscription cd b (PrefixIn p)) (StripOut p) = blob_AppendTo cd m"
  using assms by (auto simp: rewriteConsumerSubscription_map blob_ok_def subscription_msg.mapn_strip_prefix)

lemma assignment_roundtrip:
  assumes "blob_ok cd" and "blob_ReadFrom cd b = Inr m" and "b \<noteq> []"
  shows "rewriteConsumerAssignment cd (rewriteConsumerAssignment cd b (PrefixIn p)) (StripOut p) = blob_AppendTo cd m"
  using assms by (auto simp: rewriteConsumerAssignment_map blob_ok_def topics_msg.mapn_strip_prefix)

subsection \<open>An instance of the blob codec\<close>

text \<open>A self-delimiting encoding of lists of strings, to show that the hypotheses on the codec can
  hold: 1 announces a character, 0 ends a string, 2 announces a string, 3 ends a list.\<close>

fun enc_string :: "string \<Rightarrow> byte list" where
  "enc_string [] = [0]"
| "enc_string (c # cs) = 1 # byte_of_char c # enc_string cs"

fun enc_strings :: "string list \<Rightarrow> byte list" where
  "enc_strings [] = [3]"
| "enc_strings (s # ss) = 2 # enc_string s @ enc_strings ss"

fun dec_string :: "byte list \<Rightarrow> (string \<times> byte list) option" where
  "dec_string (x # bs) =
     (if x = 1 then case bs of [] \<Rightarrow> None
        | b # bs \<Rightarrow> map_option (\<lambda>(s, r). (char_of_byte b # s, r)) (dec_string bs)
      else if x = 0 then Some ([], bs) else None)"
| "dec_string [] = None"

fun dec_strings :: "nat \<Rightarrow> byte list \<Rightarrow> (string list \<times> byte list) option" where
  "dec_strings 0 bs = None"
| "dec_strings (Suc n) bs =
     (case bs of [] \<Rightarrow> None
      | x # bs \<Rightarrow> if x = 3 then Some ([], bs) else if x = 2
          then (case dec_string bs of None \<Rightarrow> None
                | Some (s, r) \<Rightarrow> map_option (\<lambda>(ss, r). (s # ss, r)) (dec_strings n r))
          else None)"

lemma dec_enc_string [simp]: "dec_string (enc_string s @ r) = Some (s, r)"
  by (induction s) auto

lemma length_enc_strings: "length ss < length (enc_strings ss)"
  by (induction ss) auto

lemma dec_enc_strings: "length ss < n \<Longrightarrow> dec_strings n (enc_strings ss @ r) = Some (ss, r)"
  by (induction ss arbitrary: n) (case_tac n, auto)+

definition example_subscription_codec :: "(unit, unit) ConsumerMemberMetadata_scheme blob_codec" where
  "example_subscription_codec =
     \<lparr>blob_ReadFrom = (\<lambda>b. case dec_strings (length b) b of None \<Rightarrow> Inl EOF
        | Some (ts, r) \<Rightarrow> (case dec_strings (length r) r of None \<Rightarrow> Inl EOF
          | Some (os, r) \<Rightarrow> Inr \<lparr>SubTopics = ts, OwnedPartitions = map (\<lambda>t. \<lparr>Topic = t\<rparr>) os\<rparr>)),
      blob_AppendTo = (\<lambda>m. enc_strings (SubTopics m) @ enc_strings (map Topic (OwnedPartitions m)))\<rparr>"

definition example_assignment_codec :: "(unit, unit) ConsumerMemberAssignment blob_codec" where
  "example_assignment_codec =
     \<lparr>blob_ReadFrom = (\<lambda>b. case dec_strings (length b) b of None \<Rightarrow> Inl EOF
        | Some (ts, r) \<Rightarrow> Inr \<lparr>Topics = map (\<lambda>t. \<lparr>Topic = t\<rparr>) ts\<rparr>),
      blob_AppendTo = (\<lambda>m. enc_strings (map Topic (Topics m)))\<rparr>"

lemma map_Topic_unit [simp]: "map (\<lambda>t. \<lparr>Topic = Topic t\<rparr>) (ts :: unit NamedTopic_scheme list) = ts"
  by (simp add: map_idI)

lemma enc_strings_nonempty [simp]: "enc_strings ss \<noteq> []"
  by (cases ss) auto

lemma dec_strings_length [simp]:
  "dec_strings (length (enc_strings ss)) (enc_strings ss) = Some (ss, [])"
  "dec_strings (length (enc_strings ss) + length r) (enc_strings ss @ r) = Some (ss, r)"
  using dec_enc_strings [of ss _ "[]"] dec_enc_strings [of ss _ r] length_enc_strings [of ss]
  by (auto simp: trans_less_add1)

lemma example_subscription_codec_ok: "blob_ok example_subscription_codec"
  by (simp add: blob_ok_def example_subscription_codec_def comp_def)

lemma example_assignment_codec_ok: "blob_ok example_assignment_codec"
  by (simp add: blob_ok_def example_assignment_codec_def comp_def)

subsection \<open>Properties\<close>


definition example_join :: "(unit, unit) JoinGroupRequest_scheme" where
  "example_join = \<lparr>GroupID = ''g'', ProtocolType = ''consumer'',
     Protocols = [\<lparr>Metadata = blob_AppendTo example_subscription_codec \<lparr>SubTopics = [''t''], OwnedPartitions = []\<rparr>\<rparr>]\<rparr>"

definition example_join_response :: "(unit, unit) JoinGroupResponse_scheme" where
  "example_join_response = \<lparr>JoinProtocolType = None,
     Members = map (\<lambda>pr. \<lparr>ProtocolMetadata = Metadata pr\<rparr>)
       (Protocols (JoinGroupRequestIn example_subscription_codec ''a.'' example_join))\<rparr>"



definition example_assignment :: "(unit, unit) ConsumerMemberAssignment" where
  "example_assignment = \<lparr>Topics = [\<lparr>Topic = ''t''\<rparr>]\<rparr>"

definition example_sync :: "(unit, unit) SyncGroupRequest_scheme" where
  "example_sync = \<lparr>GroupID = ''g'', SyncProtocolType = Some ''consumer'',
     GroupAssignment = [\<lparr>Assignment = blob_AppendTo example_assignment_codec example_assignment\<rparr>]\<rparr>"

definition example_sync_response :: "unit SyncGroupResponse_scheme" where
  "example_sync_response = \<lparr>SyncRespProtocolType = Some ''consumer'',
     MemberAssignment = rewriteConsumerAssignment example_assignment_codec
       (blob_AppendTo example_assignment_codec example_assignment) (PrefixIn ''a.'')\<rparr>"


end
