(* ===== verification/Proxy_Handlers.thy ===== *)
theory Proxy_Handlers
  imports Proxy_Conn Rewrite_Topics Rewrite_Groups
begin

text \<open>
  \<open>proxy/rewrite.go\<close>, \<open>proxy/rewrite_groups.go\<close> and \<open>proxy/rewrite_admin.go\<close>: the handlers that
  decode a request, rewrite its names, make a round trip to the tenant's broker, rewrite the response
  and encode it for the client.

  The record \<open>kmsg\<close> holds, per API, the calls of the message library. The fields of a message that
  kroxy does not touch have the type variable \<open>'x\<close>, and so do the messages it never looks into. All
  handlers have the shape of \<open>rewriting\<close>; what differs is the API, the two rewriters, a check on the
  request (Produce) and the use of the advertised address (Metadata, FindCoordinator). Debug output
  is left out here; the texts it logs are in \<open>Proxy_Debug\<close>.
\<close>

subsection \<open>The message library\<close>

record 'x kmsg =
  k_Metadata :: "(('x, 'x) MetadataRequest_scheme, ('x, 'x, 'x) MetadataResponse_scheme) kapi"
  k_Produce :: "(('x, 'x) ProduceRequest_scheme, ('x, 'x) TopicsMsg_scheme) kapi"
  k_Fetch :: "(('x, 'x) TopicsMsg_scheme, ('x, 'x) TopicsMsg_scheme) kapi"
  k_ListOffsets :: "(('x, 'x) TopicsMsg_scheme, ('x, 'x) TopicsMsg_scheme) kapi"
  k_FindCoordinator :: "('x FindCoordinatorRequest_scheme, ('x, 'x) FindCoordinatorResponse_scheme) kapi"
  k_OffsetCommit :: "(('x, 'x) GroupTopicsMsg_scheme, ('x, 'x) TopicsMsg_scheme) kapi"
  k_OffsetFetch :: "(('x, 'x, 'x) OffsetFetchRequest_scheme, ('x, 'x, 'x) OffsetFetchResponse_scheme) kapi"
  k_OffsetDelete :: "(('x, 'x) GroupTopicsMsg_scheme, ('x, 'x) TopicsMsg_scheme) kapi"
  k_JoinGroup :: "(('x, 'x) JoinGroupRequest_scheme, ('x, 'x) JoinGroupResponse_scheme) kapi"
  k_SyncGroup :: "(('x, 'x) SyncGroupRequest_scheme, 'x SyncGroupResponse_scheme) kapi"
  k_Heartbeat :: "('x GroupMsg_scheme, 'x) kapi"
  k_LeaveGroup :: "('x GroupMsg_scheme, 'x) kapi"
  k_DescribeGroups :: "('x GroupsMsg_scheme, ('x, 'x, 'x) DescribeGroupsResponse_scheme) kapi"
  k_ListGroups :: "('x, ('x, 'x) GroupListMsg_scheme) kapi"
  k_DeleteGroups :: "('x GroupsMsg_scheme, ('x, 'x) GroupListMsg_scheme) kapi"
  k_InitProducerID :: "('x InitProducerIDRequest_scheme, 'x) kapi"
  k_AddPartitionsToTxn :: "(('x, 'x, 'x) AddPartitionsToTxnRequest_scheme, ('x, 'x, 'x) AddPartitionsToTxnResponse_scheme) kapi"
  k_AddOffsetsToTxn :: "('x AddOffsetsToTxnRequest_scheme, 'x) kapi"
  k_EndTxn :: "('x EndTxnRequest_scheme, 'x) kapi"
  k_TxnOffsetCommit :: "(('x, 'x) TxnOffsetCommitRequest_scheme, ('x, 'x) TopicsMsg_scheme) kapi"
  k_CreateTopics :: "(('x, 'x) TopicsMsg_scheme, ('x, 'x) TopicsMsg_scheme) kapi"
  k_DeleteTopics :: "(('x, 'x) DeleteTopicsRequest_scheme, ('x, 'x) DeleteTopicsResponse_scheme) kapi"
  k_DescribeConfigs :: "(('x, 'x) ConfigsMsg_scheme, ('x, 'x) ConfigsMsg_scheme) kapi"
  k_Subscription :: "('x, 'x) ConsumerMemberMetadata_scheme blob_codec"
  k_Assignment :: "('x, 'x) ConsumerMemberAssignment blob_codec"

subsection \<open>The steps of a handler\<close>

definition advertised :: "(conn, string \<times> int32) op" where
  "advertised =
     op_bind (op_get (\<lambda>c. srv_Advertised (cfg c))) (\<lambda>addr.
     case SplitHostPort addr of
       Inl err \<Rightarrow> op_fail (Wrap err ''advertised'')
     | Inr (host, portStr) \<Rightarrow>
         (case Atoi portStr of
            Inl err \<Rightarrow> op_fail (Wrap err ''advertised'')
          | Inr port \<Rightarrow> op_return (host, word_of_int port)))"

definition roundTripTyped :: "('q, 'p) kapi \<Rightarrow> int16 \<Rightarrow> int16 \<Rightarrow> 'q \<Rightarrow> string \<Rightarrow> (conn, 'p) op" where
  "roundTripTyped api key ver req clientID =
     op_bind (op_wrap ''roundTripTyped'' (on_upstream (RoundTripRequest api key ver req clientID))) (\<lambda>body.
     op_lift (go_wrap ''roundTripTyped'' (ReadResp api ver body)))"

definition writeTypedResponse :: "('q, 'p) kapi \<Rightarrow> RequestHeader \<Rightarrow> 'p \<Rightarrow> (conn, unit) op" where
  "writeTypedResponse api hdr resp =
     on_nc (write_frame
       (EncodeResponse (AppendResp api (APIVersion hdr)) resp (CorrelationID hdr) (APIKey hdr) (APIVersion hdr)))"

definition rewriting ::
    "string \<Rightarrow> ('q, 'p) kapi \<Rightarrow> int16 \<Rightarrow> (string \<Rightarrow> 'q \<Rightarrow> 'q) \<Rightarrow> ('q \<Rightarrow> go_error option) \<Rightarrow>
     (string \<Rightarrow> 'p \<Rightarrow> (conn, 'p) op) \<Rightarrow> RequestHeader \<Rightarrow> byte list \<Rightarrow> (conn, unit) op" where
  "rewriting who api key rin rejects rout hdr body =
     op_bind (op_lift (go_wrap who (ReadReq api (APIVersion hdr) body))) (\<lambda>req.
     op_bind (op_get (\<lambda>c. TopicPrefix (tenant c))) (\<lambda>pfx.
     let req = rin pfx req in
     case rejects req of
       Some err \<Rightarrow> op_fail err
     | None \<Rightarrow>
         op_bind (op_wrap who (roundTripTyped api key (APIVersion hdr) req (ClientID hdr))) (\<lambda>resp.
         op_bind (rout pfx resp) (\<lambda>resp.
         writeTypedResponse api hdr resp))))"

definition rewritten :: "(string \<Rightarrow> 'p \<Rightarrow> 'p) \<Rightarrow> string \<Rightarrow> 'p \<Rightarrow> (conn, 'p) op" where
  "rewritten f pfx resp = op_return (f pfx resp)"

definition with_advertised :: "string \<Rightarrow> (string \<Rightarrow> string \<Rightarrow> int32 \<Rightarrow> 'p \<Rightarrow> 'p) \<Rightarrow> string \<Rightarrow> 'p \<Rightarrow> (conn, 'p) op" where
  "with_advertised who f pfx resp =
     op_bind (op_wrap who advertised) (\<lambda>(host, port). op_return (f pfx host port resp))"

abbreviation accept_all :: "'q \<Rightarrow> go_error option" where
  "accept_all \<equiv> (\<lambda>_. None)"

abbreviation unchanged :: "string \<Rightarrow> 'p \<Rightarrow> 'p" where
  "unchanged \<equiv> (\<lambda>_ m. m)"

subsection \<open>The handlers\<close>

type_synonym handler = "RequestHeader \<Rightarrow> byte list \<Rightarrow> (conn, unit) op"

definition handleMetadata :: "'x kmsg \<Rightarrow> handler" where
  "handleMetadata K = rewriting ''handleMetadata'' (k_Metadata K) MetadataKey MetadataRequestIn accept_all
     (with_advertised ''handleMetadata'' MetadataResponseOut)"

definition acks_zero :: "('x, 'y) ProduceRequest_scheme \<Rightarrow> go_error option" where
  "acks_zero req =
     (if Acks req = 0 then Some (ErrNew ''handleProduce: acks=0 produce is not supported by the proxy'') else None)"

definition handleProduce :: "'x kmsg \<Rightarrow> handler" where
  "handleProduce K = rewriting ''handleProduce'' (k_Produce K) ProduceKey ProduceRequestIn acks_zero
     (rewritten ProduceResponseOut)"

definition handleFetch :: "'x kmsg \<Rightarrow> handler" where
  "handleFetch K = rewriting ''handleFetch'' (k_Fetch K) FetchKey FetchRequestIn accept_all
     (rewritten FetchResponseOut)"

definition handleListOffsets :: "'x kmsg \<Rightarrow> handler" where
  "handleListOffsets K = rewriting ''handleListOffsets'' (k_ListOffsets K) ListOffsetsKey ListOffsetsRequestIn accept_all
     (rewritten ListOffsetsResponseOut)"

definition handleFindCoordinator :: "'x kmsg \<Rightarrow> handler" where
  "handleFindCoordinator K = rewriting ''handleFindCoordinator'' (k_FindCoordinator K) FindCoordinatorKey
     FindCoordinatorRequestIn accept_all (with_advertised ''handleFindCoordinator'' FindCoordinatorResponseOut)"

definition handleOffsetCommit :: "'x kmsg \<Rightarrow> handler" where
  "handleOffsetCommit K = rewriting ''handleOffsetCommit'' (k_OffsetCommit K) OffsetCommitKey OffsetCommitRequestIn accept_all
     (rewritten OffsetCommitResponseOut)"

definition handleOffsetFetch :: "'x kmsg \<Rightarrow> handler" where
  "handleOffsetFetch K = rewriting ''handleOffsetFetch'' (k_OffsetFetch K) OffsetFetchKey OffsetFetchRequestIn accept_all
     (rewritten OffsetFetchResponseOut)"

definition handleOffsetDelete :: "'x kmsg \<Rightarrow> handler" where
  "handleOffsetDelete K = rewriting ''handleOffsetDelete'' (k_OffsetDelete K) OffsetDeleteKey OffsetDeleteRequestIn accept_all
     (rewritten OffsetDeleteResponseOut)"

definition handleJoinGroup :: "'x kmsg \<Rightarrow> handler" where
  "handleJoinGroup K = rewriting ''handleJoinGroup'' (k_JoinGroup K) JoinGroupKey
     (JoinGroupRequestIn (k_Subscription K)) accept_all (rewritten (JoinGroupResponseOut (k_Subscription K)))"

definition handleSyncGroup :: "'x kmsg \<Rightarrow> handler" where
  "handleSyncGroup K = rewriting ''handleSyncGroup'' (k_SyncGroup K) SyncGroupKey
     (SyncGroupRequestIn (k_Assignment K)) accept_all (rewritten (SyncGroupResponseOut (k_Assignment K)))"

definition handleHeartbeat :: "'x kmsg \<Rightarrow> handler" where
  "handleHeartbeat K = rewriting ''handleHeartbeat'' (k_Heartbeat K) HeartbeatKey HeartbeatRequestIn accept_all
     (rewritten unchanged)"

definition handleLeaveGroup :: "'x kmsg \<Rightarrow> handler" where
  "handleLeaveGroup K = rewriting ''handleLeaveGroup'' (k_LeaveGroup K) LeaveGroupKey LeaveGroupRequestIn accept_all
     (rewritten unchanged)"

definition handleDescribeGroups :: "'x kmsg \<Rightarrow> handler" where
  "handleDescribeGroups K = rewriting ''handleDescribeGroups'' (k_DescribeGroups K) DescribeGroupsKey
     DescribeGroupsRequestIn accept_all (rewritten (DescribeGroupsResponseOut (k_Subscription K) (k_Assignment K)))"

definition handleListGroups :: "'x kmsg \<Rightarrow> handler" where
  "handleListGroups K = rewriting ''handleListGroups'' (k_ListGroups K) ListGroupsKey unchanged accept_all
     (rewritten ListGroupsResponseOut)"

definition handleDeleteGroups :: "'x kmsg \<Rightarrow> handler" where
  "handleDeleteGroups K = rewriting ''handleDeleteGroups'' (k_DeleteGroups K) DeleteGroupsKey DeleteGroupsRequestIn accept_all
     (rewritten DeleteGroupsResponseOut)"

definition handleInitProducerID :: "'x kmsg \<Rightarrow> handler" where
  "handleInitProducerID K = rewriting ''handleInitProducerID'' (k_InitProducerID K) InitProducerIDKey
     InitProducerIDRequestIn accept_all (rewritten unchanged)"

definition handleAddPartitionsToTxn :: "'x kmsg \<Rightarrow> handler" where
  "handleAddPartitionsToTxn K = rewriting ''handleAddPartitionsToTxn'' (k_AddPartitionsToTxn K) AddPartitionsToTxnKey
     AddPartitionsToTxnRequestIn accept_all (rewritten AddPartitionsToTxnResponseOut)"

definition handleAddOffsetsToTxn :: "'x kmsg \<Rightarrow> handler" where
  "handleAddOffsetsToTxn K = rewriting ''handleAddOffsetsToTxn'' (k_AddOffsetsToTxn K) AddOffsetsToTxnKey
     AddOffsetsToTxnRequestIn accept_all (rewritten unchanged)"

definition handleEndTxn :: "'x kmsg \<Rightarrow> handler" where
  "handleEndTxn K = rewriting ''handleEndTxn'' (k_EndTxn K) EndTxnKey EndTxnRequestIn accept_all (rewritten unchanged)"

definition handleTxnOffsetCommit :: "'x kmsg \<Rightarrow> handler" where
  "handleTxnOffsetCommit K = rewriting ''handleTxnOffsetCommit'' (k_TxnOffsetCommit K) TxnOffsetCommitKey
     TxnOffsetCommitRequestIn accept_all (rewritten TxnOffsetCommitResponseOut)"

definition handleCreateTopics :: "'x kmsg \<Rightarrow> handler" where
  "handleCreateTopics K = rewriting ''handleCreateTopics'' (k_CreateTopics K) CreateTopicsKey CreateTopicsRequestIn accept_all
     (rewritten CreateTopicsResponseOut)"

definition handleDeleteTopics :: "'x kmsg \<Rightarrow> handler" where
  "handleDeleteTopics K = rewriting ''handleDeleteTopics'' (k_DeleteTopics K) DeleteTopicsKey DeleteTopicsRequestIn accept_all
     (rewritten DeleteTopicsResponseOut)"

definition handleDescribeConfigs :: "'x kmsg \<Rightarrow> handler" where
  "handleDescribeConfigs K = rewriting ''handleDescribeConfigs'' (k_DescribeConfigs K) DescribeConfigsKey
     DescribeConfigsRequestIn accept_all (rewritten DescribeConfigsResponseOut)"

lemmas handler_defs =
  handleMetadata_def handleProduce_def handleFetch_def handleListOffsets_def handleFindCoordinator_def
  handleOffsetCommit_def handleOffsetFetch_def handleOffsetDelete_def handleJoinGroup_def handleSyncGroup_def
  handleHeartbeat_def handleLeaveGroup_def handleDescribeGroups_def handleListGroups_def handleDeleteGroups_def
  handleInitProducerID_def handleAddPartitionsToTxn_def handleAddOffsetsToTxn_def handleEndTxn_def
  handleTxnOffsetCommit_def handleCreateTopics_def handleDeleteTopics_def handleDescribeConfigs_def

definition rewriteHandler :: "'x kmsg \<Rightarrow> int16 \<Rightarrow> handler option" where
  "rewriteHandler K apiKey =
     (if apiKey = MetadataKey then Some (handleMetadata K)
      else if apiKey = ProduceKey then Some (handleProduce K)
      else if apiKey = FetchKey then Some (handleFetch K)
      else if apiKey = ListOffsetsKey then Some (handleListOffsets K)
      else if apiKey = FindCoordinatorKey then Some (handleFindCoordinator K)
      else if apiKey = OffsetCommitKey then Some (handleOffsetCommit K)
      else if apiKey = OffsetFetchKey then Some (handleOffsetFetch K)
      else if apiKey = OffsetDeleteKey then Some (handleOffsetDelete K)
      else if apiKey = JoinGroupKey then Some (handleJoinGroup K)
      else if apiKey = SyncGroupKey then Some (handleSyncGroup K)
      else if apiKey = HeartbeatKey then Some (handleHeartbeat K)
      else if apiKey = LeaveGroupKey then Some (handleLeaveGroup K)
      else if apiKey = DescribeGroupsKey then Some (handleDescribeGroups K)
      else if apiKey = ListGroupsKey then Some (handleListGroups K)
      else if apiKey = DeleteGroupsKey then Some (handleDeleteGroups K)
      else if apiKey = InitProducerIDKey then Some (handleInitProducerID K)
      else if apiKey = AddPartitionsToTxnKey then Some (handleAddPartitionsToTxn K)
      else if apiKey = AddOffsetsToTxnKey then Some (handleAddOffsetsToTxn K)
      else if apiKey = EndTxnKey then Some (handleEndTxn K)
      else if apiKey = TxnOffsetCommitKey then Some (handleTxnOffsetCommit K)
      else if apiKey = CreateTopicsKey then Some (handleCreateTopics K)
      else if apiKey = DeleteTopicsKey then Some (handleDeleteTopics K)
      else if apiKey = DescribeConfigsKey then Some (handleDescribeConfigs K)
      else None)"

definition forwardRewritten :: "'s env \<Rightarrow> 'x kmsg \<Rightarrow> RequestHeader \<Rightarrow> byte list \<Rightarrow> (conn, unit) op" where
  "forwardRewritten E K hdr body =
     op_bind (op_wrap ''forwardRewritten'' (ensureUpstream E)) (\<lambda>_.
     case rewriteHandler K (APIKey hdr) of None \<Rightarrow> op_lift Panic | Some h \<Rightarrow> h hdr body)"

subsection \<open>What every handler does\<close>

lemma rewriteHandler_sasl:
  "rewriteHandler K ApiVersionsKey = None" "rewriteHandler K SaslHandshakeKey = None"
  "rewriteHandler K SaslAuthenticateKey = None"
  by (simp_all add: rewriteHandler_def key_defs)

definition rewritten_keys :: "int16 set" where
  "rewritten_keys = {MetadataKey, ProduceKey, FetchKey, ListOffsetsKey, FindCoordinatorKey, OffsetCommitKey,
     OffsetFetchKey, OffsetDeleteKey, JoinGroupKey, SyncGroupKey, HeartbeatKey, LeaveGroupKey, DescribeGroupsKey,
     ListGroupsKey, DeleteGroupsKey, InitProducerIDKey, AddPartitionsToTxnKey, AddOffsetsToTxnKey, EndTxnKey,
     TxnOffsetCommitKey, CreateTopicsKey, DeleteTopicsKey, DescribeConfigsKey}"

lemma rewriteHandler_None: "rewriteHandler K key = None \<longleftrightarrow> key \<notin> rewritten_keys"
  by (simp add: rewriteHandler_def rewritten_keys_def)

lemma advertised_same: "snd (advertised c) = c"
  by (simp add: advertised_def op_bind_def split: sum.split prod.split)

lemma advertised_not_Panic: "fst (advertised c) \<noteq> Panic"
  by (simp add: advertised_def op_bind_def split: sum.split prod.split)

text \<open>The operations that turn the response: they read the configuration and change nothing.\<close>

definition reads_only :: "(string \<Rightarrow> 'p \<Rightarrow> (conn, 'p) op) \<Rightarrow> bool" where
  "reads_only rout \<longleftrightarrow> (\<forall>p r c. snd (rout p r c) = c \<and> fst (rout p r c) \<noteq> Panic)"

lemma reads_only_rout: "reads_only (rewritten f)" "reads_only (with_advertised who g)"
proof -
  show "reads_only (rewritten f)" by (simp add: reads_only_def rewritten_def)
  have "snd (with_advertised who g p r c) = c \<and> fst (with_advertised who g p r c) \<noteq> Panic" for p r c
    using advertised_same [of c] advertised_not_Panic [of c]
    by (cases "advertised c") (auto simp: with_advertised_def op_bind_def op_wrap_def split: go.split)
  then show "reads_only (with_advertised who g)" by (simp add: reads_only_def)
qed

lemma reads_only_keeps: "reads_only rout \<Longrightarrow> (\<And>s. R s s) \<Longrightarrow> keeps R (rout p r)"
  by (simp add: reads_only_def keeps_def)

lemma roundTripTyped_keeps: "keeps conn_step (roundTripTyped api key ver req cl)"
  unfolding roundTripTyped_def by (intro conn_keeps)

lemma writeTypedResponse_keeps: "keeps conn_step (writeTypedResponse api hdr resp)"
  unfolding writeTypedResponse_def by (intro conn_keeps stream_ops_keeps)

lemma rewriting_keeps:
  assumes "reads_only rout"
  shows "keeps conn_step (rewriting who api key rin rej rout hdr body)"
  unfolding rewriting_def
  by (intro conn_keeps roundTripTyped_keeps writeTypedResponse_keeps reads_only_keeps [OF assms] connf.R_refl)

context conn_frame
begin

lemma rewriting_free:
  assumes "reads_only rout"
  shows "keeps R (rewriting who api key rin rej rout hdr body)"
  unfolding rewriting_def roundTripTyped_def writeTypedResponse_def
  by (intro keeps_rules on_nc_free on_upstream_free reads_only_keeps [OF assms] R_refl)

lemma handlers_free: "rewriteHandler K key = Some h \<Longrightarrow> keeps R (h hdr body)"
  by (auto simp: rewriteHandler_def handler_defs split: if_splits intro!: rewriting_free reads_only_rout)

lemma handler_free: "keeps R (case rewriteHandler K key of None \<Rightarrow> op_lift Panic | Some h \<Rightarrow> h hdr body)"
  by (simp add: keeps_pure handlers_free split: option.split)

end

definition same_auth :: "conn \<Rightarrow> conn \<Rightarrow> bool" where
  "same_auth c d \<longleftrightarrow> auth_of d = auth_of c"

interpretation authf: conn_frame same_auth
  by unfold_locales (simp_all add: same_auth_def auth_of_def)

lemma roundTripTyped_quiet: "quiet_op (roundTripTyped api key ver req cl)"
  unfolding roundTripTyped_def by (intro quiet.keeps_rules quiet_ops)

lemma writeTypedResponse_answers: "appends api \<Longrightarrow> answers (CorrelationID hdr) (writeTypedResponse api hdr resp)"
  unfolding writeTypedResponse_def by (rule answers_write) (rule EncodeResponse_appends)

lemma answers_option:
  "answers cid m \<Longrightarrow> (\<And>a. answers cid (f a)) \<Longrightarrow> answers cid (case x of None \<Rightarrow> m | Some a \<Rightarrow> f a)"
  by (simp split: option.split)

lemma rewriting_answers:
  assumes "appends api" and "reads_only rout"
  shows "answers (CorrelationID hdr) (rewriting who api key rin rej rout hdr body)"
  unfolding rewriting_def
  by (intro answers_bind answers_case answers_option answers_simps quiet.keeps_rules roundTripTyped_quiet
      writeTypedResponse_answers reads_only_keeps [OF assms(2)] quiet.R_refl assms(1))

lemma handlers_keep: "rewriteHandler K key = Some h \<Longrightarrow> keeps conn_step (h hdr body)"
  by (auto simp: rewriteHandler_def handler_defs split: if_splits intro!: rewriting_keeps reads_only_rout)

lemma forwardRewritten_keeps: "keeps conn_step (forwardRewritten E K hdr body)"
proof -
  have "keeps conn_step (case rewriteHandler K (APIKey hdr) of None \<Rightarrow> op_lift Panic | Some h \<Rightarrow> h hdr body)"
    by (simp add: connf.keeps_pure handlers_keep split: option.split)
  then show ?thesis
    unfolding forwardRewritten_def by (intro connf.keeps_bind connf.keeps_wrap ensureUpstream_keeps)
qed

text \<open>The message library appends, for all APIs with a handler.\<close>

definition appends_all :: "'x kmsg \<Rightarrow> bool" where
  "appends_all K \<longleftrightarrow>
     appends (k_Metadata K) \<and> appends (k_Produce K) \<and> appends (k_Fetch K) \<and> appends (k_ListOffsets K) \<and>
     appends (k_FindCoordinator K) \<and> appends (k_OffsetCommit K) \<and> appends (k_OffsetFetch K) \<and>
     appends (k_OffsetDelete K) \<and> appends (k_JoinGroup K) \<and> appends (k_SyncGroup K) \<and> appends (k_Heartbeat K) \<and>
     appends (k_LeaveGroup K) \<and> appends (k_DescribeGroups K) \<and> appends (k_ListGroups K) \<and>
     appends (k_DeleteGroups K) \<and> appends (k_InitProducerID K) \<and> appends (k_AddPartitionsToTxn K) \<and>
     appends (k_AddOffsetsToTxn K) \<and> appends (k_EndTxn K) \<and> appends (k_TxnOffsetCommit K) \<and>
     appends (k_CreateTopics K) \<and> appends (k_DeleteTopics K) \<and> appends (k_DescribeConfigs K)"

lemma handlers_answer:
  "rewriteHandler K key = Some h \<Longrightarrow> appends_all K \<Longrightarrow> answers (CorrelationID hdr) (h hdr body)"
  by (auto simp: rewriteHandler_def handler_defs appends_all_def split: if_splits
      intro!: rewriting_answers reads_only_rout)

lemma forwardRewritten_answers:
  "appends_all K \<Longrightarrow> answers (CorrelationID hdr) (forwardRewritten E K hdr body)"
  using handlers_answer [of K "APIKey hdr"]
  unfolding forwardRewritten_def
  by (intro answers_bind quiet.keeps_rules quiet_ops)
    (cases "rewriteHandler K (APIKey hdr)"; simp add: answers_simps)

subsection \<open>What is sent to the broker\<close>

text \<open>Every byte a round trip writes belongs to its one request; a failing write stops part way.\<close>

definition same_wr :: "UConn \<Rightarrow> UConn \<Rightarrow> bool" where
  "same_wr u v \<longleftrightarrow> wr (unc v) = wr (unc u)"

interpretation mute: frame_condition same_wr
  by unfold_locales (simp_all add: same_wr_def)

lemma read_frame_wr: "wr (snd (read_frame s)) = wr s"
  by (simp add: read_frame_def ReadFrame_def ReadFull_def Let_def split: sum.split prod.split)

lemma mute_ops:
  "keeps same_wr (on_unc read_frame)" "keeps same_wr applyRequestDeadline" "keeps same_wr nextCorrelationID"
  "keeps same_wr (read_response who cid key ver)"
proof -
  show r: "keeps same_wr (on_unc read_frame)"
    using read_frame_wr by (auto simp: keeps_def same_wr_def on_unc_def split: prod.split) (metis snd_conv)
  show "keeps same_wr applyRequestDeadline"
    by (simp add: keeps_def same_wr_def applyRequestDeadline_def on_unc_def op_bind_def op_error_def SetDeadline_def
        split: option.split prod.split)
  show "keeps same_wr nextCorrelationID"
    by (simp add: keeps_def same_wr_def)
  show "keeps same_wr (read_response who cid key ver)"
    unfolding read_response_def by (intro mute.keeps_rules r)
qed

lemma net_Write_prefix: "\<exists>b'. wr (snd (net_Write s b)) = wr s @ b' \<and> prefix b' b"
  by (auto simp: net_Write_def take_is_prefix split: option.split)

lemma WriteFrame_prefix: "\<exists>b'. wr (snd (WriteFrame s b)) = wr s @ b' \<and> prefix b' (frame_bytes b)"
proof -
  let ?l = "PutUint32 (word_of_nat (length b))"
  obtain e w where w: "net_Write s ?l = (e, w)" by force
  obtain e' w' where w': "net_Write w b = (e', w')" by force
  show ?thesis
  proof (cases e)
    case None
    then have "wr w = wr s @ ?l"
      using w net_Write_None by fastforce
    moreover obtain b' where "wr w' = wr w @ b'" "prefix b' b"
      using net_Write_prefix [of w b] w' by auto
    ultimately show ?thesis
      using None w w' by (auto simp: WriteFrame_def Let_def frame_bytes_def split: option.split)
  next
    case (Some x)
    then show ?thesis
      using net_Write_prefix [of s ?l] w by (auto simp: WriteFrame_def Let_def frame_bytes_def)
  qed
qed

definition emits :: "byte list \<Rightarrow> UConn \<Rightarrow> 'a go \<times> UConn \<Rightarrow> bool" where
  "emits b u res \<longleftrightarrow>
     (\<exists>b'. wr (unc (snd res)) = wr (unc u) @ b' \<and> prefix b' b \<and> (\<forall>a. fst res = Ok a \<longrightarrow> b' = b))"

lemma emits_then:
  assumes "emits b u (m u)" and "\<And>a. keeps same_wr (f a)"
  shows "emits b u (op_bind m f u)"
proof -
  obtain r v where m: "m u = (r, v)" by force
  have "wr (unc (snd (f a v))) = wr (unc v)" for a
    using assms(2) by (auto simp: keeps_def same_wr_def)
  then show ?thesis
    using m assms(1) by (cases r) (auto simp: emits_def)
qed

lemma emits_after:
  assumes "keeps same_wr m" and "\<And>a v. m u = (Ok a, v) \<Longrightarrow> emits b v (f a v)"
  shows "emits b u (op_bind m f u)"
proof -
  obtain r v where m: "m u = (r, v)" by force
  have s: "wr (unc v) = wr (unc u)" using keepsD [OF assms(1) m] by (simp add: same_wr_def)
  show ?thesis
    using m s assms(2) by (cases r) (auto simp: emits_def)
qed

lemma emits_wrap [simp]: "emits b u (op_wrap w m u) \<longleftrightarrow> emits b u (m u)"
  by (cases "m u"; cases "fst (m u)") (auto simp: emits_def op_wrap_def)

lemma write_emits: "emits b u (on_unc (write_bytes b) u)" "emits (frame_bytes b) u (on_unc (write_frame b) u)"
proof -
  obtain r s where r: "write_bytes b (unc u) = (r, s)" by force
  have "\<exists>b'. wr s = wr (unc u) @ b' \<and> prefix b' b"
    using net_Write_prefix [of "unc u" b] r by (metis snd_conv snd_op_simps(1) write_bytes_def)
  moreover have "r = Ok a \<Longrightarrow> wr s = wr (unc u) @ b" for a
    using write_bytes_Ok r by fastforce
  ultimately show "emits b u (on_unc (write_bytes b) u)"
    using r by (auto simp: emits_def on_unc_def)
  obtain q t where q: "write_frame b (unc u) = (q, t)" by force
  have "\<exists>b'. wr t = wr (unc u) @ b' \<and> prefix b' (frame_bytes b)"
    using WriteFrame_prefix [of "unc u" b] q by (metis snd_conv snd_op_simps(1) write_frame_def)
  moreover have "q = Ok a \<Longrightarrow> wr t = wr (unc u) @ frame_bytes b" for a
    using write_frame_Ok q by fastforce
  ultimately show "emits (frame_bytes b) u (on_unc (write_frame b) u)"
    using q by (auto simp: emits_def on_unc_def)
qed

lemma RoundTripRequest_emits:
  "emits (AppendRequest api cl ver req (corrIDGen u + 1)) u (RoundTripRequest api key ver req cl u)"
  unfolding RoundTripRequest_def Let_def
proof (rule emits_after [OF mute_ops(3)], simp, rule emits_after)
  show "keeps same_wr (op_wrap ''RoundTripRequest'' applyRequestDeadline)"
    by (intro mute.keeps_wrap mute_ops)
  fix v
  show "emits (AppendRequest api cl ver req (corrIDGen u + 1)) v
    (op_bind (op_wrap ''RoundTripRequest'' (on_unc (write_bytes (AppendRequest api cl ver req (corrIDGen u + 1)))))
      (\<lambda>_. read_response ''RoundTripRequest'' (corrIDGen u + 1) key ver) v)"
    by (rule emits_then) (simp_all add: write_emits mute_ops)
qed

lemma RoundTrip_emits:
  assumes "8 \<le> length f"
  shows "emits (frame_bytes (take 4 f @ PutUint32 (corrIDGen u + 1) @ drop 8 f)) u (RoundTrip f cid hv rv u)"
proof -
  let ?o = "take 4 f @ PutUint32 (corrIDGen u + 1) @ drop 8 f"
  let ?k = "\<lambda>respFrame. if length respFrame < 4 then op_fail (ErrNew ''RoundTrip: response frame too short'')
      else let gotCID = BigEndian_Uint32 (take 4 respFrame)
           in if gotCID \<noteq> corrIDGen u + 1 then op_fail (cid_mismatch ''RoundTrip'' (corrIDGen u + 1) gotCID)
              else op_return (PutUint32 cid @ drop 4 respFrame)"
  have "emits (frame_bytes ?o) v
    (op_bind (op_wrap ''RoundTrip'' (on_unc (write_frame ?o))) (\<lambda>_. op_bind (op_wrap ''RoundTrip'' (on_unc read_frame)) ?k) v)" for v
    by (rule emits_then, simp add: write_emits, intro mute.keeps_rules mute_ops)
  then have "emits (frame_bytes ?o) v (op_bind (op_wrap ''RoundTrip'' applyRequestDeadline) (\<lambda>_. op_bind (op_wrap ''RoundTrip'' (on_unc (write_frame ?o)))
     (\<lambda>_. op_bind (op_wrap ''RoundTrip'' (on_unc read_frame)) ?k)) v)" for v
    by (rule emits_after [OF mute.keeps_wrap [OF mute_ops(2)]])
  from this [of "u\<lparr>corrIDGen := corrIDGen u + 1\<rparr>"] show ?thesis
    using assms by (simp add: RoundTrip_def Let_def emits_def)
qed

text \<open>At the level of the connection: what is sent is part of one message that satisfies \<open>P\<close>, and the
  whole of one when the operation succeeds.\<close>

definition sends_up :: "(byte list \<Rightarrow> bool) \<Rightarrow> conn \<Rightarrow> 'a go \<times> conn \<Rightarrow> bool" where
  "sends_up P c res \<longleftrightarrow>
     (\<exists>u v b'. upstream c = Some u \<and> upstream (snd res) = Some v \<and> wr (unc v) = wr (unc u) @ b' \<and>
        (b' = [] \<or> (\<exists>b. P b \<and> prefix b' b)) \<and> (\<forall>a. fst res = Ok a \<longrightarrow> P b'))"

lemma sends_up_failed: "upstream c = Some u \<Longrightarrow> sends_up P c (Err e, c)"
  by (simp add: sends_up_def)

lemma emits_sends_up:
  assumes "upstream c = Some u" and "emits b u (r, v)" and "P b" and "upstream d = Some v"
    and "\<And>a. q = Ok a \<Longrightarrow> \<exists>a'. r = Ok a'"
  shows "sends_up P c (q, d)"
proof -
  from assms(2) obtain b' where b: "wr (unc v) = wr (unc u) @ b'" "prefix b' b" and ok: "\<And>a. r = Ok a \<Longrightarrow> b' = b"
    by (auto simp: emits_def)
  have "P b'" if "q = Ok a" for a
    using assms(3,5) that ok by blast
  then show ?thesis
    using assms(1,3,4) b by (auto simp: sends_up_def)
qed

lemma sends_up_bind:
  assumes "sends_up P c (m c)" and "\<And>a d. m c = (Ok a, d) \<Longrightarrow> upstream (snd (f a d)) = upstream d"
  shows "sends_up P c (op_bind m f c)"
proof -
  obtain r d where m: "m c = (r, d)" by force
  show ?thesis
    using assms m by (cases r) (auto simp: sends_up_def)
qed

lemma sends_up_wrap [simp]: "sends_up P c (op_wrap w m c) \<longleftrightarrow> sends_up P c (m c)"
  by (cases "m c"; cases "fst (m c)") (simp_all add: sends_up_def op_wrap_def)

lemma on_upstream_sends:
  assumes "upstream c = Some u" and "emits b u (m u)" and "P b"
  shows "sends_up P c (on_upstream m c)"
proof -
  obtain r v where r: "m u = (r, v)" by force
  have "sends_up P c (r, c\<lparr>upstream := Some v\<rparr>)"
    by (rule emits_sends_up [where P = P and b = b, OF assms(1)]) (use assms(2,3) r in auto)
  then show ?thesis
    using assms(1) r by (simp add: on_upstream_def)
qed

lemma roundTripTyped_sends:
  assumes "upstream c = Some u" and "P (AppendRequest api cl ver req (corrIDGen u + 1))"
  shows "sends_up P c (roundTripTyped api key ver req cl c)"
  unfolding roundTripTyped_def
  by (rule sends_up_bind) (use assms in \<open>simp_all add: on_upstream_sends [OF _ RoundTripRequest_emits]\<close>)

lemma upstream_writeTypedResponse [simp]: "upstream (snd (writeTypedResponse api hdr resp c)) = upstream c"
  by (simp add: writeTypedResponse_def)

lemma rewriting_sends:
  assumes up: "upstream c = Some u" and ro: "reads_only rout"
    and P: "\<And>q. ReadReq api (APIVersion hdr) body = Inr q \<Longrightarrow>
      P (AppendRequest api (ClientID hdr) (APIVersion hdr) (rin (TopicPrefix (tenant c)) q) (corrIDGen u + 1))"
  shows "sends_up P c (rewriting who api key rin rej rout hdr body c)"
proof (cases "ReadReq api (APIVersion hdr) body")
  case (Inl e)
  then show ?thesis using up by (simp add: rewriting_def sends_up_failed)
next
  case (Inr q)
  let ?rt = "op_wrap who (roundTripTyped api key (APIVersion hdr) (rin (TopicPrefix (tenant c)) q) (ClientID hdr))"
  have k: "upstream (snd (op_bind (rout pfx resp) (writeTypedResponse api hdr) d)) = upstream d" for pfx resp d
    using ro unfolding reads_only_def
    by (cases "rout pfx resp d") (auto simp: op_bind_def split: go.split, (metis fst_conv snd_conv)+)
  have "sends_up P c (op_bind ?rt (\<lambda>resp. op_bind (rout (TopicPrefix (tenant c)) resp) (writeTypedResponse api hdr)) c)"
    by (rule sends_up_bind) (simp_all add: k roundTripTyped_sends [where P = P, OF up P [OF Inr]])
  then show ?thesis
    using Inr up by (simp add: rewriting_def Let_def sends_up_failed split: option.split)
qed

definition forwarded_as ::
    "('q, 'p) kapi \<Rightarrow> ('q \<Rightarrow> string list) \<Rightarrow> (string \<Rightarrow> 'q \<Rightarrow> 'q) \<Rightarrow> string \<Rightarrow> RequestHeader \<Rightarrow> byte list \<Rightarrow> byte list \<Rightarrow> bool" where
  "forwarded_as api names_of rin p hdr body b \<longleftrightarrow>
     (\<exists>q cid. ReadReq api (APIVersion hdr) body = Inr q \<and>
        b = AppendRequest api (ClientID hdr) (APIVersion hdr) (rin p q) cid \<and> confined p (names_of (rin p q)))"

definition forwards_by :: "conn \<Rightarrow> RequestHeader \<Rightarrow> byte list \<Rightarrow> handler \<Rightarrow> (byte list \<Rightarrow> byte list \<Rightarrow> bool) \<Rightarrow> bool" where
  "forwards_by c hdr body h F \<longleftrightarrow> sends_up (F body) c (h hdr body c)"

lemma rewriting_forwards:
  assumes "upstream c = Some u" and "reads_only rout"
    and "\<And>q. confined (TopicPrefix (tenant c)) (names_of (rin (TopicPrefix (tenant c)) q))"
  shows "forwards_by c hdr body (rewriting who api key rin rej rout) (forwarded_as api names_of rin (TopicPrefix (tenant c)) hdr)"
  unfolding forwards_by_def
  by (rule rewriting_sends [OF assms(1,2)]) (use assms(3) in \<open>auto simp: forwarded_as_def\<close>)

lemma forwards_by_step:
  "forwards_by c hdr body x f \<Longrightarrow> (y = Some h \<Longrightarrow> forwards_by c hdr body h g) \<Longrightarrow>
   (if b then Some x else y) = Some h \<Longrightarrow> forwards_by c hdr body h (if b then f else g)"
  by (simp split: if_splits)

text \<open>The request that the tenant with prefix \<open>p\<close> may send for a header and a body: the decoded request
  with its names prefixed, all names of which are confined to the tenant.\<close>

definition tenant_request :: "'x kmsg \<Rightarrow> string \<Rightarrow> RequestHeader \<Rightarrow> byte list \<Rightarrow> byte list \<Rightarrow> bool" where
  "tenant_request K p hdr =
     (let k = APIKey hdr in
      if k = MetadataKey then forwarded_as (k_Metadata K) metadata_request_names MetadataRequestIn p hdr
      else if k = ProduceKey then forwarded_as (k_Produce K) topic_names ProduceRequestIn p hdr
      else if k = FetchKey then forwarded_as (k_Fetch K) topic_names FetchRequestIn p hdr
      else if k = ListOffsetsKey then forwarded_as (k_ListOffsets K) topic_names ListOffsetsRequestIn p hdr
      else if k = FindCoordinatorKey then forwarded_as (k_FindCoordinator K) find_coordinator_names FindCoordinatorRequestIn p hdr
      else if k = OffsetCommitKey then forwarded_as (k_OffsetCommit K) group_topics_names OffsetCommitRequestIn p hdr
      else if k = OffsetFetchKey then forwarded_as (k_OffsetFetch K) offset_fetch_request_names OffsetFetchRequestIn p hdr
      else if k = OffsetDeleteKey then forwarded_as (k_OffsetDelete K) group_topics_names OffsetDeleteRequestIn p hdr
      else if k = JoinGroupKey
      then forwarded_as (k_JoinGroup K) (join_group_names (k_Subscription K)) (JoinGroupRequestIn (k_Subscription K)) p hdr
      else if k = SyncGroupKey
      then forwarded_as (k_SyncGroup K) (sync_group_names (k_Assignment K)) (SyncGroupRequestIn (k_Assignment K)) p hdr
      else if k = HeartbeatKey then forwarded_as (k_Heartbeat K) group_names HeartbeatRequestIn p hdr
      else if k = LeaveGroupKey then forwarded_as (k_LeaveGroup K) group_names LeaveGroupRequestIn p hdr
      else if k = DescribeGroupsKey then forwarded_as (k_DescribeGroups K) groups_names DescribeGroupsRequestIn p hdr
      else if k = ListGroupsKey then forwarded_as (k_ListGroups K) (\<lambda>_. []) unchanged p hdr
      else if k = DeleteGroupsKey then forwarded_as (k_DeleteGroups K) groups_names DeleteGroupsRequestIn p hdr
      else if k = InitProducerIDKey then forwarded_as (k_InitProducerID K) init_producer_names InitProducerIDRequestIn p hdr
      else if k = AddPartitionsToTxnKey
      then forwarded_as (k_AddPartitionsToTxn K) add_partitions_request_names AddPartitionsToTxnRequestIn p hdr
      else if k = AddOffsetsToTxnKey then forwarded_as (k_AddOffsetsToTxn K) add_offsets_names AddOffsetsToTxnRequestIn p hdr
      else if k = EndTxnKey then forwarded_as (k_EndTxn K) end_txn_names EndTxnRequestIn p hdr
      else if k = TxnOffsetCommitKey
      then forwarded_as (k_TxnOffsetCommit K) txn_offset_commit_names TxnOffsetCommitRequestIn p hdr
      else if k = CreateTopicsKey then forwarded_as (k_CreateTopics K) topic_names CreateTopicsRequestIn p hdr
      else if k = DeleteTopicsKey then forwarded_as (k_DeleteTopics K) delete_request_names DeleteTopicsRequestIn p hdr
      else if k = DescribeConfigsKey then forwarded_as (k_DescribeConfigs K) config_names DescribeConfigsRequestIn p hdr
      else (\<lambda>_ _. False))"

lemmas requests_confined =
  metadata_in.rin_list_confined produce_in.rin_list_confined fetch_in.rin_list_confined
  list_offsets_in.rin_list_confined find_coordinator_in.rin_list_confined offset_commit_in.rin_list_confined
  offset_fetch_in.rin_list_confined offset_delete_in.rin_list_confined heartbeat_in.rin_list_confined
  leave_group_in.rin_list_confined describe_groups_in.rin_list_confined delete_groups_in.rin_list_confined
  init_producer_in.rin_list_confined add_partitions_in.rin_list_confined add_offsets_in.rin_list_confined
  end_txn_in.rin_list_confined txn_offset_commit_in.rin_list_confined create_topics_in.rin_list_confined
  delete_topics_in.rin_list_confined configs_in.rin_list_confined

lemma confined_Nil: "confined p []"
  by (simp add: confined_def)

lemma handlers_send:
  assumes "rewriteHandler K (APIKey hdr) = Some h" and up: "upstream c = Some u"
    and "blob_ok (k_Subscription K)" and "blob_ok (k_Assignment K)"
  shows "sends_up (tenant_request K (TopicPrefix (tenant c)) hdr body) c (h hdr body c)"
proof -
  note blobs = prefixing.rin_list_confined [OF join_group_prefixing [OF assms(3)]]
    prefixing.rin_list_confined [OF sync_group_prefixing [OF assms(4)]]
  have "forwards_by c hdr body h (tenant_request K (TopicPrefix (tenant c)) hdr)"
    using assms(1) unfolding rewriteHandler_def tenant_request_def Let_def handler_defs
    by (elim forwards_by_step [rotated 2])
      (rule rewriting_forwards [OF up] reads_only_rout requests_confined blobs confined_Nil | simp)+
  then show ?thesis by (simp add: forwards_by_def)
qed

subsection \<open>What the client is answered\<close>

text \<open>An exchange with the broker: exactly one request was sent, and the response is what the next frame of the
  broker holds, which carries the correlation id of that request. The answer to the client is one frame.\<close>

definition exchanges :: "('q, 'p) kapi \<Rightarrow> int16 \<Rightarrow> RequestHeader \<Rightarrow> 'q \<Rightarrow> 'p \<Rightarrow> conn \<Rightarrow> conn \<Rightarrow> bool" where
  "exchanges api key hdr sent resp c d \<longleftrightarrow>
     (\<exists>u v f b. upstream c = Some u \<and> upstream d = Some v \<and>
        wr (unc v) = wr (unc u) @ AppendRequest api (ClientID hdr) (APIVersion hdr) sent (corrIDGen u + 1) \<and>
        rd (unc u) = frame_bytes f @ rd (unc v) \<and> response_frame (corrIDGen u + 1) key (APIVersion hdr) b f \<and>
        ReadResp api (APIVersion hdr) b = Inr resp)"

definition answered :: "('q, 'p) kapi \<Rightarrow> RequestHeader \<Rightarrow> 'p \<Rightarrow> conn \<Rightarrow> conn \<Rightarrow> bool" where
  "answered api hdr out c d \<longleftrightarrow>
     wr (nc d) = wr (nc c) @ frame_bytes
       (EncodeResponse (AppendResp api (APIVersion hdr)) out (CorrelationID hdr) (APIKey hdr) (APIVersion hdr))"

lemma RoundTripRequest_Ok:
  assumes "RoundTripRequest api key ver req cl u = (Ok b, v)"
  shows "wr (unc v) = wr (unc u) @ AppendRequest api cl ver req (corrIDGen u + 1)"
    and "\<exists>f. rd (unc u) = frame_bytes f @ rd (unc v) \<and> response_frame (corrIDGen u + 1) key ver b f"
proof -
  let ?b = "AppendRequest api cl ver req (corrIDGen u + 1)"
  from assms obtain u1 w where d: "applyRequestDeadline (u\<lparr>corrIDGen := corrIDGen u + 1\<rparr>) = (Ok (), u1)"
    and w: "write_bytes ?b (unc u1) = (Ok (), w)"
    and r: "read_response ''RoundTripRequest'' (corrIDGen u + 1) key ver (u1\<lparr>unc := w\<rparr>) = (Ok b, v)"
    by (auto simp: RoundTripRequest_def op_bind_Ok Let_def)
  from d have "wr (unc u1) = wr (unc u)" "rd (unc u1) = rd (unc u)"
    by (auto simp: applyRequestDeadline_Ok split: if_splits)
  moreover obtain l where "w = (unc u1)\<lparr>wr := wr (unc u1) @ ?b, wr_left := l\<rparr>"
    using write_bytes_Ok [OF w] by blast
  moreover obtain f rest where "response_frame (corrIDGen u + 1) key ver b f" "rd w = frame_bytes f @ rest"
    "v = u1\<lparr>unc := w\<lparr>rd := rest\<rparr>\<rparr>"
    using r by (elim read_response_Ok) simp
  ultimately show "wr (unc v) = wr (unc u) @ ?b"
    "\<exists>f. rd (unc u) = frame_bytes f @ rd (unc v) \<and> response_frame (corrIDGen u + 1) key ver b f"
    by auto
qed

lemma roundTripTyped_exchanges:
  assumes "roundTripTyped api key (APIVersion hdr) req (ClientID hdr) c = (Ok resp, d)"
  shows "exchanges api key hdr req resp c d"
proof -
  from assms obtain u v b where u: "upstream c = Some u" "d = c\<lparr>upstream := Some v\<rparr>"
    and r: "RoundTripRequest api key (APIVersion hdr) req (ClientID hdr) u = (Ok b, v)" and b: "ReadResp api (APIVersion hdr) b = Inr resp"
    by (auto simp: roundTripTyped_def op_bind_Ok on_upstream_Pair split: option.splits)
  from RoundTripRequest_Ok [OF r] u b show ?thesis by (auto simp: exchanges_def)
qed

lemma roundTripTyped_Ok:
  assumes "roundTripTyped api key ver req cl c = (Ok resp, d)"
  shows "nc d = nc c" "cfg d = cfg c"
  using keepsD [OF roundTripTyped_quiet assms] keepsD [OF roundTripTyped_keeps assms]
  by (simp_all add: same_nc_def conn_step_def)

text \<open>A handler that succeeds has sent the rewritten request and answered with the rewritten response.\<close>

lemma rewriting_exchanges:
  assumes "reads_only rout" and "rewriting who api key rin rej rout hdr body c = (Ok (), d)"
  obtains req resp out c' where "ReadReq api (APIVersion hdr) body = Inr req" and "rej (rin (TopicPrefix (tenant c)) req) = None"
    and "exchanges api key hdr (rin (TopicPrefix (tenant c)) req) resp c d" and "cfg c' = cfg c"
    and "rout (TopicPrefix (tenant c)) resp c' = (Ok out, c')" and "answered api hdr out c d"
proof -
  let ?p = "TopicPrefix (tenant c)"
  obtain req where req: "ReadReq api (APIVersion hdr) body = Inr req"
    using assms(2) by (auto simp: rewriting_def op_bind_Ok)
  with assms(2) obtain resp c1 where rt: "roundTripTyped api key (APIVersion hdr) (rin ?p req) (ClientID hdr) c = (Ok resp, c1)"
    and rej: "rej (rin ?p req) = None" and rest: "op_bind (rout ?p resp) (writeTypedResponse api hdr) c1 = (Ok (), d)"
    by (auto simp: rewriting_def op_bind_Ok Let_def split: option.splits)
  from rest obtain out c2 where ro: "rout ?p resp c1 = (Ok out, c2)" and w: "writeTypedResponse api hdr out c2 = (Ok (), d)"
    by (auto simp: op_bind_Ok)
  have c2: "c2 = c1" using assms(1) ro by (metis reads_only_def snd_conv)
  from w obtain s where s: "write_frame (EncodeResponse (AppendResp api (APIVersion hdr)) out (CorrelationID hdr) (APIKey hdr) (APIVersion hdr))
      (nc c2) = (Ok (), s)" "d = c2\<lparr>nc := s\<rparr>"
    by (auto simp: writeTypedResponse_def on_nc_Pair)
  then have "answered api hdr out c d"
    using c2 roundTripTyped_Ok(1) [OF rt] by (auto simp: answered_def dest: write_frame_Ok)
  moreover have "exchanges api key hdr (rin ?p req) resp c d"
    using roundTripTyped_exchanges [OF rt] s(2) c2 by (simp add: exchanges_def)
  ultimately show ?thesis
    using that req rej ro c2 roundTripTyped_Ok(2) [OF rt] by metis
qed

lemma rewritten_Ok: "rewritten f p resp c = (Ok out, c') \<longleftrightarrow> out = f p resp \<and> c' = c"
  by (auto simp: rewritten_def)

lemma advertised_Ok:
  "advertised c = (Ok (host, port), c') \<longleftrightarrow>
     c' = c \<and> (\<exists>ps n. SplitHostPort (srv_Advertised (cfg c)) = Inr (host, ps) \<and> Atoi ps = Inr n \<and> port = word_of_int n)"
  by (auto simp: advertised_def op_bind_Ok split: sum.splits prod.splits)

subsection \<open>An example\<close>

definition example_lib :: "unit kmsg" where
  "example_lib = \<lparr>
     k_Metadata = (example_kapi example_metadata)\<lparr>ReadReq := (\<lambda>_ _. Inr \<lparr>MetadataTopics = None\<rparr>)\<rparr>,
     k_Produce = (example_kapi \<lparr>Topics = []\<rparr>)\<lparr>ReadReq := (\<lambda>_ _. Inr \<lparr>Topics = [], Acks = 0\<rparr>)\<rparr>,
     k_Fetch = example_kapi \<lparr>Topics = []\<rparr>, k_ListOffsets = example_kapi \<lparr>Topics = []\<rparr>,
     k_FindCoordinator = example_kapi \<lparr>CoordNodeID = 0, CoordHost = [], CoordPort = 0, Coordinators = []\<rparr>,
     k_OffsetCommit = example_kapi \<lparr>Topics = []\<rparr>,
     k_OffsetFetch = example_kapi \<lparr>Topics = [], ResponseGroups = []\<rparr>,
     k_OffsetDelete = example_kapi \<lparr>Topics = []\<rparr>,
     k_JoinGroup = example_kapi \<lparr>JoinProtocolType = None, Members = []\<rparr>,
     k_SyncGroup = example_kapi \<lparr>SyncRespProtocolType = None, MemberAssignment = []\<rparr>,
     k_Heartbeat = example_kapi (), k_LeaveGroup = example_kapi (),
     k_DescribeGroups = example_kapi \<lparr>DescribedGroups = []\<rparr>, k_ListGroups = example_kapi \<lparr>GroupList = []\<rparr>,
     k_DeleteGroups = example_kapi \<lparr>GroupList = []\<rparr>, k_InitProducerID = example_kapi (),
     k_AddPartitionsToTxn = example_kapi \<lparr>Topics = [], ResponseTransactions = []\<rparr>,
     k_AddOffsetsToTxn = example_kapi (), k_EndTxn = example_kapi (), k_TxnOffsetCommit = example_kapi \<lparr>Topics = []\<rparr>,
     k_CreateTopics = example_kapi \<lparr>Topics = []\<rparr>, k_DeleteTopics = example_kapi \<lparr>DeletedTopics = []\<rparr>,
     k_DescribeConfigs = example_kapi \<lparr>Resources = []\<rparr>,
     k_Subscription = example_subscription_codec, k_Assignment = example_assignment_codec\<rparr>"

definition example_conn :: "stream \<Rightarrow> conn" where
  "example_conn s = (newConn s \<lparr>srv_Listen = '':9092'', srv_Advertised = ''kroxy:9092'', srv_TLS = None, UpstreamSASLMechanism = []\<rparr> None)
     \<lparr>state := stateAuthenticated, clientMechanism := MechanismPlain, tenant := \<lparr>ID = ''acme'', TopicPrefix = ''a.'', Upstream = ''k:9092''\<rparr>,
      upstream := Some \<lparr>unc = input_stream (frame_bytes (reply 1 [])), corrIDGen = 0, reqTO = DefaultRequestTimeout\<rparr>\<rparr>"

definition example_hdr :: "int16 \<Rightarrow> RequestHeader" where
  "example_hdr k = \<lparr>APIKey = k, APIVersion = 1, CorrelationID = 7, ClientID = [], HeaderVersion = 1, HeaderSize = 10\<rparr>"


lemma RoundTripRequest_reply:
  assumes "answering (unc c) (reply (corrIDGen c + 1) body # fs)" and "ResponseHeaderVersion key ver = 0"
  shows "\<exists>c'. RoundTripRequest api key ver req cl c = (Ok body, c')"
proof -
  let ?d = "if reqTO c \<le> 0 then None else Some (reqTO c)"
  let ?c1 = "c\<lparr>corrIDGen := corrIDGen c + 1, unc := (unc c)\<lparr>rd_deadline := ?d, wr_deadline := ?d\<rparr>\<rparr>"
  let ?c2 = "?c1\<lparr>unc := (unc ?c1)\<lparr>wr := wr (unc c) @ AppendRequest api cl ver req (corrIDGen c + 1)\<rparr>\<rparr>"
  have d: "applyRequestDeadline (c\<lparr>corrIDGen := corrIDGen c + 1\<rparr>) = (Ok (), ?c1)"
    using assms(1) by (simp add: applyRequestDeadline_Ok answering_def)
  have w: "on_unc (write_bytes (AppendRequest api cl ver req (corrIDGen c + 1))) ?c1 = (Ok (), ?c2)"
    using assms(1) by (simp add: answering_def)
  have "read_response ''RoundTripRequest'' (corrIDGen c + 1) key ver ?c2 =
      (Ok body, ?c2\<lparr>unc := (unc ?c2)\<lparr>rd := concat (map frame_bytes fs)\<rparr>\<rparr>)"
    by (rule read_response_frame [OF reply_response_frame [OF assms(2)]]) (use assms(1) in \<open>simp_all add: answering_def\<close>)
  then show ?thesis
    using d w by (simp add: RoundTripRequest_def op_bind_def op_wrap_def Let_def del: on_unc_Ok)
qed

lemma example_conn_sel [simp]:
  "nc (example_conn s) = s" "state (example_conn s) = stateAuthenticated"
  "upstream (example_conn s) = Some \<lparr>unc = input_stream (frame_bytes (reply 1 [])), corrIDGen = 0, reqTO = DefaultRequestTimeout\<rparr>"
  "srv_Advertised (cfg (example_conn s)) = ''kroxy:9092''" "TopicPrefix (tenant (example_conn s)) = ''a.''"
  by (simp_all add: example_conn_def newConn_def)

lemma rewriting_answered:
  assumes "ReadReq api (APIVersion hdr) body = Inr req" and "rej (rin (TopicPrefix (tenant c)) req) = None"
    and "upstream c = Some u" and "answering (unc u) (reply (corrIDGen u + 1) b # fs)"
    and "ResponseHeaderVersion key (APIVersion hdr) = 0" and "ReadResp api (APIVersion hdr) b = Inr resp"
    and "\<And>c'. cfg c' = cfg c \<Longrightarrow> rout (TopicPrefix (tenant c)) resp c' = (Ok out, c')" and "wr_left (nc c) = None"
  shows "\<exists>d. rewriting who api key rin rej rout hdr body c = (Ok (), d)"
proof -
  obtain u' where "RoundTripRequest api key (APIVersion hdr) (rin (TopicPrefix (tenant c)) req) (ClientID hdr) u = (Ok b, u')"
    using RoundTripRequest_reply [OF assms(4,5), of api "rin (TopicPrefix (tenant c)) req" "ClientID hdr"] by blast
  then have "roundTripTyped api key (APIVersion hdr) (rin (TopicPrefix (tenant c)) req) (ClientID hdr) c = (Ok resp, c\<lparr>upstream := Some u'\<rparr>)"
    using assms(3,6) by (simp add: roundTripTyped_def op_bind_def op_wrap_def on_upstream_def)
  then show ?thesis
    using assms(1,2,7,8) by (simp add: rewriting_def op_bind_def op_wrap_def Let_def writeTypedResponse_def on_nc_def)
qed

lemma example_address: "SplitHostPort ''kroxy:9092'' = Inr (''kroxy'', ''9092'')" "Atoi ''9092'' = Inr 9092"
  using SplitHostPort_plain [of "''kroxy''" "''9092''"] by (simp_all add: Atoi_def Let_def digit_val_def)

subsection \<open>Transparent handlers\<close>

text \<open>A handler that succeeds is transparent when it has sent the client's request with the prefix put before
  each name and nothing else changed, and has answered with the broker's response to it with the prefix
  taken off each name and nothing else changed. So when the broker answers in prefixed names, the client
  reads the very response of a broker whose names carry no prefix.\<close>

definition transparent ::
    "((string \<Rightarrow> string) \<Rightarrow> 'q \<Rightarrow> 'q) \<Rightarrow> ((string \<Rightarrow> string) \<Rightarrow> 'p \<Rightarrow> 'p) \<Rightarrow> ('q, 'p) kapi \<Rightarrow> int16 \<Rightarrow> (RequestHeader \<Rightarrow> byte list \<Rightarrow> (conn, unit) op) \<Rightarrow> bool" where
  "transparent mapq mapp api key h \<longleftrightarrow>
     (\<forall>hdr body c d. h hdr body c = (Ok (), d) \<longrightarrow>
        (\<exists>req resp. ReadReq api (APIVersion hdr) body = Inr req \<and>
           exchanges api key hdr (mapq (PrefixIn (TopicPrefix (tenant c))) req) resp c d \<and>
           answered api hdr (mapp (StripOut (TopicPrefix (tenant c))) resp) c d \<and>
           (\<forall>r. resp = mapp (PrefixIn (TopicPrefix (tenant c))) r \<longrightarrow> answered api hdr r c d)))"

lemma rewriting_transparent:
  assumes "request_rewriter namesq mapq rin" and "response_rewriter namesp mapp rout"
  shows "transparent mapq mapp api key (rewriting who api key rin rej (rewritten rout))"
  unfolding transparent_def
proof (intro allI impI)
  fix hdr body c d
  assume "rewriting who api key rin rej (rewritten rout) hdr body c = (Ok (), d)"
  then obtain req resp out c' where x: "ReadReq api (APIVersion hdr) body = Inr req"
    "exchanges api key hdr (rin (TopicPrefix (tenant c)) req) resp c d"
    "rewritten rout (TopicPrefix (tenant c)) resp c' = (Ok out, c')" "answered api hdr out c d"
    by (rule rewriting_exchanges [OF reads_only_rout(1)])
  show "\<exists>req resp. ReadReq api (APIVersion hdr) body = Inr req \<and>
      exchanges api key hdr (mapq (PrefixIn (TopicPrefix (tenant c))) req) resp c d \<and>
      answered api hdr (mapp (StripOut (TopicPrefix (tenant c))) resp) c d \<and>
      (\<forall>r. resp = mapp (PrefixIn (TopicPrefix (tenant c))) r \<longrightarrow> answered api hdr r c d)"
    using x by (auto simp: rewritten_Ok request_rewriter.rin_mapn [OF assms(1)] response_rewriter.rout_mapn [OF assms(2)]
        response_rewriter.rout_prefixed [OF assms(2), unfolded response_rewriter.rout_mapn [OF assms(2)]])
qed

text \<open>A broker that answers a Fetch request for the topic it knows as \<open>a.orders\<close>.\<close>

definition fetch_lib :: "unit kmsg" where
  "fetch_lib = example_lib\<lparr>k_Fetch := (example_kapi \<lparr>Topics = [\<lparr>Topic = ''a.orders''\<rparr>]\<rparr>)
     \<lparr>ReadReq := (\<lambda>_ _. Inr \<lparr>Topics = [\<lparr>Topic = ''orders''\<rparr>]\<rparr>)\<rparr>\<rparr>"

subsection \<open>Properties\<close>



text \<open>C7: clients cannot tell the prefix. The handlers of the requests that name topics, groups or transactions
  one by one (Produce, Fetch, ListOffsets, CreateTopics, DeleteTopics, OffsetCommit, OffsetDelete,
  OffsetFetch, TxnOffsetCommit and AddPartitionsToTxn) are transparent: each sends exactly one request, the
  client's with the names prefixed, takes the answer with the same correlation id, and returns it with the
  names stripped and nothing else changed.\<close>

theorem handlers_transparent:
  "transparent map_topics map_topics (k_Produce K) ProduceKey (handleProduce K) \<and>
   transparent map_topics map_topics (k_Fetch K) FetchKey (handleFetch K) \<and>
   transparent map_topics map_topics (k_ListOffsets K) ListOffsetsKey (handleListOffsets K) \<and>
   transparent map_topics map_topics (k_CreateTopics K) CreateTopicsKey (handleCreateTopics K) \<and>
   transparent map_delete_request map_delete_response (k_DeleteTopics K) DeleteTopicsKey (handleDeleteTopics K) \<and>
   transparent map_group_topics map_topics (k_OffsetCommit K) OffsetCommitKey (handleOffsetCommit K) \<and>
   transparent map_group_topics map_topics (k_OffsetDelete K) OffsetDeleteKey (handleOffsetDelete K) \<and>
   transparent map_offset_fetch_request map_offset_fetch_response (k_OffsetFetch K) OffsetFetchKey (handleOffsetFetch K) \<and>
   transparent map_txn_offset_commit map_topics (k_TxnOffsetCommit K) TxnOffsetCommitKey (handleTxnOffsetCommit K) \<and>
   transparent map_add_partitions_request map_add_partitions_response (k_AddPartitionsToTxn K) AddPartitionsToTxnKey (handleAddPartitionsToTxn K)"
  unfolding handler_defs
  by (intro conjI)
    (rule rewriting_transparent [OF produce_in.request_rewriter_axioms produce_out.response_rewriter_axioms]
      rewriting_transparent [OF fetch_in.request_rewriter_axioms fetch_out.response_rewriter_axioms]
      rewriting_transparent [OF list_offsets_in.request_rewriter_axioms list_offsets_out.response_rewriter_axioms]
      rewriting_transparent [OF create_topics_in.request_rewriter_axioms create_topics_out.response_rewriter_axioms]
      rewriting_transparent [OF delete_topics_in.request_rewriter_axioms delete_topics_out.response_rewriter_axioms]
      rewriting_transparent [OF offset_commit_in.request_rewriter_axioms offset_commit_out.response_rewriter_axioms]
      rewriting_transparent [OF offset_delete_in.request_rewriter_axioms offset_delete_out.response_rewriter_axioms]
      rewriting_transparent [OF offset_fetch_in.request_rewriter_axioms offset_fetch_out.response_rewriter_axioms]
      rewriting_transparent [OF txn_offset_commit_in.request_rewriter_axioms txn_offset_commit_out.response_rewriter_axioms]
      rewriting_transparent [OF add_partitions_in.request_rewriter_axioms add_partitions_out.response_rewriter_axioms])+

theorem handlers_transparent_witness:
  "\<exists>d. handleFetch fetch_lib (example_hdr FetchKey) [] (example_conn (input_stream [])) = (Ok (), d) \<and>
     answered (k_Fetch fetch_lib) (example_hdr FetchKey) \<lparr>Topics = [\<lparr>Topic = ''orders''\<rparr>]\<rparr> (example_conn (input_stream [])) d"
proof -
  let ?c = "example_conn (input_stream [])"
  have "\<exists>d. handleFetch fetch_lib (example_hdr FetchKey) [] ?c = (Ok (), d)"
    unfolding handleFetch_def
    by (rule rewriting_answered [where b = "[]" and fs = "[]" and
          u = "\<lparr>unc = input_stream (frame_bytes (reply 1 [])), corrIDGen = 0, reqTO = DefaultRequestTimeout\<rparr>"])
       (simp_all add: fetch_lib_def example_kapi_def example_hdr_def answering_def rewritten_def input_stream_def frame_ok_reply
         ResponseHeaderVersion_def isFlexibleRequest_def key_defs)
  then obtain d where d: "handleFetch fetch_lib (example_hdr FetchKey) [] ?c = (Ok (), d)" ..
  have resp: "ReadResp (k_Fetch fetch_lib) v b = Inr (map_topics (PrefixIn ''a.'') \<lparr>Topics = [\<lparr>Topic = ''orders''\<rparr>]\<rparr>)" for v b
    by (simp add: fetch_lib_def example_kapi_def map_topics_def PrefixIn_def)
  have t: "transparent map_topics map_topics (k_Fetch fetch_lib) FetchKey (handleFetch fetch_lib)"
    by (rule handlers_transparent [of fetch_lib, THEN conjunct2, THEN conjunct1])
  from t [unfolded transparent_def, rule_format, OF d]
  obtain req resp where x: "exchanges (k_Fetch fetch_lib) FetchKey (example_hdr FetchKey) req resp ?c d"
    and a: "\<forall>r. resp = map_topics (PrefixIn (TopicPrefix (tenant ?c))) r \<longrightarrow> answered (k_Fetch fetch_lib) (example_hdr FetchKey) r ?c d"
    by blast
  from x have "resp = map_topics (PrefixIn ''a.'') \<lparr>Topics = [\<lparr>Topic = ''orders''\<rparr>]\<rparr>"
    unfolding exchanges_def resp by blast
  with a d show ?thesis by auto
qed

text \<open>A Produce request that asks for no acknowledgement is refused: the handler fails with the message
  of the source before anything is sent to the broker or to the client, and with the connection as it was.\<close>

lemma handleProduce_acks_zero:
  assumes "ReadReq (k_Produce K) (APIVersion hdr) body = Inr req" and "Acks req = 0"
  shows "handleProduce K hdr body c = (Err (ErrNew ''handleProduce: acks=0 produce is not supported by the proxy''), c)"
proof -
  have "Acks (ProduceRequestIn (TopicPrefix (tenant c)) req) = 0"
    using assms(2) by (simp add: ProduceRequestIn_def)
  then show ?thesis
    using assms(1) by (simp add: handleProduce_def rewriting_def acks_zero_def)
qed

text \<open>The advertised port of the configuration reaches clients only if it fits in 32 bits: it is
  converted without a check, so the port clients see equals the configured number exactly when that
  number is in the range of \<open>int32\<close>.\<close>

lemma advertised_port:
  assumes "SplitHostPort (srv_Advertised (cfg c)) = Inr (host, ps)" and "Atoi ps = Inr n"
  shows "\<exists>port. advertised c = (Ok (host, port), c) \<and> (sint port = n \<longleftrightarrow> - (2 ^ 31) \<le> n \<and> n < 2 ^ 31)"
proof -
  have "sint (word_of_int n :: int32) = n \<longleftrightarrow> - (2 ^ 31) \<le> n \<and> n < 2 ^ 31"
    by (simp add: signed_of_int signed_take_bit_int_eq_self_iff)
  then show ?thesis
    using assms by (auto simp: advertised_Ok)
qed

end
