(* ===== verification/Proxy_Serve.thy ===== *)
theory Proxy_Serve
  imports Proxy_Handlers
begin

text \<open>
  The request loop of \<open>proxy/conn.go\<close>: \<open>dispatch\<close> and \<open>serve\<close>.

  What the environment does between two requests is a \<open>tick\<close>: whether the context is cancelled, the
  state of the shared resolver (which the admin service may have changed) and how long the request
  takes. \<open>serve\<close> is given one tick per iteration. It terminates on every input, because each
  iteration that goes on has consumed a frame of the client.
\<close>

subsection \<open>Model\<close>

definition clientIdleTimeout :: int where "clientIdleTimeout = 10 * 60 * 1000000000"
definition clientHandshakeTimeout :: int where "clientHandshakeTimeout = 30 * 1000000000"

record tick =
  ctx_Err :: "go_error option"
  resolver_now :: memoryResolver
  elapsed :: int

definition dispatch :: "'s env \<Rightarrow> 'x kmsg \<Rightarrow> memoryResolver \<Rightarrow> RequestHeader \<Rightarrow> byte list \<Rightarrow> byte list \<Rightarrow> (conn, unit) op" where
  "dispatch E K R hdr frame body =
     (if APIKey hdr = ApiVersionsKey then handleApiVersions E hdr
      else if APIKey hdr = SaslHandshakeKey then handleSaslHandshake E hdr body
      else if APIKey hdr = SaslAuthenticateKey then handleSaslAuthenticate E R hdr body
      else op_bind (op_get state) (\<lambda>st.
        if st \<noteq> stateAuthenticated
        then op_fail (Errorf ''client sent api key %d before authentication'' [FInt (sint (APIKey hdr))])
        else if rewriteHandler K (APIKey hdr) \<noteq> None then forwardRewritten E K hdr body
        else forwardPassthrough E hdr frame))"

text \<open>Reading the next frame: an end of file is the client's clean close.\<close>

definition next_frame :: "(conn, byte list) op" where
  "next_frame c =
     (case on_nc read_frame c of
        (Ok frame, c) \<Rightarrow> (Ok frame, c)
      | (Err err, c) \<Rightarrow> if errors_Is err EOF then (Err ErrClientClosed, c) else (Err (Wrap err ''serve''), c)
      | (Panic, c) \<Rightarrow> (Panic, c))"

definition tenantLabel :: "conn \<Rightarrow> string" where
  "tenantLabel c = (if ID (tenant c) = [] then ''_unauth'' else ID (tenant c))"

text \<open>The metrics are observed after the request whether or not it failed, but not when it panicked.\<close>

definition observed :: "RequestHeader \<Rightarrow> int \<Rightarrow> (conn, unit) op \<Rightarrow> (conn, unit) op" where
  "observed hdr dur m c =
     (case m c of
        (Panic, c) \<Rightarrow> (Panic, c)
      | (r, c) \<Rightarrow> (r, c\<lparr>metrics := map_option (ObserveRequest (APIKey hdr) (tenantLabel c) dur) (metrics c)\<rparr>))"

definition serve_frame :: "'s env \<Rightarrow> 'x kmsg \<Rightarrow> tick \<Rightarrow> byte list \<Rightarrow> (conn, unit) op" where
  "serve_frame E K t frame =
     op_bind (op_wrap ''serve'' (op_lift (ParseRequestHeader frame))) (\<lambda>hdr.
     op_bind (op_lift (slice_from frame (HeaderSize hdr))) (\<lambda>body.
     op_wrap ''serve'' (observed hdr (elapsed t) (dispatch E K (resolver_now t) hdr frame body))))"

definition serve_step :: "'s env \<Rightarrow> 'x kmsg \<Rightarrow> tick \<Rightarrow> (conn, unit) op" where
  "serve_step E K t =
     op_bind (case ctx_Err t of Some err \<Rightarrow> op_fail err | None \<Rightarrow> op_return ()) (\<lambda>_.
     op_bind (op_get (\<lambda>c. if state c \<noteq> stateAuthenticated then clientHandshakeTimeout else clientIdleTimeout)) (\<lambda>to.
     op_bind (op_wrap ''serve'' (on_nc (op_error (SetReadDeadline (Some to))))) (\<lambda>_.
     op_bind next_frame (\<lambda>frame.
     op_bind (op_wrap ''serve'' (on_nc (op_error (SetReadDeadline None)))) (\<lambda>_.
     serve_frame E K t frame)))))"

subsection \<open>Frame conditions\<close>

lemma dispatch_keeps: "keeps conn_step (dispatch E K R hdr frame body)"
  unfolding dispatch_def
  by (intro connf.keeps_rules handleApiVersions_keeps handleSaslHandshake_keeps handleSaslAuthenticate_keeps
      forwardRewritten_keeps forwardPassthrough_keeps)

lemma ObserveRequest_keeps:
  "conn_step c (c\<lparr>metrics := map_option (ObserveRequest k l d) (metrics c)\<rparr>)"
  by (auto simp: conn_step_def stream.R_refl metrics_step_def ObserveRequest_def Let_def split: option.split)

lemma observed_keeps:
  assumes "keeps conn_step m"
  shows "keeps conn_step (observed hdr d m)"
proof (rule keepsI)
  fix c r c'
  assume e: "observed hdr d m c = (r, c')"
  obtain q c1 where q: "m c = (q, c1)" by force
  have "conn_step c c1" using keepsD [OF assms q] .
  then show "conn_step c c'"
    using e q connf.R_trans [OF _ ObserveRequest_keeps] by (cases q) (auto simp: observed_def)
qed

lemma next_frame_keeps: "keeps conn_step next_frame"
proof (rule keepsI)
  fix c r c'
  assume "next_frame c = (r, c')"
  then have "\<exists>q. on_nc read_frame c = (q, c')"
    by (cases "on_nc read_frame c") (auto simp: next_frame_def split: go.splits if_splits)
  then show "conn_step c c'"
    using keepsD [OF on_nc_keeps [OF stream_ops_keeps(1)]] by blast
qed

lemma serve_step_keeps: "keeps conn_step (serve_step E K t)"
  unfolding serve_step_def serve_frame_def
  by (intro connf.keeps_rules on_nc_keeps stream_ops_keeps next_frame_keeps observed_keeps dispatch_keeps)

lemma next_frame_Ok:
  "next_frame c = (Ok f, c') \<longleftrightarrow> (\<exists>rest. frame_ok f \<and> rd (nc c) = frame_bytes f @ rest \<and> c' = c\<lparr>nc := (nc c)\<lparr>rd := rest\<rparr>\<rparr>)"
proof -
  have "next_frame c = (Ok f, c') \<longleftrightarrow> on_nc read_frame c = (Ok f, c')"
    by (cases "on_nc read_frame c") (auto simp: next_frame_def split: go.split)
  then show ?thesis by (auto simp: on_nc_Pair read_frame_Ok)
qed

subsection \<open>One iteration\<close>

text \<open>An iteration ends early, with the connection unchanged but for the client socket, or it
  dispatches, and then differs from the dispatch by the metrics only.\<close>

lemma serve_step_frame:
  obtains s where "\<nexists>a. fst (serve_step E K t c) = Ok a" and "snd (serve_step E K t c) = c\<lparr>nc := s\<rparr>"
  | f rest s where "serve_step E K t c = serve_frame E K t f (c\<lparr>nc := s\<rparr>)" and "frame_ok f"
      and "rd (nc c) = frame_bytes f @ rest" and "s = (nc c)\<lparr>rd := rest, rd_deadline := None\<rparr>"
proof (cases "ctx_Err t")
  case (Some e)
  then show ?thesis using that(1) [of "nc c"] by (simp add: serve_step_def)
next
  case ctx: None
  let ?to = "if state c \<noteq> stateAuthenticated then clientHandshakeTimeout else clientIdleTimeout"
  show ?thesis
  proof (cases "deadline_err (nc c)")
    case (Some e)
    then show ?thesis using that(1) [of "nc c"] ctx
      by (simp add: serve_step_def on_nc_def op_bind_def op_wrap_def op_error_def SetReadDeadline_def)
  next
    case None
    let ?s = "(nc c)\<lparr>rd_deadline := Some ?to\<rparr>"
    obtain r2 s2 where r2: "read_frame ?s = (r2, s2)" by force
    show ?thesis
    proof (cases r2)
      case (Ok f)
      then obtain rest where "frame_ok f" "rd (nc c) = frame_bytes f @ rest" "s2 = ?s\<lparr>rd := rest\<rparr>"
        using r2 by (auto simp: read_frame_Ok)
      then show ?thesis using that(2) [of f "(nc c)\<lparr>rd := rest, rd_deadline := None\<rparr>" rest] ctx None r2 Ok
        by (simp add: serve_step_def on_nc_def op_bind_def op_wrap_def op_error_def next_frame_def SetReadDeadline_def)
    next
      case (Err e)
      then show ?thesis using that(1) [of s2] ctx None r2
        by (simp add: serve_step_def on_nc_def op_bind_def op_wrap_def op_error_def next_frame_def SetReadDeadline_def)
    next
      case Panic
      then show ?thesis using r2 by simp
    qed
  qed
qed

lemma serve_frame_dispatch:
  obtains "\<nexists>a. fst (serve_frame E K t f c) = Ok a" and "snd (serve_frame E K t f c) = c"
  | hdr body r d m where "ParseRequestHeader f = Ok hdr" and "slice_from f (HeaderSize hdr) = Ok body"
      and "dispatch E K (resolver_now t) hdr f body c = (r, d)"
      and "(\<exists>a. fst (serve_frame E K t f c) = Ok a) \<longleftrightarrow> (\<exists>a. r = Ok a)" and "snd (serve_frame E K t f c) = d\<lparr>metrics := m\<rparr>"
proof (cases "\<exists>hdr body. ParseRequestHeader f = Ok hdr \<and> slice_from f (HeaderSize hdr) = Ok body")
  case False
  then have "(\<nexists>a. fst (serve_frame E K t f c) = Ok a) \<and> snd (serve_frame E K t f c) = c"
    by (cases "ParseRequestHeader f") (auto simp: serve_frame_def op_bind_def op_wrap_def slice_from_def)
  then show ?thesis using that(1) by blast
next
  case True
  then obtain hdr body where h: "ParseRequestHeader f = Ok hdr" "slice_from f (HeaderSize hdr) = Ok body" by blast
  obtain r d where d: "dispatch E K (resolver_now t) hdr f body c = (r, d)" by force
  have ok: "(\<exists>a. fst (serve_frame E K t f c) = Ok a) \<longleftrightarrow> (\<exists>a. r = Ok a)"
    using h d by (cases r) (auto simp: serve_frame_def op_bind_def op_wrap_def observed_def)
  have "\<exists>m. snd (serve_frame E K t f c) = d\<lparr>metrics := m\<rparr>"
    using h d by (cases r)
      (auto simp: serve_frame_def op_bind_def op_wrap_def observed_def intro: exI [of _ "metrics d"])
  then obtain m where m: "snd (serve_frame E K t f c) = d\<lparr>metrics := m\<rparr>" ..
  show ?thesis by (rule that(2) [OF h d ok m])
qed

lemma serve_step_dispatch:
  obtains s where "\<nexists>a. fst (serve_step E K t c) = Ok a" and "snd (serve_step E K t c) = c\<lparr>nc := s\<rparr>"
  | f rest hdr body s r d m where "ParseRequestHeader f = Ok hdr" and "frame_ok f"
      and "rd (nc c) = frame_bytes f @ rest" and "s = (nc c)\<lparr>rd := rest, rd_deadline := None\<rparr>"
      and "dispatch E K (resolver_now t) hdr f body (c\<lparr>nc := s\<rparr>) = (r, d)"
      and "(\<exists>a. fst (serve_step E K t c) = Ok a) \<longleftrightarrow> (\<exists>a. r = Ok a)" and "snd (serve_step E K t c) = d\<lparr>metrics := m\<rparr>"
proof (rule serve_step_frame [of E K t c])
  fix f rest s
  assume f: "serve_step E K t c = serve_frame E K t f (c\<lparr>nc := s\<rparr>)" "frame_ok f"
    "rd (nc c) = frame_bytes f @ rest" "s = (nc c)\<lparr>rd := rest, rd_deadline := None\<rparr>"
  show ?thesis
    by (rule serve_frame_dispatch [of E K t f "c\<lparr>nc := s\<rparr>"])
      (use that(1) [of s] that(2) f in auto)
qed (rule that(1))

lemma serve_step_consumes:
  assumes "serve_step E K t c = (Ok u, c')"
  shows "length (rd (nc c')) < length (rd (nc c))"
proof (rule serve_step_dispatch [of E K t c])
  fix f rest hdr body s r d m
  assume r: "rd (nc c) = frame_bytes f @ rest" and s: "s = (nc c)\<lparr>rd := rest, rd_deadline := None\<rparr>"
    and d: "dispatch E K (resolver_now t) hdr f body (c\<lparr>nc := s\<rparr>) = (r, d)" and "snd (serve_step E K t c) = d\<lparr>metrics := m\<rparr>"
  have "conn_step (c\<lparr>nc := s\<rparr>) d" using keepsD [OF dispatch_keeps d] .
  then have "length (rd (nc d)) \<le> length rest"
    using s by (auto simp: conn_step_def stream_step_def dest: suffix_length_le)
  then show ?thesis
    using assms r \<open>snd (serve_step E K t c) = d\<lparr>metrics := m\<rparr>\<close> by (simp add: frame_bytes_def)
qed (use assms in auto)

subsection \<open>The loop\<close>

function serve :: "'s env \<Rightarrow> 'x kmsg \<Rightarrow> (nat \<Rightarrow> tick) \<Rightarrow> nat \<Rightarrow> conn \<Rightarrow> unit go \<times> conn" where
  "serve E K ticks n c =
     (case serve_step E K (ticks n) c of
        (Ok _, c) \<Rightarrow> serve E K ticks (Suc n) c
      | (Err err, c) \<Rightarrow> (Err err, c)
      | (Panic, c) \<Rightarrow> (Panic, c))"
  by pat_completeness auto

termination
  by (relation "measure (\<lambda>(E, K, ticks, n, c). length (rd (nc c)))")
    (auto dest!: serve_step_consumes [OF sym])

declare serve.simps [simp del]

text \<open>The iterations that go on, \<open>k\<close> of them from the n-th tick.\<close>

fun rounds :: "'s env \<Rightarrow> 'x kmsg \<Rightarrow> (nat \<Rightarrow> tick) \<Rightarrow> nat \<Rightarrow> nat \<Rightarrow> conn \<Rightarrow> conn option" where
  "rounds E K ticks n 0 c = Some c"
| "rounds E K ticks n (Suc k) c =
     (case serve_step E K (ticks n) c of (Ok _, c) \<Rightarrow> rounds E K ticks (Suc n) k c | _ \<Rightarrow> None)"

lemma serve_cases:
  "(\<exists>c1. serve_step E K (ticks n) c = (Ok (), c1) \<and> serve E K ticks n c = serve E K ticks (Suc n) c1) \<or>
   ((\<nexists>u. fst (serve_step E K (ticks n) c) = Ok u) \<and> serve E K ticks n c = serve_step E K (ticks n) c)"
  by (subst (1 3) serve.simps) (auto split: prod.split go.split)

lemma serve_rounds:
  "\<exists>k d. rounds E K ticks n k c = Some d \<and> serve_step E K (ticks (n + k)) d = serve E K ticks n c \<and>
     (\<nexists>u. fst (serve E K ticks n c) = Ok u)"
proof (induction c arbitrary: n rule: measure_induct_rule [of "\<lambda>c. length (rd (nc c))"])
  case (less c)
  from serve_cases [of E K ticks n c] show ?case
  proof (elim disjE exE conjE)
    fix c1
    assume s: "serve_step E K (ticks n) c = (Ok (), c1)" and e: "serve E K ticks n c = serve E K ticks (Suc n) c1"
    from less.IH [OF serve_step_consumes [OF s], of "Suc n"] obtain k d where
      "rounds E K ticks (Suc n) k c1 = Some d" "serve_step E K (ticks (Suc n + k)) d = serve E K ticks (Suc n) c1"
      "\<nexists>u. fst (serve E K ticks (Suc n) c1) = Ok u"
      by blast
    then have "rounds E K ticks n (Suc k) c = Some d \<and> serve_step E K (ticks (n + Suc k)) d = serve E K ticks n c \<and>
        (\<nexists>u. fst (serve E K ticks n c) = Ok u)"
      using s e by simp
    then show ?thesis by blast
  next
    assume "\<nexists>u. fst (serve_step E K (ticks n) c) = Ok u" "serve E K ticks n c = serve_step E K (ticks n) c"
    then have "rounds E K ticks n 0 c = Some c \<and> serve_step E K (ticks (n + 0)) c = serve E K ticks n c \<and>
        (\<nexists>u. fst (serve E K ticks n c) = Ok u)" by simp
    then show ?thesis by blast
  qed
qed

lemma rounds_keeps:
  assumes "frame_condition Q" and "\<And>m. keeps Q (serve_step E K (ticks m))" and "rounds E K ticks n k c = Some d"
  shows "Q c d"
  using assms(3)
proof (induction k arbitrary: n c)
  case 0
  then show ?case using frame_condition.R_refl [OF assms(1)] by simp
next
  case (Suc k)
  then obtain c1 where s: "serve_step E K (ticks n) c = (Ok (), c1)" and "rounds E K ticks (Suc n) k c1 = Some d"
    by (auto split: prod.splits go.splits)
  then have "Q c1 d" using Suc.IH by blast
  with keepsD [OF assms(2) s] show ?case by (rule frame_condition.R_trans [OF assms(1)])
qed

lemma serve_keeps:
  assumes "frame_condition Q" and "\<And>m. keeps Q (serve_step E K (ticks m))"
  shows "Q c (snd (serve E K ticks n c))"
proof -
  obtain k d where k: "rounds E K ticks n k c = Some d" "serve_step E K (ticks (n + k)) d = serve E K ticks n c"
    using serve_rounds by blast
  have "Q d (snd (serve E K ticks n c))"
    using assms(2) [of "n + k"] k(2) by (metis keeps_def)
  with rounds_keeps [OF assms k(1)] show ?thesis by (rule frame_condition.R_trans [OF assms(1)])
qed

subsection \<open>Authentication over the loop\<close>

definition auth_reach :: "memoryResolver \<Rightarrow> conn \<Rightarrow> conn \<Rightarrow> bool" where
  "auth_reach R c d \<longleftrightarrow> (auth_step R)\<^sup>*\<^sup>* (auth_of c) (auth_of d)"

interpretation authr: frame_condition "auth_reach R" for R
  by unfold_locales (auto simp: auth_reach_def)

lemma same_auth_reach: "keeps same_auth m \<Longrightarrow> keeps (auth_reach R) m"
  by (simp add: keeps_def same_auth_def auth_reach_def)

lemma reach_bind:
  assumes "auth_reach R c (snd (m c))" and "\<And>a. keeps same_auth (f a)"
  shows "auth_reach R c (snd (op_bind m f c))"
proof -
  obtain r d where m: "m c = (r, d)" by force
  have "auth_of (snd (f a d)) = auth_of d" for a
    using assms(2) by (auto simp: keeps_def same_auth_def)
  then show ?thesis
    using assms(1) m by (cases r) (simp_all add: auth_reach_def)
qed

lemma forward_auth:
  assumes "state c = stateAuthenticated"
  shows "auth_reach R c (snd (forwardPassthrough E hdr frame c))" "auth_reach R c (snd (forwardRewritten E K hdr body c))"
proof -
  have e: "auth_reach R c (snd (op_wrap w (ensureUpstream E) c))" for w
    using ensureUpstream_auth [OF assms] by (simp add: auth_reach_def)
  show "auth_reach R c (snd (forwardPassthrough E hdr frame c))"
    unfolding forwardPassthrough_def
    by (rule reach_bind, rule e, intro authf.keeps_rules authf.on_upstream_free authf.on_nc_free)
  show "auth_reach R c (snd (forwardRewritten E K hdr body c))"
    unfolding forwardRewritten_def
    by (rule reach_bind, rule e, rule authf.handler_free)
qed

lemma sasl_reach:
  "auth_reach R c (snd (handleApiVersions E hdr c))" "auth_reach R c (snd (handleSaslHandshake E hdr body c))"
  "auth_reach R c (snd (handleSaslAuthenticate E R hdr body c))"
  by (simp_all add: auth_reach_def handleApiVersions_auth handleSaslHandshake_auth handleSaslAuthenticate_auth)

lemma dispatch_auth: "keeps (auth_reach R) (dispatch E K R hdr frame body)"
  by (simp add: keeps_def dispatch_def sasl_reach forward_auth authr.R_refl)

lemma observed_reach:
  assumes "keeps (auth_reach R) m"
  shows "keeps (auth_reach R) (observed hdr d m)"
proof (rule keepsI)
  fix c r c'
  assume e: "observed hdr d m c = (r, c')"
  obtain q c1 where q: "m c = (q, c1)" by force
  have "auth_of c' = auth_of c1"
    using e q by (cases q) (auto simp: observed_def)
  with keepsD [OF assms q] show "auth_reach R c c'"
    by (simp add: auth_reach_def)
qed

lemma next_frame_auth: "keeps same_auth next_frame"
  by (auto simp: keeps_def same_auth_def next_frame_def on_nc_def split: prod.split go.split)

lemma serve_step_auth: "keeps (auth_reach (resolver_now t)) (serve_step E K t)"
  unfolding serve_step_def serve_frame_def
  by (intro authr.keeps_rules observed_reach dispatch_auth same_auth_reach [OF authf.on_nc_free] same_auth_reach [OF next_frame_auth])

text \<open>Consequences of the machine for a whole run: the invariant holds, phases only advance, and once
  authenticated a connection keeps its tenant, password and mechanism.\<close>

lemma auth_step_authenticated:
  "auth_step R a b \<Longrightarrow> a_state a = stateAuthenticated \<Longrightarrow> b = a\<lparr>a_up := True\<rparr>"
  by (auto elim: auth_stepE)

lemma auth_steps_authenticated:
  "(auth_step R)\<^sup>*\<^sup>* a b \<Longrightarrow> a_state a = stateAuthenticated \<Longrightarrow> b = a \<or> b = a\<lparr>a_up := True\<rparr>"
  by (induction rule: rtranclp_induct) (auto dest: auth_step_authenticated)

definition identity_fixed :: "conn \<Rightarrow> conn \<Rightarrow> bool" where
  "identity_fixed c d \<longleftrightarrow> state c \<le> state d \<and>
     (state c = stateAuthenticated \<longrightarrow> state d = stateAuthenticated \<and> tenant d = tenant c \<and>
       password d = password c \<and> clientMechanism d = clientMechanism c)"

interpretation fixedf: frame_condition identity_fixed
  by unfold_locales (auto simp: identity_fixed_def)

lemma auth_reach_fixed:
  assumes "auth_reach R c d"
  shows "identity_fixed c d"
proof -
  have "state c \<le> state d"
    using assms auth_steps_phase [of R "auth_of c" "auth_of d"] by (simp add: auth_reach_def)
  moreover have "auth_of d = auth_of c \<or> auth_of d = (auth_of c)\<lparr>a_up := True\<rparr>" if "state c = stateAuthenticated"
    using assms that auth_steps_authenticated [of R "auth_of c" "auth_of d"] by (simp add: auth_reach_def)
  then have "state d = stateAuthenticated \<and> tenant d = tenant c \<and> password d = password c \<and> clientMechanism d = clientMechanism c"
    if "state c = stateAuthenticated"
    using that by (auto simp: auth_of_def)
  ultimately show ?thesis by (simp add: identity_fixed_def)
qed

lemma serve_step_fixed: "keeps identity_fixed (serve_step E K t)"
  using serve_step_auth [of t E K] auth_reach_fixed by (auto simp: keeps_def)

lemma serve_step_inv:
  assumes "resolver_inv (resolver_now t)" and "auth_inv (auth_of c)"
  shows "auth_inv (auth_of (snd (serve_step E K t c)))"
  using serve_step_auth [of t E K] assms by (auto simp: keeps_def auth_reach_def dest: auth_steps_inv)

lemma newConn_auth: "auth_of (newConn s f m) = auth_init"
  by (simp add: auth_of_def newConn_def auth_init_def)

lemma rounds_inv:
  assumes "\<And>m. resolver_inv (resolver_now (ticks m))" and "auth_inv (auth_of c)" and "rounds E K ticks n k c = Some d"
  shows "auth_inv (auth_of d)"
proof -
  let ?Q = "\<lambda>c d. auth_inv (auth_of c) \<longrightarrow> auth_inv (auth_of d)"
  have "frame_condition ?Q"
    by unfold_locales auto
  moreover have "keeps ?Q (serve_step E K (ticks m))" for m
    by (auto simp: keeps_def intro: serve_step_inv assms(1))
  ultimately show ?thesis
    using rounds_keeps [of ?Q, OF _ _ assms(3)] assms(2) by blast
qed

subsection \<open>Responses over the loop\<close>

lemma dispatch_answers:
  assumes "appends_sasl E" and "appends_all K"
  shows "answers (CorrelationID hdr) (dispatch E K R hdr frame body)"
  unfolding dispatch_def
  by (intro answers_bind answers_case answers_simps quiet.keeps_rules sasl_responses handleSaslAuthenticate_answers
      forwardRewritten_answers forwardPassthrough_answers assms)

lemma serve_step_answers:
  assumes "appends_sasl E" and "appends_all K" and "serve_step E K t c = (Ok u, c')"
  shows "\<exists>f r. frame_ok f \<and> rd (nc c) = frame_bytes f @ rd (nc c') \<and> wr (nc c') = wr (nc c) @ frame_bytes r \<and>
    take 4 r = take 4 (drop 4 f)"
proof (rule serve_step_dispatch [of E K t c])
  fix f rest hdr body s r d m
  assume f: "frame_ok f" "rd (nc c) = frame_bytes f @ rest" and h: "ParseRequestHeader f = Ok hdr"
    and s: "s = (nc c)\<lparr>rd := rest, rd_deadline := None\<rparr>"
    and d: "dispatch E K (resolver_now t) hdr f body (c\<lparr>nc := s\<rparr>) = (r, d)"
    and r: "(\<exists>a. fst (serve_step E K t c) = Ok a) \<longleftrightarrow> (\<exists>a. r = Ok a)" and c': "snd (serve_step E K t c) = d\<lparr>metrics := m\<rparr>"
  have "one_frame (CorrelationID hdr) (c\<lparr>nc := s\<rparr>) d"
    using dispatch_answers [OF assms(1,2), of hdr "resolver_now t" f body] d r assms(3) by (auto simp: answers_def)
  then obtain b where b: "wr (nc d) = wr (nc c) @ frame_bytes (PutUint32 (CorrelationID hdr) @ b)" "rd (nc d) = rest"
    using s by (auto simp: one_frame_def)
  have id: "take 4 (PutUint32 (CorrelationID hdr) @ b) = take 4 (drop 4 f)"
    using ParseRequestHeader_Ok(1,4) [OF h] PutUint32_Uint32_list [of "take 4 (drop 4 f)"] by auto
  have "rd (nc c) = frame_bytes f @ rd (nc c')"
    "wr (nc c') = wr (nc c) @ frame_bytes (PutUint32 (CorrelationID hdr) @ b)"
    using f b c' assms(3) by simp_all
  with f(1) id show ?thesis by blast
qed (use assms(3) in auto)

lemma rounds_answers:
  assumes "appends_sasl E" and "appends_all K" and "rounds E K ticks n k c = Some d"
  shows "\<exists>fs rs. length fs = k \<and> list_all frame_ok fs \<and> rd (nc c) = concat (map frame_bytes fs) @ rd (nc d) \<and>
    wr (nc d) = wr (nc c) @ concat (map frame_bytes rs) \<and> list_all2 (\<lambda>f r. take 4 r = take 4 (drop 4 f)) fs rs"
  using assms(3)
proof (induction k arbitrary: n c)
  case 0
  then show ?case by (intro exI [of _ "[]"]) simp
next
  case (Suc k)
  then obtain c1 where s: "serve_step E K (ticks n) c = (Ok (), c1)" and "rounds E K ticks (Suc n) k c1 = Some d"
    by (auto split: prod.splits go.splits)
  from Suc.IH [OF this(2)] obtain fs rs where ih: "length fs = k" "list_all frame_ok fs"
    "rd (nc c1) = concat (map frame_bytes fs) @ rd (nc d)" "wr (nc d) = wr (nc c1) @ concat (map frame_bytes rs)"
    "list_all2 (\<lambda>f r. take 4 r = take 4 (drop 4 f)) fs rs"
    by blast
  from serve_step_answers [OF assms(1,2) s] obtain f r where "frame_ok f" "rd (nc c) = frame_bytes f @ rd (nc c1)"
    "wr (nc c1) = wr (nc c) @ frame_bytes r" "take 4 r = take 4 (drop 4 f)"
    by blast
  with ih show ?case by (intro exI [of _ "f # fs"] exI [of _ "r # rs"]) simp
qed

subsection \<open>How long the loop runs\<close>

lemma serve_step_reads:
  assumes "serve_step E K t c = (Ok u, c')"
  shows "length (rd (nc c')) + 12 \<le> length (rd (nc c))"
proof (rule serve_step_dispatch [of E K t c])
  fix f rest hdr body s r d m
  assume h: "ParseRequestHeader f = Ok hdr" and r: "rd (nc c) = frame_bytes f @ rest" and s: "s = (nc c)\<lparr>rd := rest, rd_deadline := None\<rparr>"
    and d: "dispatch E K (resolver_now t) hdr f body (c\<lparr>nc := s\<rparr>) = (r, d)" and e: "snd (serve_step E K t c) = d\<lparr>metrics := m\<rparr>"
  have "conn_step (c\<lparr>nc := s\<rparr>) d" using keepsD [OF dispatch_keeps d] .
  then have "length (rd (nc d)) \<le> length rest"
    using s by (auto simp: conn_step_def stream_step_def dest: suffix_length_le)
  then show ?thesis
    using assms r e ParseRequestHeader_Ok(1) [OF h] by (simp add: frame_bytes_def)
qed (use assms in auto)

lemma rounds_reads: "rounds E K ticks n k c = Some d \<Longrightarrow> 12 * k + length (rd (nc d)) \<le> length (rd (nc c))"
proof (induction k arbitrary: n c)
  case (Suc k)
  then obtain c1 where s: "serve_step E K (ticks n) c = (Ok (), c1)" and r: "rounds E K ticks (Suc n) k c1 = Some d"
    by (auto split: prod.splits go.splits)
  show ?case using Suc.IH [OF r] serve_step_reads [OF s] by simp
qed simp

lemma serve_step_serves:
  assumes "ctx_Err t = None" and "deadline_err (nc c) = None" and "frame_ok f" and "rd (nc c) = frame_bytes f @ rest"
  shows "serve_step E K t c = serve_frame E K t f (c\<lparr>nc := (nc c)\<lparr>rd := rest, rd_deadline := None\<rparr>\<rparr>)"
proof -
  let ?to = "if state c \<noteq> stateAuthenticated then clientHandshakeTimeout else clientIdleTimeout"
  let ?c = "c\<lparr>nc := (nc c)\<lparr>rd_deadline := Some ?to\<rparr>\<rparr>"
  have "next_frame ?c = (Ok f, ?c\<lparr>nc := (nc ?c)\<lparr>rd := rest\<rparr>\<rparr>)"
    unfolding next_frame_Ok using assms(3,4) by auto
  then show ?thesis
    using assms(1,2) by (simp add: serve_step_def on_nc_def op_bind_def op_wrap_def op_error_def SetReadDeadline_def)
qed

subsection \<open>An example\<close>

definition example_env :: "nat env" where
  "example_env = \<lparr>kmsg_of = example_kmsg, scram_of = example_scram, net_dial = (\<lambda>_ _. Inr example_broker)\<rparr>"

definition example_ticks :: "nat \<Rightarrow> tick" where
  "example_ticks = (\<lambda>_. \<lparr>ctx_Err = None, resolver_now = \<lparr>tenants = []\<rparr>, elapsed = 0\<rparr>)"

lemma example_appends: "appends_sasl example_env" "appends_all example_lib"
  by (simp_all add: appends_sasl_def appends_all_def example_env_def example_kmsg_def example_lib_def appends_def example_kapi_def)

definition example_request :: "byte list" where
  "example_request = PutUint16 ApiVersionsKey @ PutUint16 0 @ PutUint32 9 @ PutUint16 0"

lemma example_request_parse:
  "ParseRequestHeader example_request = Ok \<lparr>APIKey = ApiVersionsKey, APIVersion = 0, CorrelationID = 9, ClientID = [], HeaderVersion = 1, HeaderSize = 10\<rparr>"
  using ParseRequestHeader_fixed [of ApiVersionsKey 0 9 "PutUint16 0"]
  by (simp add: example_request_def RequestHeaderVersion_def parse_client_id_def Let_def)

lemma example_serves:
  assumes "nc c = input_stream (frame_bytes example_request @ rest)"
  shows "\<exists>d. serve_step example_env K \<lparr>ctx_Err = None, resolver_now = R, elapsed = 0\<rparr> c = (Ok (), d)"
proof -
  have "frame_ok example_request" by (simp add: frame_ok_def example_request_def PutUint16_def)
  moreover have "slice_from example_request 10 = Ok []" by (simp add: slice_from_def example_request_def)
  ultimately show ?thesis
    using assms
    by (subst serve_step_serves) (auto simp: input_stream_def serve_frame_def example_request_parse
        dispatch_def handleApiVersions_def writeResponse_def op_bind_def op_wrap_def observed_def on_nc_def split: prod.split)
qed

subsection \<open>Properties\<close>

text \<open>C11: the request loop of a connection ends, for every client, broker and environment, and only with
  an error or a panic. It has then served some number \<open>k\<close> of requests, each of which took at least
  twelve bytes of the client's input, and what it returns is what the iteration after them returned.\<close>

theorem serve_terminates:
  "\<exists>k d. rounds E K ticks n k c = Some d \<and> 12 * k + length (rd (nc d)) \<le> length (rd (nc c)) \<and>
     serve_step E K (ticks (n + k)) d = serve E K ticks n c \<and> (\<nexists>u. fst (serve E K ticks n c) = Ok u)"
  using serve_rounds [of E K ticks n c] rounds_reads [of E K ticks n _ c] by blast

text \<open>C5: each request is answered once and in order. When the loop of a connection ends after \<open>k\<close> served
  requests, the client's input up to that point consists of \<open>k\<close> frames, the proxy has written exactly
  \<open>k\<close> response frames to it up to that point, and the i-th response carries the correlation id of the
  i-th request. The message library is only assumed to append what it encodes.\<close>

theorem serve_answers_in_order:
  assumes "appends_sasl E" and "appends_all K"
  shows "\<exists>k d fs rs. rounds E K ticks n k c = Some d \<and> serve_step E K (ticks (n + k)) d = serve E K ticks n c \<and>
    (\<nexists>u. fst (serve E K ticks n c) = Ok u) \<and> length fs = k \<and>
    rd (nc c) = concat (map frame_bytes fs) @ rd (nc d) \<and> wr (nc d) = wr (nc c) @ concat (map frame_bytes rs) \<and>
    list_all2 (\<lambda>f r. take 4 r = take 4 (drop 4 f)) fs rs"
proof -
  obtain k d where k: "rounds E K ticks n k c = Some d" "serve_step E K (ticks (n + k)) d = serve E K ticks n c"
    "\<nexists>u. fst (serve E K ticks n c) = Ok u"
    using serve_rounds by blast
  from rounds_answers [OF assms k(1)] k show ?thesis by blast
qed

theorem serve_answers_in_order_witness:
  "\<exists>k d fs rs. rounds example_env example_lib example_ticks 0 k (example_conn (input_stream (frame_bytes example_request))) = Some d \<and>
     length fs = k \<and> frame_bytes example_request = concat (map frame_bytes fs) @ rd (nc d) \<and>
     wr (nc d) = concat (map frame_bytes rs) \<and> list_all2 (\<lambda>f r. take 4 r = take 4 (drop 4 f)) fs rs"
proof -
  have "rd (nc (example_conn (input_stream b))) = b" "wr (nc (example_conn (input_stream b))) = []" for b
    by (simp_all add: input_stream_def)
  with serve_answers_in_order [OF example_appends, of example_ticks 0 "example_conn (input_stream (frame_bytes example_request))"]
  show ?thesis by (metis append_Nil)
qed

text \<open>C4: an iteration of the loop implements the authentication machine. What it does to the phase, the
  mechanism, the tenant, the password, the presence of an upstream and the count of SCRAM rounds of a
  connection is a sequence of steps of \<open>auth_step\<close> with the tenants the resolver has at that moment,
  on every request, every answer of the broker and every error.\<close>

theorem serve_step_refines_auth:
  "(auth_step (resolver_now t))\<^sup>*\<^sup>* (auth_of c) (auth_of (snd (serve_step E K t c)))"
  using serve_step_auth [of t E K] by (simp add: keeps_def auth_reach_def)

text \<open>The phase of a connection only advances and an authenticated identity is final. Over any number
  of served requests, an authenticated connection stays authenticated as the same tenant, with the same
  password and mechanism: a second authentication does not take effect.\<close>

lemma rounds_identity_fixed:
  assumes "rounds E K ticks n k c = Some d" and "state c = stateAuthenticated"
  shows "state d = stateAuthenticated \<and> tenant d = tenant c \<and> password d = password c \<and> clientMechanism d = clientMechanism c"
  using rounds_keeps [OF fixedf.frame_condition_axioms serve_step_fixed assms(1)] assms(2)
  by (simp add: identity_fixed_def)

end
