(* ===== verification/Proxy_Traffic.thy ===== *)
theory Proxy_Traffic
  imports Proxy_Serve
begin

text \<open>
  What a client connection sends to brokers, over the whole request loop: the messages of an
  authenticated connection are the tenant's, and only addresses of resolved tenants are dialled.
\<close>

subsection \<open>Messages to the broker\<close>

text \<open>What a tenant's authenticated connection may send: a rewritten request all of whose names are the
  tenant's, or the client's own frame, with the correlation id replaced, when its key has no rewriter.\<close>

definition frame_key :: "byte list \<Rightarrow> int16" where
  "frame_key f = BigEndian_Uint16 (take 2 f)"

inductive tenant_message :: "'x kmsg \<Rightarrow> string \<Rightarrow> byte list \<Rightarrow> bool" for K p where
  rewritten_request: "tenant_request K p hdr body b \<Longrightarrow> tenant_message K p b"
| passed_through: "frame_key f \<notin> rewritten_keys \<Longrightarrow>
    tenant_message K p (frame_bytes (take 4 f @ PutUint32 cid @ drop 8 f))"

text \<open>The upstream connection that the traffic of \<open>c\<close> goes to: the one it has, or one dialled for its
  tenant with its credentials.\<close>

definition opened :: "'s env \<Rightarrow> conn \<Rightarrow> UConn \<Rightarrow> bool" where
  "opened E c u \<longleftrightarrow>
     (case upstream c of
        Some u' \<Rightarrow> u = u'
      | None \<Rightarrow> \<exists>c0. tenant c0 = tenant c \<and> password c0 = password c \<and> clientMechanism c0 = clientMechanism c \<and>
          cfg c0 = cfg c \<and> fst (dial_upstream E c0) = Ok u)"

definition traffic :: "'s env \<Rightarrow> 'x kmsg \<Rightarrow> conn \<Rightarrow> bool \<Rightarrow> conn \<Rightarrow> bool" where
  "traffic E K c whole d \<longleftrightarrow>
     upstream d = upstream c \<or>
     (\<exists>u v ms t. opened E c u \<and> upstream d = Some v \<and> wr (unc v) = wr (unc u) @ concat ms @ t \<and>
        list_all (tenant_message K (TopicPrefix (tenant c))) ms \<and>
        (t = [] \<or> \<not> whole \<and> (\<exists>b. tenant_message K (TopicPrefix (tenant c)) b \<and> prefix t b)))"

lemma ensureUpstream_cases:
  obtains d u where "ensureUpstream E c = (Ok (), d)" "upstream d = Some u" "opened E c u" "tenant d = tenant c"
  | d r where "ensureUpstream E c = (r, d)" "\<nexists>u. r = Ok u" "upstream d = upstream c"
proof (cases "upstream c")
  case (Some u)
  then show ?thesis using that(1) [of c u] by (simp add: ensureUpstream_def opened_def)
next
  case None
  let ?c = "note_dial (Upstream (tenant c)) (dial_upstream E c) c"
  show ?thesis
  proof (cases "fst (dial_upstream E c)")
    case (Ok u)
    then have "opened E c u" using None by (auto simp: opened_def)
    then show ?thesis
      using that(1) [of "?c\<lparr>upstream := Some u\<rparr>" u] None Ok by (simp add: ensureUpstream_def Let_def)
  next
    case (Err e)
    then show ?thesis
      using that(2) None by (simp add: ensureUpstream_def Let_def)
  next
    case Panic
    then show ?thesis
      using that(2) None by (simp add: ensureUpstream_def Let_def)
  qed
qed

lemma sends_up_traffic:
  assumes "sends_up P d res" and "upstream d = Some u" and "opened E c u"
    and "\<And>b. P b \<Longrightarrow> tenant_message K (TopicPrefix (tenant c)) b"
  shows "traffic E K c (\<exists>a. fst res = Ok a) (snd res)"
proof -
  from assms(1,2) obtain v b' where v: "upstream (snd res) = Some v" "wr (unc v) = wr (unc u) @ b'"
    and b: "b' = [] \<or> (\<exists>b. P b \<and> prefix b' b)" and ok: "\<And>a. fst res = Ok a \<Longrightarrow> P b'"
    by (auto simp: sends_up_def)
  show ?thesis
  proof (cases "\<exists>a. fst res = Ok a")
    case True
    then have "tenant_message K (TopicPrefix (tenant c)) b'" using ok assms(4) by blast
    then have "\<exists>u v ms t. opened E c u \<and> upstream (snd res) = Some v \<and> wr (unc v) = wr (unc u) @ concat ms @ t \<and>
        list_all (tenant_message K (TopicPrefix (tenant c))) ms \<and> t = []"
      using assms(3) v by (intro exI [of _ u] exI [of _ v] exI [of _ "[b']"] exI [of _ "[]"]) simp
    then show ?thesis unfolding traffic_def by blast
  next
    case False
    have "\<exists>u v ms t. opened E c u \<and> upstream (snd res) = Some v \<and> wr (unc v) = wr (unc u) @ concat ms @ t \<and>
        list_all (tenant_message K (TopicPrefix (tenant c))) ms \<and>
        (t = [] \<or> (\<exists>b. tenant_message K (TopicPrefix (tenant c)) b \<and> prefix t b))"
      using assms(3,4) v b by (intro exI [of _ u] exI [of _ v] exI [of _ "[]"] exI [of _ b']) auto
    with False show ?thesis unfolding traffic_def by blast
  qed
qed

lemma tail_upstream [simp]: "upstream (c\<lparr>nc := s\<rparr>) = upstream c" "upstream (snd (on_nc m c)) = upstream c"
  by simp_all

lemma passthrough_traffic:
  assumes "8 \<le> length f" and "frame_key f \<notin> rewritten_keys"
  shows "traffic E K c (\<exists>a. fst (forwardPassthrough E hdr f c) = Ok a) (snd (forwardPassthrough E hdr f c))"
proof (rule ensureUpstream_cases [of E c])
  fix d u
  assume d: "ensureUpstream E c = (Ok (), d)" "upstream d = Some u" "opened E c u" "tenant d = tenant c"
  let ?P = "\<lambda>b. \<exists>cid. b = frame_bytes (take 4 f @ PutUint32 cid @ drop 8 f)"
  have "sends_up ?P d (on_upstream (RoundTrip f (CorrelationID hdr) (HeaderVersion hdr)
       (ResponseHeaderVersion (APIKey hdr) (APIVersion hdr))) d)"
    by (rule on_upstream_sends [where b = "frame_bytes (take 4 f @ PutUint32 (corrIDGen u + 1) @ drop 8 f)", OF d(2)],
        rule RoundTrip_emits [OF assms(1)], blast)
  then have "sends_up ?P d (forwardPassthrough E hdr f c)"
    using d(1) by (simp add: forwardPassthrough_def sends_up_bind)
  then show ?thesis
    by (rule sends_up_traffic [OF _ d(2,3)]) (auto intro: passed_through [OF assms(2)])
next
  fix d r
  assume "ensureUpstream E c = (r, d)" "\<nexists>u. r = Ok u" "upstream d = upstream c"
  then show ?thesis
    by (cases r) (simp_all add: forwardPassthrough_def traffic_def)
qed

lemma rewritten_traffic:
  assumes "blob_ok (k_Subscription K)" and "blob_ok (k_Assignment K)" and "rewriteHandler K (APIKey hdr) = Some h"
  shows "traffic E K c (\<exists>a. fst (forwardRewritten E K hdr body c) = Ok a) (snd (forwardRewritten E K hdr body c))"
proof (rule ensureUpstream_cases [of E c])
  fix d u
  assume d: "ensureUpstream E c = (Ok (), d)" "upstream d = Some u" "opened E c u" "tenant d = tenant c"
  have "sends_up (tenant_request K (TopicPrefix (tenant c)) hdr body) d (forwardRewritten E K hdr body c)"
    using handlers_send [OF assms(3) d(2) assms(1,2), of body] d(1,4) assms(3) by (simp add: forwardRewritten_def)
  then show ?thesis
    by (rule sends_up_traffic [OF _ d(2,3)]) (rule rewritten_request)
next
  fix d r
  assume "ensureUpstream E c = (r, d)" "\<nexists>u. r = Ok u" "upstream d = upstream c"
  then show ?thesis
    by (cases r) (simp_all add: forwardRewritten_def traffic_def)
qed

lemma upstream_responses [simp]:
  "upstream (snd (writeResponse api hdr resp c)) = upstream c"
  "upstream (snd (auth_response E hdr code msg pl c)) = upstream c"
  "upstream (snd (refuse E hdr mech res code m c)) = upstream c"
  by (simp_all add: writeResponse_def auth_response_def refuse_def)

lemma sasl_upstream:
  "upstream (snd (handleApiVersions E hdr c)) = upstream c"
  "upstream (snd (handleSaslHandshake E hdr body c)) = upstream c"
  "state c = stateAuthenticated \<Longrightarrow> upstream (snd (handleSaslAuthenticate E R hdr body c)) = upstream c"
proof -
  show "upstream (snd (handleApiVersions E hdr c)) = upstream c"
    by (simp add: handleApiVersions_def)
  show "upstream (snd (handleSaslHandshake E hdr body c)) = upstream c"
    by (cases "ReadReq (k_SASLHandshake (kmsg_of E)) (APIVersion hdr) body")
      (simp_all add: handleSaslHandshake_def Let_def)
  show "upstream (snd (handleSaslAuthenticate E R hdr body c)) = upstream c" if "state c = stateAuthenticated"
    using that
    by (cases "ReadReq (k_SASLAuthenticate (kmsg_of E)) (APIVersion hdr) body")
      (simp_all add: handleSaslAuthenticate_def handleSaslAuthenticatePlain_def handleSaslAuthenticateSCRAM_def)
qed

lemma dispatch_traffic:
  assumes "state c = stateAuthenticated" and "ParseRequestHeader f = Ok hdr"
    and "blob_ok (k_Subscription K)" and "blob_ok (k_Assignment K)"
  shows "traffic E K c (\<exists>a. fst (dispatch E K R hdr f body c) = Ok a) (snd (dispatch E K R hdr f body c))"
proof (cases "APIKey hdr \<in> {ApiVersionsKey, SaslHandshakeKey, SaslAuthenticateKey}")
  case True
  then have "upstream (snd (dispatch E K R hdr f body c)) = upstream c"
    using assms(1) by (auto simp: dispatch_def sasl_upstream)
  then show ?thesis by (simp add: traffic_def)
next
  case False
  then have d: "dispatch E K R hdr f body c =
      (if rewriteHandler K (APIKey hdr) \<noteq> None then forwardRewritten E K hdr body c else forwardPassthrough E hdr f c)"
    using assms(1) by (simp add: dispatch_def)
  show ?thesis
  proof (cases "rewriteHandler K (APIKey hdr)")
    case None
    then have "frame_key f \<notin> rewritten_keys"
      using ParseRequestHeader_Ok(2) [OF assms(2)] by (simp add: rewriteHandler_None frame_key_def)
    then show ?thesis
      using d None passthrough_traffic [OF ParseRequestHeader_Ok(1) [OF assms(2)]] by simp
  next
    case (Some h)
    then show ?thesis
      using d rewritten_traffic [OF assms(3,4) Some] by simp
  qed
qed

lemma traffic_from:
  assumes "traffic E K c w d" and "upstream c = upstream c0" and "tenant c = tenant c0" and "password c = password c0"
    and "clientMechanism c = clientMechanism c0" and "cfg c = cfg c0" and "upstream e = upstream d"
  shows "traffic E K c0 w e"
proof -
  have "opened E c u = opened E c0 u" for u
    using assms(2-6) by (simp add: opened_def split: option.split)
  then show ?thesis
    using assms by (simp add: traffic_def)
qed

lemma serve_step_traffic:
  assumes "state c = stateAuthenticated" and "blob_ok (k_Subscription K)" and "blob_ok (k_Assignment K)"
  shows "traffic E K c (\<exists>a. fst (serve_step E K t c) = Ok a) (snd (serve_step E K t c))"
proof (rule serve_step_dispatch [of E K t c])
  fix s
  assume "snd (serve_step E K t c) = c\<lparr>nc := s\<rparr>"
  then show ?thesis by (simp add: traffic_def)
next
  fix f rest hdr body s r d m
  assume h: "ParseRequestHeader f = Ok hdr" and d: "dispatch E K (resolver_now t) hdr f body (c\<lparr>nc := s\<rparr>) = (r, d)"
    and r: "(\<exists>a. fst (serve_step E K t c) = Ok a) \<longleftrightarrow> (\<exists>a. r = Ok a)" and e: "snd (serve_step E K t c) = d\<lparr>metrics := m\<rparr>"
  have "traffic E K (c\<lparr>nc := s\<rparr>) (\<exists>a. fst (serve_step E K t c) = Ok a) d"
    using dispatch_traffic [OF _ h assms(2,3), of "c\<lparr>nc := s\<rparr>" E "resolver_now t" body] assms(1) d r by simp
  then show ?thesis by (rule traffic_from) (simp_all add: e)
qed

lemma traffic_trans:
  assumes "traffic E K c True d" and "traffic E K d w e" and "identity_fixed c d" and "state c = stateAuthenticated"
    and "cfg d = cfg c"
  shows "traffic E K c w e"
proof (cases "upstream d = upstream c")
  case True
  show ?thesis
    by (rule traffic_from [OF assms(2) True]) (use assms(3-5) in \<open>simp_all add: identity_fixed_def\<close>)
next
  case False
  let ?m = "tenant_message K (TopicPrefix (tenant c))"
  have t: "tenant d = tenant c" using assms(3,4) by (simp add: identity_fixed_def)
  from assms(1) False obtain u v ms where d: "opened E c u" "upstream d = Some v" "wr (unc v) = wr (unc u) @ concat ms" "list_all ?m ms"
    by (auto simp: traffic_def)
  show ?thesis
  proof (cases "upstream e = upstream d")
    case True
    with d show ?thesis
      unfolding traffic_def by (intro disjI2 exI [of _ ms] exI [of _ "[]"] exI) auto
  next
    case False
    with assms(2) obtain u' v' ms' t where e: "opened E d u'" "upstream e = Some v'" "wr (unc v') = wr (unc u') @ concat ms' @ t"
      "list_all ?m ms'" "t = [] \<or> \<not> w \<and> (\<exists>b. ?m b \<and> prefix t b)"
      unfolding traffic_def t by blast
    have "u' = v" using e(1) d(2) by (simp add: opened_def)
    with d e have "opened E c u \<and> upstream e = Some v' \<and> wr (unc v') = wr (unc u) @ concat (ms @ ms') @ t \<and>
        list_all ?m (ms @ ms') \<and> (t = [] \<or> \<not> w \<and> (\<exists>b. ?m b \<and> prefix t b))"
      by simp
    then show ?thesis unfolding traffic_def by blast
  qed
qed

text \<open>Over the whole loop, whatever the client sends and the broker answers, everything written to the
  upstream is a sequence of messages of the tenant, the last one possibly cut short by a failing write.\<close>

lemma serve_traffic:
  assumes "state c = stateAuthenticated" and "blob_ok (k_Subscription K)" and "blob_ok (k_Assignment K)"
  shows "traffic E K c False (snd (serve E K ticks n c))"
  using assms(1)
proof (induction c arbitrary: n rule: measure_induct_rule [of "\<lambda>c. length (rd (nc c))"])
  case (less c)
  let ?w = "\<exists>a. fst (serve_step E K (ticks n) c) = Ok a"
  have step: "traffic E K c ?w (snd (serve_step E K (ticks n) c))"
    by (rule serve_step_traffic [OF less.prems assms(2,3)])
  from serve_cases [of E K ticks n c] show ?case
  proof (elim disjE exE conjE)
    fix c1
    assume s: "serve_step E K (ticks n) c = (Ok (), c1)" and e: "serve E K ticks n c = serve E K ticks (Suc n) c1"
    have f: "identity_fixed c c1" using keepsD [OF serve_step_fixed s] .
    have cf: "cfg c1 = cfg c" using keepsD [OF serve_step_keeps s] by (simp add: conn_step_def)
    have "traffic E K c1 False (snd (serve E K ticks (Suc n) c1))"
      using less.IH [OF serve_step_consumes [OF s]] f less.prems by (simp add: identity_fixed_def)
    with step s e f cf less.prems show ?thesis
      using traffic_trans [of E K c c1] by simp
  next
    assume "\<nexists>u. fst (serve_step E K (ticks n) c) = Ok u" "serve E K ticks n c = serve_step E K (ticks n) c"
    with step show ?thesis by simp
  qed
qed

subsection \<open>Dialled addresses\<close>

definition tenants_of :: "memoryResolver \<Rightarrow> Tenant set" where
  "tenants_of R = {t. \<exists>i. memoryResolver_Get R i = Inr t}"

definition dials_in :: "Tenant set \<Rightarrow> conn \<Rightarrow> conn \<Rightarrow> bool" where
  "dials_in T c d \<longleftrightarrow> (\<exists>us. dialed d = dialed c @ us \<and> set us \<subseteq> Upstream ` T)"

interpretation dialf: sasl_frame "dials_in T" for T
proof
  show "dials_in T c e" if "dials_in T c d" "dials_in T d e" for c d e
    using that by (auto simp: dials_in_def)
qed (simp_all add: dials_in_def)

lemma dials_same: "dialed d = dialed c \<Longrightarrow> dials_in T c d"
  by (simp add: dials_in_def)

lemma handleSaslAuthenticateSCRAM_dials:
  assumes "tenants_of R \<subseteq> T"
  shows "keeps (dials_in T) (handleSaslAuthenticateSCRAM E R hdr body)"
proof -
  have "keeps (dials_in T) (dial_scram E mech t)" if "memoryResolver_Get R u = Inr t" for mech t u
  proof -
    have "t \<in> T" using assms that by (auto simp: tenants_of_def)
    then show ?thesis by (auto simp: keeps_def dial_scram_def Let_def note_dial_def dials_in_def)
  qed
  moreover have "keeps (dials_in T) (op_modify (\<lambda>c. c\<lparr>tenant := t\<rparr>))"
    "keeps (dials_in T) (op_modify (\<lambda>c. c\<lparr>upstream := up, state := st\<rparr>))" for t up st
    by (simp_all add: keeps_def dials_in_def)
  ultimately show ?thesis
    unfolding handleSaslAuthenticateSCRAM_def
    by (intro dialf.keeps_bind dialf.keeps_if keeps_sum_eq keeps_go dialf.keeps_pure dialf.record_metric_free
        dialf.refuse_free dialf.scram_relay_free) auto
qed

lemma ensureUpstream_dials: "tenant c \<in> T \<Longrightarrow> dials_in T c (snd (ensureUpstream E c))"
  by (auto simp: ensureUpstream_def Let_def dials_in_def note_dial_def split: go.split)

lemma forward_dials:
  assumes "tenant c \<in> T"
  shows "dials_in T c (snd (forwardPassthrough E hdr f c))" "dials_in T c (snd (forwardRewritten E K hdr body c))"
proof -
  have e: "dials_in T c (snd (op_wrap w (ensureUpstream E) c))" for w
    using ensureUpstream_dials [OF assms] by simp
  show "dials_in T c (snd (forwardPassthrough E hdr f c))"
    unfolding forwardPassthrough_def
    by (rule dialf.at_bind, rule e, rule keepsD [OF _ prod.collapse [symmetric]])
      (intro dialf.keeps_rules dialf.on_nc_free dialf.on_upstream_free)
  show "dials_in T c (snd (forwardRewritten E K hdr body c))"
    unfolding forwardRewritten_def
    by (rule dialf.at_bind, rule e, rule keepsD [OF dialf.handler_free prod.collapse [symmetric]])
qed

lemma dispatch_dials:
  assumes "tenants_of R \<subseteq> T" and "state c = stateAuthenticated \<Longrightarrow> tenant c \<in> T"
  shows "dials_in T c (snd (dispatch E K R hdr f body c))"
proof -
  note sasl = dialf.handleApiVersions_free dialf.handleSaslHandshake_free dialf.handleSaslAuthenticatePlain_free
    handleSaslAuthenticateSCRAM_dials [OF assms(1)]
  show ?thesis
    using assms(2) forward_dials(1) [of c T E hdr f] forward_dials(2) [of c T E K hdr body]
    by (simp add: dispatch_def handleSaslAuthenticate_def sasl [unfolded keeps_def, rule_format] dialf.R_refl)
qed

text \<open>From the relay on, a connection's tenant is one the resolver returned.\<close>

definition tenant_known :: "Tenant set \<Rightarrow> conn \<Rightarrow> bool" where
  "tenant_known T c \<longleftrightarrow> (stateRelaySaslInFlight \<le> state c \<longrightarrow> tenant c \<in> T)"

lemma auth_step_known:
  "auth_step R a b \<Longrightarrow> tenants_of R \<subseteq> T \<Longrightarrow> (stateRelaySaslInFlight \<le> a_state a \<longrightarrow> a_tenant a \<in> T) \<Longrightarrow>
   stateRelaySaslInFlight \<le> a_state b \<longrightarrow> a_tenant b \<in> T"
  by (induction rule: auth_step.induct) (auto simp: tenants_of_def less_eq_connState_def)

lemma auth_reach_known:
  assumes "auth_reach R c d" and "tenants_of R \<subseteq> T" and "tenant_known T c"
  shows "tenant_known T d"
proof -
  have "(auth_step R)\<^sup>*\<^sup>* (auth_of c) (auth_of d)" using assms(1) by (simp add: auth_reach_def)
  then have "stateRelaySaslInFlight \<le> a_state (auth_of d) \<longrightarrow> a_tenant (auth_of d) \<in> T"
    using assms(2,3) by (induction rule: rtranclp_induct) (auto simp: tenant_known_def dest: auth_step_known)
  then show ?thesis by (simp add: tenant_known_def)
qed

definition dials_known :: "Tenant set \<Rightarrow> conn \<Rightarrow> conn \<Rightarrow> bool" where
  "dials_known T c d \<longleftrightarrow> (tenant_known T c \<longrightarrow> tenant_known T d \<and> dials_in T c d)"

lemma serve_step_dials:
  assumes "tenants_of (resolver_now t) \<subseteq> T"
  shows "keeps (dials_known T) (serve_step E K t)"
proof -
  have "dials_in T c (snd (serve_step E K t c))" if k: "tenant_known T c" for c
  proof (rule serve_step_dispatch [of E K t c])
    fix f rest hdr body s r d m
    assume "dispatch E K (resolver_now t) hdr f body (c\<lparr>nc := s\<rparr>) = (r, d)" "snd (serve_step E K t c) = d\<lparr>metrics := m\<rparr>"
    moreover have "dials_in T (c\<lparr>nc := s\<rparr>) (snd (dispatch E K (resolver_now t) hdr f body (c\<lparr>nc := s\<rparr>)))"
      by (rule dispatch_dials [OF assms]) (use k in \<open>simp add: tenant_known_def less_eq_connState_def\<close>)
    ultimately show ?thesis by (simp add: dials_in_def)
  qed (simp add: dials_same)
  moreover have "tenant_known T (snd (serve_step E K t c))" if "tenant_known T c" for c
    by (rule auth_reach_known [OF _ assms that]) (use serve_step_auth [of t E K] in \<open>simp add: keeps_def\<close>)
  ultimately show ?thesis by (simp add: keeps_def dials_known_def)
qed

lemma serve_dials:
  assumes "\<And>m. tenants_of (resolver_now (ticks m)) \<subseteq> T"
  shows "dials_known T c (snd (serve E K ticks n c))"
proof (rule serve_keeps)
  show "frame_condition (dials_known T)"
    by unfold_locales (auto simp: dials_known_def dialf.R_refl dest: dialf.R_trans)
  show "keeps (dials_known T) (serve_step E K (ticks m))" for m
    by (rule serve_step_dials [OF assms])
qed

end
