(* ===== verification/Proxy_Sockets.thy ===== *)
theory Proxy_Sockets
  imports Proxy_Traffic
begin

text \<open>
  The sockets a connection opens to brokers, over the whole request loop: each one is the upstream of
  the connection or was closed and given up by a failed dial, so none is left behind.
\<close>

subsection \<open>The socket of one dial\<close>

text \<open>The number of sockets that a dial made, which the network either opened or refused.\<close>

definition made :: "go_error + stream \<Rightarrow> nat" where
  "made r = (case r of Inl _ \<Rightarrow> 0 | Inr _ \<Rightarrow> 1)"

definition held :: "dialed \<Rightarrow> nat" where
  "held d = length (snd d) + (case fst d of Ok _ \<Rightarrow> 1 | _ \<Rightarrow> 0)"

lemma held_dial_step: "(\<And>c. held (k c) = 1) \<Longrightarrow> held (dial_step who m k c) = 1"
  by (auto simp: dial_step_def held_def [of "(Err _, _)"] held_def [of "(Panic, _)"] split: prod.split go.split)

lemma held_dial_done [simp]: "held (dial_done c) = 1"
  by (simp add: held_def dial_done_def)

lemma held_negotiated:
  assumes "held d = n" and "dial_clean d" and "\<And>u. fst d = Ok u \<Longrightarrow> held (k u) = n"
  shows "held (negotiated who d k) = n"
  using assms by (cases d; cases "fst d") (auto simp: negotiated_def held_def)

lemma held_dialAndNegotiate: "held (dialAndNegotiate K nd addr mech) = made (nd addr)"
proof (cases "nd addr")
  case (Inl e)
  then show ?thesis by (simp add: dialAndNegotiate_def held_def made_def)
next
  case (Inr s)
  then show ?thesis by (simp add: dialAndNegotiate_def made_def held_dial_step)
qed

lemma held_after:
  assumes "\<And>u. held (k u) = 1"
  shows "held (negotiated who (dialAndNegotiate K nd addr mech) k) = made (nd addr)"
proof (rule held_negotiated [OF held_dialAndNegotiate dialAndNegotiate_clean])
  fix u
  assume "fst (dialAndNegotiate K nd addr mech) = Ok u"
  then have "held (dialAndNegotiate K nd addr mech) > 0" by (simp add: held_def)
  then have "made (nd addr) = 1"
    unfolding held_dialAndNegotiate by (simp add: made_def split: sum.splits)
  then show "held (k u) = made (nd addr)" using assms by simp
qed

lemma held_dials:
  "held (Dial K nd addr user pass) = made (nd addr)"
  "IsSCRAMMechanism mech \<Longrightarrow> held (DialForSCRAM K nd addr mech) = made (nd addr)"
  "IsSCRAMMechanism mech \<Longrightarrow> held (DialSCRAM K S nd addr mech user pass) = made (nd addr)"
  by (simp_all add: Dial_def DialForSCRAM_def DialSCRAM_def held_after held_dial_step)

subsection \<open>The sockets of a connection\<close>

text \<open>Every socket that the dials of a connection opened is its upstream or is among the lost ones.\<close>

definition dials_made :: "'s env \<Rightarrow> string list \<Rightarrow> nat" where
  "dials_made E as = sum_list (map (\<lambda>i. made (net_dial E i (as ! i))) [0..<length as])"

lemma dials_made_simps [simp]:
  "dials_made E [] = 0" "dials_made E (as @ [a]) = dials_made E as + made (net_dial E (length as) a)"
  by (auto simp: dials_made_def nth_append intro!: arg_cong [where f = sum_list] map_cong)

definition accounted :: "'s env \<Rightarrow> conn \<Rightarrow> bool" where
  "accounted E c \<longleftrightarrow> dials_made E (dialed c) = length (lost c) + (if upstream c = None then 0 else 1)"

definition same_sockets :: "conn \<Rightarrow> conn \<Rightarrow> bool" where
  "same_sockets c d \<longleftrightarrow> dialed d = dialed c \<and> lost d = lost c \<and> (upstream d = None \<longleftrightarrow> upstream c = None)"

interpretation sockf: sasl_frame same_sockets
  by unfold_locales (auto simp: same_sockets_def)

lemma same_sockets_accounted: "same_sockets c d \<Longrightarrow> accounted E c \<Longrightarrow> accounted E d"
  by (simp add: same_sockets_def accounted_def)

subsection \<open>No socket is lost track of\<close>

lemma accounted_dial:
  assumes "accounted E c" and "upstream c = None"
    and "held up = made (net_dial E (length (dialed c)) addr)"
  shows "fst up = Ok u \<Longrightarrow> accounted E ((note_dial addr up c)\<lparr>upstream := Some u\<rparr>)"
    and "fst up = Err e \<Longrightarrow> accounted E (note_dial addr up c)"
  using assms by (simp_all add: accounted_def note_dial_def held_def)

lemma dial_upstream_held: "held (dial_upstream E c) = made (net_dial E (length (dialed c)) (Upstream (tenant c)))"
  by (simp add: dial_upstream_def Let_def held_dials shouldTranslatePlainToSCRAM_def)

lemma dial_not_Panic: "dial_clean d \<Longrightarrow> fst d \<noteq> Panic"
  by (simp add: dial_clean_def)

lemma accounted_simps [simp]:
  "accounted E (c\<lparr>nc := s\<rparr>) = accounted E c" "accounted E (c\<lparr>metrics := m\<rparr>) = accounted E c"
  "accounted E (c\<lparr>tenant := t\<rparr>) = accounted E c" "accounted E (c\<lparr>state := st\<rparr>) = accounted E c"
  by (simp_all add: accounted_def)

lemma ensureUpstream_accounted: "accounted E c \<Longrightarrow> accounted E (snd (ensureUpstream E c))"
  using accounted_dial [OF _ _ dial_upstream_held, of E c] dial_not_Panic [OF dial_upstream_clean, of E c]
  by (auto simp: ensureUpstream_def Let_def split: go.split)

lemma accounted_keeps: "keeps same_sockets m \<Longrightarrow> accounted E c \<Longrightarrow> accounted E (snd (m c))"
  using same_sockets_accounted by (auto simp: keeps_def)

lemma accounted_bind:
  assumes "accounted E (snd (m c))" and "\<And>a. keeps same_sockets (f a)"
  shows "accounted E (snd (op_bind m f c))"
proof -
  obtain r d where m: "m c = (r, d)" by force
  then show ?thesis
    using assms(1) accounted_keeps [OF assms(2)] by (cases r) simp_all
qed

lemma forward_accounted:
  assumes "accounted E c"
  shows "accounted E (snd (forwardPassthrough E hdr f c))" "accounted E (snd (forwardRewritten E K hdr body c))"
proof -
  have e: "accounted E (snd (op_wrap w (ensureUpstream E) c))" for w
    using ensureUpstream_accounted [OF assms] by simp
  show "accounted E (snd (forwardPassthrough E hdr f c))"
    unfolding forwardPassthrough_def by (rule accounted_bind, rule e, intro sockf.keeps_rules sockf.on_nc_free sockf.on_upstream_free)
  show "accounted E (snd (forwardRewritten E K hdr body c))"
    unfolding forwardRewritten_def
    by (rule accounted_bind, rule e, rule sockf.handler_free)
qed

lemma handleSaslAuthenticateSCRAM_accounted:
  assumes "accounted E c" and "state c = stateAwaitAuth \<Longrightarrow> upstream c = None" and scram: "IsSCRAMMechanism (clientMechanism c)"
  shows "accounted E (snd (handleSaslAuthenticateSCRAM E R hdr body c))"
proof (cases "ReadReq (k_SASLAuthenticate (kmsg_of E)) (APIVersion hdr) body")
  case (Inl e)
  then show ?thesis using assms(1) by (simp add: handleSaslAuthenticateSCRAM_def)
next
  case (Inr req)
  note acc = accounted_keeps [OF sockf.refuse_free] accounted_keeps [OF sockf.scram_relay_free]
  show ?thesis
  proof (cases "\<exists>u t. state c = stateAwaitAuth \<and> ParseSCRAMClientFirstUsername (SASLAuthBytes req) = Inr u \<and>
      memoryResolver_Get R u = Inr t")
    case False
    then show ?thesis
      using Inr assms(1) by (auto simp: handleSaslAuthenticateSCRAM_def acc split: sum.split)
  next
    case True
    then obtain u t where t: "state c = stateAwaitAuth" "ParseSCRAMClientFirstUsername (SASLAuthBytes req) = Inr u"
      "memoryResolver_Get R u = Inr t" by blast
    let ?c = "c\<lparr>metrics := map_option (\<lambda>m. m @ [ResolverCallsTotal_Inc ''ok'']) (metrics c), tenant := t\<rparr>"
    let ?up = "DialForSCRAM (kmsg_of E) (net_dial E (length (dialed c))) (Upstream t) (clientMechanism c)"
    have h: "held ?up = made (net_dial E (length (dialed ?c)) (Upstream t))"
      using held_dials(2) [OF scram] by simp
    have "accounted E ?c" "upstream ?c = None" using assms(1,2) t(1) by simp_all
    note d = accounted_dial [OF this h]
    show ?thesis
      using Inr t d dial_not_Panic [OF DialForSCRAM_clean, of "kmsg_of E" "net_dial E (length (dialed c))" "Upstream t" "clientMechanism c"]
      by (auto simp: handleSaslAuthenticateSCRAM_def dial_scram_def Let_def acc split: go.split)
  qed
qed

text \<open>Before it relays SCRAM messages a connection has no upstream, so the dial for SCRAM replaces none.\<close>

lemma dispatch_accounted:
  assumes "accounted E c" and "auth_inv (auth_of c)"
  shows "accounted E (snd (dispatch E K R hdr f body c))"
proof -
  have "state c = stateAwaitAuth \<Longrightarrow> upstream c = None"
    using assms(2) by (simp add: auth_inv_def)
  note scram = handleSaslAuthenticateSCRAM_accounted [OF assms(1) this]
  show ?thesis
    using assms(1) scram
    by (simp add: dispatch_def handleSaslAuthenticate_def accounted_keeps sockf.handleApiVersions_free sockf.handleSaslHandshake_free
        sockf.handleSaslAuthenticatePlain_free forward_accounted)
qed

lemma serve_step_accounted:
  assumes "accounted E c" and "auth_inv (auth_of c)"
  shows "accounted E (snd (serve_step E K t c))"
proof (rule serve_step_dispatch [of E K t c])
  fix f rest hdr body s r d m
  assume d: "dispatch E K (resolver_now t) hdr f body (c\<lparr>nc := s\<rparr>) = (r, d)" and "snd (serve_step E K t c) = d\<lparr>metrics := m\<rparr>"
  moreover have "accounted E (snd (dispatch E K (resolver_now t) hdr f body (c\<lparr>nc := s\<rparr>)))"
    by (rule dispatch_accounted) (use assms in simp_all)
  ultimately show ?thesis by simp
qed (use assms in simp)

definition sockets_inv :: "'s env \<Rightarrow> conn \<Rightarrow> bool" where
  "sockets_inv E c \<longleftrightarrow> auth_inv (auth_of c) \<and> accounted E c \<and> list_all closed (lost c)"

lemma serve_step_sockets_inv:
  assumes "resolver_inv (resolver_now t)" and "sockets_inv E c"
  shows "sockets_inv E (snd (serve_step E K t c))"
proof -
  have "conn_step c (snd (serve_step E K t c))"
    using keepsD [OF serve_step_keeps prod.collapse [symmetric]] .
  then show ?thesis
    using assms by (auto simp: sockets_inv_def conn_step_def serve_step_inv serve_step_accounted)
qed

lemma newConn_sockets_inv: "sockets_inv E (newConn s f m)"
  using newConn_auth [of s f m] by (simp add: sockets_inv_def auth_inv_init accounted_def) (simp add: newConn_def)

lemma serve_sockets_inv:
  assumes "\<And>m. resolver_inv (resolver_now (ticks m))" and "sockets_inv E c"
  shows "sockets_inv E (snd (serve E K ticks n c))"
proof -
  let ?Q = "\<lambda>c d. sockets_inv E c \<longrightarrow> sockets_inv E d"
  have "?Q c (snd (serve E K ticks n c))"
  proof (rule serve_keeps)
    show "frame_condition ?Q" by unfold_locales auto
    show "keeps ?Q (serve_step E K (ticks m))" for m
      by (auto simp: keeps_def intro: serve_step_sockets_inv assms(1))
  qed
  with assms(2) show ?thesis by blast
qed

subsection \<open>Properties\<close>

text \<open>C24: connections stay well-formed. A new connection is well-formed, and one iteration of the request
  loop, with a well-formed catalogue, takes a well-formed connection to one, whatever the client and the
  broker do and however it ends: phase, mechanism, tenant, password, upstream and SCRAM rounds fit
  together as \<open>auth_inv\<close> says, every socket its dials opened is its upstream or was given up, and those
  given up are closed.\<close>

theorem serve_step_well_formed:
  assumes "resolver_inv (resolver_now t)"
  shows "sockets_inv E (newConn s f m) \<and> (sockets_inv E c \<longrightarrow> sockets_inv E (snd (serve_step E K t c)))"
  using newConn_sockets_inv serve_step_sockets_inv [OF assms] by blast

theorem serve_step_well_formed_witness:
  "sockets_inv example_env (newConn (input_stream []) (cfg (example_conn (input_stream []))) None) \<and>
   sockets_inv example_env (snd (serve_step example_env example_lib (example_ticks 0) (newConn (input_stream []) (cfg (example_conn (input_stream []))) None)))"
proof -
  have "resolver_inv (resolver_now (example_ticks 0))"
    by (simp add: example_ticks_def resolver_inv_def)
  from serve_step_well_formed [OF this, of example_env] show ?thesis by blast
qed

end
