(* ===== verification/Proxy_Listener.thy ===== *)
theory Proxy_Listener
  imports Proxy_Sockets
begin

text \<open>
  \<open>proxy/listener.go\<close>: the server, the life of one client connection (\<open>handle\<close>), the accept loop
  of \<open>Run\<close> and the bounded wait of \<open>Wait\<close>.

  What the environment does is a parameter: the outcome of \<open>Listen\<close> and, for each call of \<open>Accept\<close>,
  an \<open>accept\<close> event with the state of the context. The loop is a function of the list of these events,
  and a list that ends before the loop returns leaves it waiting in \<open>Accept\<close>. The deferred calls of
  \<open>handle\<close> run when \<open>serve\<close> panics too, and the panic then ends the process.
\<close>

subsection \<open>Model\<close>

record Server =
  s_cfg :: ServerConfig
  s_resolver :: memoryResolver
  s_metrics :: "Metrics option"
  s_log :: Logger
  s_listener :: "(string \<times> bool) option"
  s_wg :: "stream list"

definition NewServer :: "ServerConfig \<Rightarrow> memoryResolver \<Rightarrow> Metrics option \<Rightarrow> Logger \<Rightarrow> Server" where
  "NewServer cf r m l = \<lparr>s_cfg = cf, s_resolver = r, s_metrics = m, s_log = l, s_listener = None, s_wg = []\<rparr>"

text \<open>The outcome of a connection, the warning it logged, and its state after the deferred calls.\<close>

definition with_metrics :: "Metrics \<Rightarrow> conn \<Rightarrow> conn" where
  "with_metrics es c = c\<lparr>metrics := map_option (\<lambda>m. m @ es) (metrics c)\<rparr>"

definition handle_begin :: "ServerConfig \<Rightarrow> Metrics option \<Rightarrow> stream \<Rightarrow> conn" where
  "handle_begin cf m s = with_metrics [ConnectionsTotal_Inc, ConnectionsActive_Inc] (newConn s cf m)"

definition handle_end :: "conn \<Rightarrow> conn" where
  "handle_end c = conn_close (with_metrics [ConnectionsActive_Dec] c)"

definition handle ::
    "'s env \<Rightarrow> 'x kmsg \<Rightarrow> (nat \<Rightarrow> tick) \<Rightarrow> ServerConfig \<Rightarrow> Metrics option \<Rightarrow> stream \<Rightarrow> unit go \<times> go_error option \<times> conn" where
  "handle E K ticks cf m s =
     (case serve E K ticks 0 (handle_begin cf m s) of
        (Ok _, c) \<Rightarrow> (Ok (), None, handle_end c)
      | (Err err, c) \<Rightarrow> (Ok (), if errors_Is err ErrClientClosed then None else Some err, handle_end c)
      | (Panic, c) \<Rightarrow> (Panic, None, handle_end c))"

definition maxAcceptBackoff :: int where "maxAcceptBackoff = 1000000000"

text \<open>A connection, or an error with what \<open>ctx.Err()\<close> then returns and whether the context ends while
  the loop waits for its timer.\<close>

datatype accept = Accepted stream | Failed go_error "go_error option" bool

record accept_loop =
  backoff :: int
  spawned :: "stream list"
  delays :: "int list"
  returned :: bool

definition next_backoff :: "int \<Rightarrow> int" where
  "next_backoff b =
     (let b = (if b = 0 then 5 * 1000000 else wrap64 (b * 2))
      in if b > maxAcceptBackoff then maxAcceptBackoff else b)"

definition accept_step :: "accept \<Rightarrow> accept_loop \<Rightarrow> accept_loop" where
  "accept_step a l =
     (case a of
        Accepted s \<Rightarrow> l\<lparr>backoff := 0, spawned := spawned l @ [s]\<rparr>
      | Failed err ctx done_waiting \<Rightarrow>
          if ctx \<noteq> None \<or> errors_Is err ErrClosed then l\<lparr>returned := True\<rparr>
          else let b = next_backoff (backoff l)
               in l\<lparr>backoff := b, delays := delays l @ [b], returned := done_waiting\<rparr>)"

fun accept_all_of :: "accept list \<Rightarrow> accept_loop \<Rightarrow> accept_loop" where
  "accept_all_of [] l = l"
| "accept_all_of (a # as) l = (let l = accept_step a l in if returned l then l else accept_all_of as l)"

definition accept_begin :: accept_loop where
  "accept_begin = \<lparr>backoff = 0, spawned = [], delays = [], returned = False\<rparr>"

text \<open>\<open>Run\<close>: an error of \<open>Listen\<close>, or the server it leaves and the state of its loop.\<close>

definition Run :: "(string \<Rightarrow> go_error option) \<Rightarrow> accept list \<Rightarrow> Server \<Rightarrow> go_error + Server \<times> accept_loop" where
  "Run net_listen as s =
     (case net_listen (srv_Listen (s_cfg s)) of
        Some err \<Rightarrow> Inl (Wrap err ''Run'')
      | None \<Rightarrow>
          let l = accept_all_of as accept_begin
          in Inr (s\<lparr>s_listener := Some (srv_Listen (s_cfg s), srv_TLS (s_cfg s) \<noteq> None), s_wg := spawned l\<rparr>, l))"

text \<open>\<open>Wait\<close>: given after how long the last connection in flight returns (\<open>None\<close>: never), how long it
  blocks and whether the connections have returned by then.\<close>

definition drainTimeout :: int where "drainTimeout = 30 * 1000000000"

definition Wait :: "int option \<Rightarrow> int \<times> bool" where
  "Wait drained =
     (case drained of
        Some t \<Rightarrow> if t \<le> drainTimeout then (t, True) else (drainTimeout, False)
      | None \<Rightarrow> (drainTimeout, False))"

subsection \<open>The life of a connection\<close>

fun accepted_total :: "Metrics \<Rightarrow> nat" where
  "accepted_total [] = 0"
| "accepted_total (ConnectionsTotal_Inc # m) = Suc (accepted_total m)"
| "accepted_total (_ # m) = accepted_total m"

lemma accepted_total_append [simp]: "accepted_total (m @ n) = accepted_total m + accepted_total n"
  by (induction m rule: accepted_total.induct) auto

lemma conn_metric_neutral: "list_all conn_metric n \<Longrightarrow> active n = 0 \<and> accepted_total n = 0"
proof (induction n)
  case (Cons e n)
  then show ?case by (cases e) auto
qed simp

lemma handle_eq:
  "\<exists>r c. serve E K ticks 0 (handle_begin cf m s) = (r, c) \<and> snd (snd (handle E K ticks cf m s)) = handle_end c \<and>
     (fst (handle E K ticks cf m s) = Panic \<longleftrightarrow> r = Panic)"
  by (cases "serve E K ticks 0 (handle_begin cf m s)") (auto simp: handle_def split: go.split)

lemma handle_end_sel [simp]:
  "metrics (handle_end c) = map_option (\<lambda>m. m @ [ConnectionsActive_Dec]) (metrics c)"
  "lost (handle_end c) = lost c" "dialed (handle_end c) = dialed c" "closed (nc (handle_end c))"
  "upstream (handle_end c) = map_option UConn_Close (upstream c)"
  by (simp_all add: handle_end_def conn_close_def with_metrics_def net_Close_def)

lemma handle_begin_sel [simp]:
  "metrics (handle_begin cf m s) = map_option (\<lambda>m. m @ [ConnectionsTotal_Inc, ConnectionsActive_Inc]) m"
  "nc (handle_begin cf m s) = s" "auth_of (handle_begin cf m s) = auth_init" "cfg (handle_begin cf m s) = cf"
  by (simp_all add: handle_begin_def with_metrics_def newConn_auth) (simp_all add: newConn_def)

lemma handle_begin_sockets: "sockets_inv E (handle_begin cf m s)"
  using newConn_sockets_inv [of E s cf m] by (simp add: sockets_inv_def handle_begin_def with_metrics_def)

lemma serve_conn_step: "conn_step c (snd (serve E K ticks n c))"
  by (rule serve_keeps [OF connf.frame_condition_axioms serve_step_keeps])

lemma handle_metrics:
  assumes "snd (snd (handle E K ticks cf (Some M) s)) = d"
  shows "\<exists>N. metrics d = Some (M @ N) \<and> active N = 0 \<and> accepted_total N = 1"
proof -
  let ?b = "handle_begin cf (Some M) s"
  obtain r c where c: "serve E K ticks 0 ?b = (r, c)" "d = handle_end c"
    using handle_eq [of E K ticks cf "Some M" s] assms by blast
  have "metrics_step (metrics ?b) (metrics c)"
    using serve_conn_step [of ?b E K ticks 0] c by (simp add: conn_step_def)
  then obtain n where "metrics c = Some (M @ [ConnectionsTotal_Inc, ConnectionsActive_Inc] @ n)" "list_all conn_metric n"
    by (auto simp: metrics_step_def)
  then show ?thesis
    using c conn_metric_neutral [of n] by simp
qed

lemma handle_sockets:
  assumes "\<And>m. resolver_inv (resolver_now (ticks m))" and "snd (snd (handle E K ticks cf m s)) = d"
  shows "closed (nc d) \<and> pred_option (\<lambda>u. closed (unc u)) (upstream d) \<and> list_all closed (lost d) \<and>
    dials_made E (dialed d) = length (lost d) + (if upstream d = None then 0 else 1)"
proof -
  obtain r c where c: "serve E K ticks 0 (handle_begin cf m s) = (r, c)" "d = handle_end c"
    using handle_eq [of E K ticks cf m s] assms(2) by blast
  have "sockets_inv E (snd (serve E K ticks 0 (handle_begin cf m s)))"
    by (rule serve_sockets_inv [OF assms(1) handle_begin_sockets])
  then have "sockets_inv E c" using c by simp
  then show ?thesis
    using c by (cases "upstream c") (simp_all add: sockets_inv_def accounted_def UConn_Close_def net_Close_def)
qed

subsection \<open>The accept loop\<close>

text \<open>An event that ends the loop, and one that it retries after.\<close>

fun shuts_down :: "accept \<Rightarrow> bool" where
  "shuts_down (Accepted s) = False"
| "shuts_down (Failed err ctx done_waiting) \<longleftrightarrow> ctx \<noteq> None \<or> errors_Is err ErrClosed \<or> done_waiting"

fun accepted :: "accept list \<Rightarrow> stream list" where
  "accepted [] = []"
| "accepted (Accepted s # as) = s # accepted as"
| "accepted (Failed err ctx w # as) = accepted as"

lemma accept_step_returned: "\<not> returned l \<Longrightarrow> returned (accept_step a l) \<longleftrightarrow> shuts_down a"
  by (cases a) (auto simp: accept_step_def Let_def)

lemma accept_step_spawned: "spawned (accept_step a l) = spawned l @ accepted [a]"
  by (cases a) (auto simp: accept_step_def Let_def)

lemma accepted_Cons: "accepted (a # as) = accepted [a] @ accepted as"
  by (cases a) simp_all

lemma accept_loop_exact:
  "\<not> returned l \<Longrightarrow>
   (returned (accept_all_of as l) \<longleftrightarrow> list_ex shuts_down as) \<and>
   spawned (accept_all_of as l) = spawned l @ accepted (takeWhile (\<lambda>a. \<not> shuts_down a) as)"
proof (induction as arbitrary: l)
  case (Cons a as)
  show ?case
  proof (cases "shuts_down a")
    case True
    then have "accepted [a] = []" by (cases a) simp_all
    with True show ?thesis
      using Cons.prems by (simp add: Let_def accept_step_returned accept_step_spawned)
  next
    case False
    then show ?thesis
      using Cons.IH [of "accept_step a l"] Cons.prems accepted_Cons [of a "takeWhile (\<lambda>a. \<not> shuts_down a) as"]
      by (simp add: Let_def accept_step_returned accept_step_spawned)
  qed
qed simp

text \<open>The delay after \<open>k\<close> failures in a row.\<close>

definition delay_after :: "nat \<Rightarrow> int" where
  "delay_after k = (if k = 0 then 0 else min (5000000 * 2 ^ (k - 1)) maxAcceptBackoff)"

lemma next_backoff_delay: "next_backoff (delay_after k) = delay_after (Suc k)"
proof (cases k)
  case (Suc j)
  have "0 < delay_after k" "delay_after k \<le> 1000000000"
    using Suc by (simp_all add: delay_after_def maxAcceptBackoff_def min_def)
  moreover from this have "wrap64 (delay_after k * 2) = delay_after k * 2"
    by (intro wrap64_id) simp_all
  ultimately have "next_backoff (delay_after k) = min (delay_after k * 2) maxAcceptBackoff"
    by (simp add: next_backoff_def Let_def min_def)
  also have "\<dots> = delay_after (Suc k)"
    using Suc by (simp add: delay_after_def maxAcceptBackoff_def min_def)
  finally show ?thesis .
qed (simp add: next_backoff_def delay_after_def maxAcceptBackoff_def)

definition retries :: "accept \<Rightarrow> bool" where
  "retries a \<longleftrightarrow> \<not> shuts_down a \<and> accepted [a] = []"

lemma accept_step_retries:
  "retries a \<Longrightarrow> accept_step a l = l\<lparr>backoff := next_backoff (backoff l), delays := delays l @ [next_backoff (backoff l)], returned := False\<rparr>"
  by (cases a) (auto simp: retries_def accept_step_def Let_def)

lemma failures_in_a_row:
  "list_all retries fs \<Longrightarrow> backoff l = delay_after k \<Longrightarrow> \<not> returned l \<Longrightarrow>
   accept_all_of fs l = l\<lparr>backoff := delay_after (k + length fs),
     delays := delays l @ map (\<lambda>i. delay_after (k + Suc i)) [0..<length fs]\<rparr>"
proof (induction fs arbitrary: k l)
  case (Cons f fs)
  let ?l = "l\<lparr>backoff := delay_after (Suc k), delays := delays l @ [delay_after (Suc k)], returned := False\<rparr>"
  have "accept_step f l = ?l"
    using Cons.prems by (simp add: accept_step_retries next_backoff_delay)
  then have "accept_all_of (f # fs) l = accept_all_of fs ?l" by (simp add: Let_def)
  also have "\<dots> = ?l\<lparr>backoff := delay_after (Suc k + length fs),
      delays := delays ?l @ map (\<lambda>i. delay_after (Suc k + Suc i)) [0..<length fs]\<rparr>"
    by (rule Cons.IH) (use Cons.prems in simp_all)
  also have "map (\<lambda>i. delay_after (Suc k + Suc i)) [0..<length fs] = map (\<lambda>i. delay_after (k + Suc i)) [Suc 0..<Suc (length fs)]"
    by (simp add: map_Suc_upt [symmetric] del: upt_Suc)
  finally show ?case
    using Cons.prems by (simp add: upt_conv_Cons del: upt_Suc)
qed simp

lemma next_backoff_range:
  "b = 0 \<or> 5000000 \<le> b \<and> b \<le> maxAcceptBackoff \<Longrightarrow> 5000000 \<le> next_backoff b \<and> next_backoff b \<le> maxAcceptBackoff"
  using wrap64_id [of "b * 2"] by (auto simp: next_backoff_def maxAcceptBackoff_def Let_def)

definition delays_ok :: "accept_loop \<Rightarrow> bool" where
  "delays_ok l \<longleftrightarrow> (backoff l = 0 \<or> 5000000 \<le> backoff l \<and> backoff l \<le> maxAcceptBackoff) \<and>
     list_all (\<lambda>d. 5000000 \<le> d \<and> d \<le> maxAcceptBackoff) (delays l)"

lemma delays_ok_step: "delays_ok l \<Longrightarrow> delays_ok (accept_step a l)"
  using next_backoff_range [of "backoff l"] by (cases a) (auto simp: delays_ok_def accept_step_def Let_def)

lemma delays_ok_all: "delays_ok l \<Longrightarrow> delays_ok (accept_all_of as l)"
  by (induction as arbitrary: l) (auto simp: Let_def delays_ok_step)

subsection \<open>Properties\<close>




text \<open>C35: the delays are the capped exponential backoff. After any number of failures in a row, counted from
  the last accepted connection, the delays the loop computed by doubling are, one by one, the smaller of
  \<open>5 ms * 2 ^ i\<close> and one second.\<close>

theorem accept_backoff_closed_form:
  assumes "list_all retries fs" and "\<not> returned l"
  shows "delays (accept_all_of (Accepted s # fs) l) =
    delays l @ map (\<lambda>i. min (5000000 * 2 ^ i) 1000000000) [0..<length fs]"
proof -
  have "accept_all_of (Accepted s # fs) l = accept_all_of fs (l\<lparr>backoff := 0, spawned := spawned l @ [s]\<rparr>)"
    using assms(2) by (simp add: accept_step_def)
  also have "\<dots> = l\<lparr>backoff := delay_after (0 + length fs), spawned := spawned l @ [s],
      delays := delays l @ map (\<lambda>i. delay_after (0 + Suc i)) [0..<length fs]\<rparr>"
    by (subst failures_in_a_row [where k = 0]) (use assms in \<open>simp_all add: delay_after_def\<close>)
  finally show ?thesis
    by (simp add: delay_after_def maxAcceptBackoff_def)
qed

theorem accept_backoff_closed_form_witness:
  "delays (accept_all_of (Accepted (input_stream []) # replicate 10 (Failed (ErrNet ''accept: too many open files'') None False)) accept_begin) =
     map ((*) 1000000) [5, 10, 20, 40, 80, 160, 320, 640, 1000, 1000]"
proof -
  let ?fs = "replicate 10 (Failed (ErrNet ''accept: too many open files'') None False)"
  have "list_all retries ?fs" by (simp add: list_all_length retries_def)
  from accept_backoff_closed_form [OF this, of accept_begin "input_stream []"] show ?thesis
    by (simp add: accept_begin_def upt_rec)
qed

end
