(* ===== verification/Admin_RPC.thy ===== *)
theory Admin_RPC
  imports Tenant_Resolver
begin

text \<open>
  \<open>admin/server.go\<close>, \<open>admin/types.go\<close> and \<open>admin/client.go\<close>: the tenant service, its error codes
  and the client that turns them back into resolver errors.

  Binding the JSON parameters (\<open>Bind\<close>) and the text of an error (\<open>Error\<close>) are parameters. The
  client's HTTP and JSON calls are the fields of the record \<open>transport\<close>, one per call the code makes,
  each returning what the library returned. A service method changes the shared resolver, so it
  returns it.
\<close>

subsection \<open>Model: the service\<close>

definition CodeDuplicate :: int where "CodeDuplicate = - 32011"
definition CodeNotFound :: int where "CodeNotFound = - 32012"
definition CodeInvalid :: int where "CodeInvalid = - 32013"

record SetParams =
  SetID :: string
  SetTopicPrefix :: string
  SetUpstream :: string

record DeleteParams =
  DeleteID :: string

record OKResult =
  OK :: bool

record TenantView =
  ViewID :: string
  ViewTopicPrefix :: string
  ViewUpstream :: string

record ListResult =
  ListTenants :: "TenantView list"

datatype service_error = RPCError int string | OtherError go_error

definition mapErr :: "(go_error \<Rightarrow> string) \<Rightarrow> go_error \<Rightarrow> service_error" where
  "mapErr Error err =
     (if errors_Is err ErrDuplicate then RPCError CodeDuplicate (Error err)
      else if errors_Is err ErrNotFound then RPCError CodeNotFound (Error err)
      else if errors_Is err ErrInvalidTenant then RPCError CodeInvalid (Error err)
      else OtherError err)"

definition Service_Set ::
    "(go_error \<Rightarrow> string) \<Rightarrow> ('q \<Rightarrow> go_error + SetParams) \<Rightarrow> memoryResolver \<Rightarrow> 'q \<Rightarrow>
     (service_error + OKResult) \<times> memoryResolver" where
  "Service_Set Error Bind store p =
     (case Bind p of
        Inl err \<Rightarrow> (Inl (RPCError CodeInvalid (Error err)), store)
      | Inr inp \<Rightarrow>
          (let tenant = \<lparr>ID = SetID inp, TopicPrefix = SetTopicPrefix inp, Upstream = SetUpstream inp\<rparr>
           in case memoryResolver_Set store tenant of
                (Some err, store) \<Rightarrow> (Inl (mapErr Error err), store)
              | (None, store) \<Rightarrow> (Inr \<lparr>OK = True\<rparr>, store)))"

definition Service_Delete ::
    "(go_error \<Rightarrow> string) \<Rightarrow> ('q \<Rightarrow> go_error + DeleteParams) \<Rightarrow> memoryResolver \<Rightarrow> 'q \<Rightarrow>
     (service_error + OKResult) \<times> memoryResolver" where
  "Service_Delete Error Bind store p =
     (case Bind p of
        Inl err \<Rightarrow> (Inl (RPCError CodeInvalid (Error err)), store)
      | Inr inp \<Rightarrow>
          (case memoryResolver_Delete store (DeleteID inp) of
             (Some err, store) \<Rightarrow> (Inl (mapErr Error err), store)
           | (None, store) \<Rightarrow> (Inr \<lparr>OK = True\<rparr>, store)))"

definition Service_List :: "(Tenant list \<Rightarrow> Tenant list) \<Rightarrow> memoryResolver \<Rightarrow> ListResult" where
  "Service_List iteration_order store =
     \<lparr>ListTenants = map (\<lambda>t. \<lparr>ViewID = ID t, ViewTopicPrefix = TopicPrefix t, ViewUpstream = Upstream t\<rparr>)
        (memoryResolver_List iteration_order store)\<rparr>"

subsection \<open>Model: the client\<close>

record Client =
  endpoint :: string
  next_id :: uint64

definition NewClient :: "string \<Rightarrow> Client" where
  "NewClient ep = \<lparr>endpoint = ep, next_id = 0\<rparr>"

record 'p rpcRequest =
  JSONRPC :: string
  RequestID :: uint64
  Method :: string
  Params :: 'p

record rpcError =
  Code :: int
  Message :: string

definition rpcError_Error :: "rpcError \<Rightarrow> string" where
  "rpcError_Error e = Message e"

record rpcResponse =
  Result :: "byte list"
  RError :: "rpcError option"

record ('p, 'out) transport =
  Marshal :: "'p rpcRequest \<Rightarrow> go_error + byte list"
  NewRequest :: "string \<Rightarrow> byte list \<Rightarrow> go_error option"
  Do :: "string \<Rightarrow> byte list \<Rightarrow> go_error + int \<times> byte list"
  Decode :: "byte list \<Rightarrow> go_error + rpcResponse"
  UnmarshalResult :: "byte list \<Rightarrow> go_error + 'out"

definition mapClientErr :: "rpcError \<Rightarrow> go_error" where
  "mapClientErr e =
     (if Code e = CodeDuplicate then Wrap ErrDuplicate (''admin: '' @ Message e)
      else if Code e = CodeNotFound then Wrap ErrNotFound (''admin: '' @ Message e)
      else if Code e = CodeInvalid then Wrap ErrInvalidTenant (''admin: '' @ Message e)
      else Errorf ''admin: rpc error %d: %s'' [FInt (Code e), FStr (Message e)])"

definition Client_call ::
    "('p, 'out) transport \<Rightarrow> Client \<Rightarrow> string \<Rightarrow> 'p \<Rightarrow> 'out \<Rightarrow> (go_error + 'out) \<times> Client" where
  "Client_call tr c method params zero =
     (let c = c\<lparr>next_id := next_id c + 1\<rparr>
      in ((case Marshal tr \<lparr>JSONRPC = ''2.0'', RequestID = next_id c, Method = method, Params = params\<rparr> of
            Inl err \<Rightarrow> Inl (Wrap err ''Client.call'')
          | Inr body \<Rightarrow>
         (case NewRequest tr (endpoint c) body of
            Some err \<Rightarrow> Inl (Wrap err ''Client.call'')
          | None \<Rightarrow>
         (case Do tr (endpoint c) body of
            Inl err \<Rightarrow> Inl (Wrap err ''Client.call'')
          | Inr (status, raw) \<Rightarrow>
              if status \<noteq> 200
              then Inl (Errorf ''Client.call: HTTP %d: %s'' [FInt status, FStr (str_of raw)])
              else
         (case Decode tr raw of
            Inl err \<Rightarrow> Inl (Wrap err ''Client.call: decode'')
          | Inr envelope \<Rightarrow>
         (case RError envelope of
            Some e \<Rightarrow> Inl (mapClientErr e)
          | None \<Rightarrow>
              if Result envelope \<noteq> []
              then (case UnmarshalResult tr (Result envelope) of
                      Inl err \<Rightarrow> Inl (Wrap err ''Client.call: decode result'')
                    | Inr out \<Rightarrow> Inr out)
              else Inr zero))))), c))"

definition Client_Set :: "(SetParams, OKResult) transport \<Rightarrow> Client \<Rightarrow> SetParams \<Rightarrow> go_error option \<times> Client" where
  "Client_Set tr c p =
     (case Client_call tr c ''Tenants.Set'' p \<lparr>OK = False\<rparr> of
        (Inl err, c) \<Rightarrow> (Some err, c) | (Inr _, c) \<Rightarrow> (None, c))"

definition Client_Delete :: "(DeleteParams, OKResult) transport \<Rightarrow> Client \<Rightarrow> string \<Rightarrow> go_error option \<times> Client" where
  "Client_Delete tr c i =
     (case Client_call tr c ''Tenants.Delete'' \<lparr>DeleteID = i\<rparr> \<lparr>OK = False\<rparr> of
        (Inl err, c) \<Rightarrow> (Some err, c) | (Inr _, c) \<Rightarrow> (None, c))"

definition Client_List :: "(unit, ListResult) transport \<Rightarrow> Client \<Rightarrow> (go_error + ListResult) \<times> Client" where
  "Client_List tr c = Client_call tr c ''Tenants.List'' () \<lparr>ListTenants = []\<rparr>"

subsection \<open>The service over the resolver's contract\<close>

text \<open>What the caller of a method learns: success, or the error its code stands for.\<close>

definition client_error :: "service_error \<Rightarrow> go_error" where
  "client_error e = (case e of RPCError code msg \<Rightarrow> mapClientErr \<lparr>Code = code, Message = msg\<rparr> | OtherError err \<Rightarrow> err)"

definition reply_obs :: "service_error + OKResult \<Rightarrow> resolver_obs" where
  "reply_obs r = (case r of Inl e \<Rightarrow> Failed (Cause (client_error e)) | Inr _ \<Rightarrow> Done)"

lemma Cause_errors_Is: "Cause e = t \<Longrightarrow> errors_Is e t"
  by (induction e) auto

lemma errors_Is_Cause: "errors_Is e t \<Longrightarrow> \<not> (\<exists>x m. t = Wrap x m) \<Longrightarrow> Cause e = t"
  by (induction e) auto

lemma errors_Is_sentinel:
  "errors_Is e ErrDuplicate \<longleftrightarrow> Cause e = ErrDuplicate"
  "errors_Is e ErrNotFound \<longleftrightarrow> Cause e = ErrNotFound"
  "errors_Is e ErrInvalidTenant \<longleftrightarrow> Cause e = ErrInvalidTenant"
  using Cause_errors_Is [of e] errors_Is_Cause [of e] by auto

lemma client_error_mapErr:
  "Cause e \<in> {ErrDuplicate, ErrNotFound, ErrInvalidTenant} \<Longrightarrow> Cause (client_error (mapErr E e)) = Cause e"
  by (auto simp: mapErr_def client_error_def mapClientErr_def errors_Is_sentinel
      CodeDuplicate_def CodeNotFound_def CodeInvalid_def)

lemma Service_Set_spec:
  assumes "Bind q = Inr p" and "Service_Set E Bind r q = (res, r')"
  shows "run_resolver spec_Get spec_Set spec_Delete (resolver_abs r)
      [OpSet \<lparr>ID = SetID p, TopicPrefix = SetTopicPrefix p, Upstream = SetUpstream p\<rparr>] = ([reply_obs res], resolver_abs r')"
proof -
  let ?t = "\<lparr>ID = SetID p, TopicPrefix = SetTopicPrefix p, Upstream = SetUpstream p\<rparr>"
  obtain e s where s: "memoryResolver_Set r ?t = (e, s)" by force
  have c: "Cause x \<in> {ErrDuplicate, ErrNotFound, ErrInvalidTenant}" if "e = Some x" for x
    using memory.Set_spec [OF s] that by (auto simp: spec_Set_def split: if_splits)
  have "res = (case e of None \<Rightarrow> Inr \<lparr>OK = True\<rparr> | Some x \<Rightarrow> Inl (mapErr E x))" and "r' = s"
    using assms s by (auto simp: Service_Set_def Let_def split: option.splits)
  then have "reply_obs res = obs_error e" and "r' = s"
    using c client_error_mapErr by (auto simp: reply_obs_def split: option.splits)
  then show ?thesis
    using memory.run_refines [of r "[OpSet ?t]" "[obs_error e]" s] s by simp
qed

lemma Service_Delete_spec:
  assumes "Bind q = Inr p" and "Service_Delete E Bind r q = (res, r')"
  shows "run_resolver spec_Get spec_Set spec_Delete (resolver_abs r) [OpDelete (DeleteID p)] = ([reply_obs res], resolver_abs r')"
proof -
  obtain e s where s: "memoryResolver_Delete r (DeleteID p) = (e, s)" by force
  have c: "Cause x \<in> {ErrDuplicate, ErrNotFound, ErrInvalidTenant}" if "e = Some x" for x
    using memory.Delete_spec [OF s] that by (auto simp: spec_Delete_def split: if_splits)
  have "res = (case e of None \<Rightarrow> Inr \<lparr>OK = True\<rparr> | Some x \<Rightarrow> Inl (mapErr E x))" and "r' = s"
    using assms s by (auto simp: Service_Delete_def split: option.splits)
  then have "reply_obs res = obs_error e" and "r' = s"
    using c client_error_mapErr by (auto simp: reply_obs_def split: option.splits)
  then show ?thesis
    using memory.run_refines [of r "[OpDelete (DeleteID p)]" "[obs_error e]" s] s by simp
qed

lemma Service_inv:
  "resolver_inv r \<Longrightarrow> resolver_inv (snd (Service_Set E bs r q))"
  "resolver_inv r \<Longrightarrow> resolver_inv (snd (Service_Delete E bd r u))"
  by (auto simp: Service_Set_def Service_Delete_def Let_def split: sum.split prod.split option.split
      dest: memory.Set_inv memory.Delete_inv)

subsection \<open>Client and service together\<close>

text \<open>The HTTP and JSON libraries deliver a reply: every call of the client succeeds, the status is
  200, and the decoded envelope holds the service's error code and message, or a result.\<close>

definition delivers ::
    "('p, 'out) transport \<Rightarrow> Client \<Rightarrow> string \<Rightarrow> 'p \<Rightarrow> service_error + OKResult \<Rightarrow> bool" where
  "delivers tr c method params res \<longleftrightarrow>
     (\<exists>body raw env. Marshal tr \<lparr>JSONRPC = ''2.0'', RequestID = next_id c + 1, Method = method, Params = params\<rparr> = Inr body \<and>
        NewRequest tr (endpoint c) body = None \<and> Do tr (endpoint c) body = Inr (200, raw) \<and>
        Decode tr raw = Inr env \<and>
        (case res of
           Inl (RPCError code msg) \<Rightarrow> RError env = Some \<lparr>Code = code, Message = msg\<rparr>
         | Inl (OtherError e) \<Rightarrow> False
         | Inr _ \<Rightarrow> RError env = None \<and> \<not> isl (UnmarshalResult tr (Result env))))"

lemma Client_call_delivers:
  assumes "delivers tr c method params res"
  shows "(case fst (Client_call tr c method params zero) of Inl e \<Rightarrow> Failed (Cause e) | Inr _ \<Rightarrow> Done) = reply_obs res"
proof -
  from assms obtain body raw env where a:
    "Marshal tr \<lparr>JSONRPC = ''2.0'', RequestID = next_id c + 1, Method = method, Params = params\<rparr> = Inr body"
    "NewRequest tr (endpoint c) body = None" "Do tr (endpoint c) body = Inr (200, raw)" "Decode tr raw = Inr env"
    and b: "case res of Inl (RPCError code msg) \<Rightarrow> RError env = Some \<lparr>Code = code, Message = msg\<rparr>
      | Inl (OtherError e) \<Rightarrow> False | Inr _ \<Rightarrow> RError env = None \<and> \<not> isl (UnmarshalResult tr (Result env))"
    unfolding delivers_def by blast
  show ?thesis
  proof (cases res)
    case (Inl e)
    with b obtain code msg where e: "e = RPCError code msg" and r: "RError env = Some \<lparr>Code = code, Message = msg\<rparr>"
      by (auto split: service_error.splits)
    show ?thesis
      using a r Inl e by (simp add: Client_call_def Let_def reply_obs_def client_error_def)
  next
    case (Inr x)
    with b obtain out where r: "RError env = None" and o: "UnmarshalResult tr (Result env) = Inr out"
      by (cases "UnmarshalResult tr (Result env)") auto
    show ?thesis
      using a r o Inr by (simp add: Client_call_def Let_def reply_obs_def)
  qed
qed

lemma Client_Set_delivers:
  "delivers tr c ''Tenants.Set'' p res \<Longrightarrow> obs_error (fst (Client_Set tr c p)) = reply_obs res"
  using Client_call_delivers [of tr c "''Tenants.Set''" p res "\<lparr>OK = False\<rparr>"]
  by (auto simp: Client_Set_def split: prod.splits sum.splits)

lemma Client_Delete_delivers:
  "delivers tr c ''Tenants.Delete'' \<lparr>DeleteID = i\<rparr> res \<Longrightarrow> obs_error (fst (Client_Delete tr c i)) = reply_obs res"
  using Client_call_delivers [of tr c "''Tenants.Delete''" "\<lparr>DeleteID = i\<rparr>" res "\<lparr>OK = False\<rparr>"]
  by (auto simp: Client_Delete_def split: prod.splits sum.splits)

subsection \<open>Properties\<close>

text \<open>A transport that returns a fixed envelope.\<close>

definition example_transport :: "rpcError option \<Rightarrow> ('p, OKResult) transport" where
  "example_transport e =
     \<lparr>Marshal = (\<lambda>_. Inr [1]), NewRequest = (\<lambda>_ _. None), Do = (\<lambda>_ b. Inr (200, b)),
      Decode = (\<lambda>_. Inr \<lparr>Result = [], RError = e\<rparr>), UnmarshalResult = (\<lambda>_. Inr \<lparr>OK = True\<rparr>)\<rparr>"

text \<open>C40: creating a tenant through the admin client has the effect and the outcome of setting it in
  the abstract map. Against a transport that delivers the service's reply, the client returns no error
  exactly when the map accepts the tenant, otherwise an error with the very cause (duplicate, invalid)
  the resolver reported, although only an error code crosses the wire; and the resolver's new state
  represents the map's.\<close>

theorem admin_set_end_to_end:
  assumes "Bind q = Inr p" and "Service_Set Error Bind r q = (res, r')"
    and "delivers tr c ''Tenants.Set'' p res"
  shows "spec_Set (resolver_abs r) \<lparr>ID = SetID p, TopicPrefix = SetTopicPrefix p, Upstream = SetUpstream p\<rparr> =
    (map_option Cause (fst (Client_Set tr c p)), resolver_abs r')"
proof -
  let ?t = "\<lparr>ID = SetID p, TopicPrefix = SetTopicPrefix p, Upstream = SetUpstream p\<rparr>"
  obtain e m where s: "spec_Set (resolver_abs r) ?t = (e, m)" by force
  then have n: "map_option Cause e = e"
    by (auto simp: spec_Set_def split: if_splits)
  have "obs_error e = reply_obs res" and "m = resolver_abs r'"
    using Service_Set_spec [OF assms(1,2)] s by auto
  moreover have "obs_error (fst (Client_Set tr c p)) = reply_obs res"
    using assms(3) by (rule Client_Set_delivers)
  ultimately have "obs_error e = obs_error (fst (Client_Set tr c p))" and "m = resolver_abs r'"
    by auto
  moreover from this(1) have "map_option Cause e = map_option Cause (fst (Client_Set tr c p))"
    by (cases e; cases "fst (Client_Set tr c p)") auto
  ultimately show ?thesis
    using s n by simp
qed

theorem admin_set_end_to_end_witness:
  "errors_Is (Wrap ErrDuplicate ''admin: dup'') ErrDuplicate \<and>
   spec_Set (resolver_abs example_resolver) example_tenant =
     (map_option Cause (fst (Client_Set (example_transport (Some \<lparr>Code = CodeDuplicate, Message = ''dup''\<rparr>)) (NewClient ''u'')
        \<lparr>SetID = ''acme'', SetTopicPrefix = ''acme.'', SetUpstream = ''k:9092''\<rparr>)), resolver_abs example_resolver)"
proof -
  let ?p = "\<lparr>SetID = ''acme'', SetTopicPrefix = ''acme.'', SetUpstream = ''k:9092''\<rparr>"
  let ?tr = "example_transport (Some \<lparr>Code = CodeDuplicate, Message = ''dup''\<rparr>) :: (SetParams, OKResult) transport"
  have s: "Service_Set (\<lambda>_. ''dup'') Inr example_resolver ?p = (Inl (RPCError CodeDuplicate ''dup''), example_resolver)"
    by (simp add: Service_Set_def memoryResolver_Set_def validateTenant_def example_resolver_def mapErr_def Let_def)
  have d: "delivers ?tr (NewClient ''u'') ''Tenants.Set'' ?p (Inl (RPCError CodeDuplicate ''dup''))"
    by (simp add: delivers_def example_transport_def)
  show ?thesis
    using admin_set_end_to_end [OF refl s d] by (simp add: example_tenant_def)
qed

text \<open>Deleting a tenant through the admin client likewise has the effect and the outcome of
  deleting it in the abstract map, the cause of an error (not found, invalid) included.\<close>

lemma admin_delete_end_to_end:
  assumes "Bind q = Inr \<lparr>DeleteID = i\<rparr>" and "Service_Delete Error Bind r q = (res, r')"
    and "delivers tr c ''Tenants.Delete'' \<lparr>DeleteID = i\<rparr> res"
  shows "spec_Delete (resolver_abs r) i = (map_option Cause (fst (Client_Delete tr c i)), resolver_abs r')"
proof -
  obtain e m where s: "spec_Delete (resolver_abs r) i = (e, m)" by force
  then have n: "map_option Cause e = e"
    by (auto simp: spec_Delete_def split: if_splits)
  have "obs_error e = reply_obs res" and "m = resolver_abs r'"
    using Service_Delete_spec [OF assms(1,2)] s by auto
  moreover have "obs_error (fst (Client_Delete tr c i)) = reply_obs res"
    using assms(3) by (rule Client_Delete_delivers)
  ultimately have "obs_error e = obs_error (fst (Client_Delete tr c i))" and "m = resolver_abs r'"
    by auto
  moreover from this(1) have "map_option Cause e = map_option Cause (fst (Client_Delete tr c i))"
    by (cases e; cases "fst (Client_Delete tr c i)") auto
  ultimately show ?thesis
    using s n by simp
qed

end
