(* ===== verification/Proxy_System.thy ===== *)
theory Proxy_System
  imports Proxy_Listener Admin_RPC
begin

text \<open>
  The running proxy: the tenant catalogue, the accept loop and the connections in flight, which step
  in any order. A request of one connection is one iteration of its \<open>serve\<close> with the catalogue of that
  moment; the admin service changes the catalogue between any two requests. The environment of a
  connection (its dials) is a parameter indexed by the connection, and a call of the admin service is
  given its parameters as bound, or the error of binding them. \<open>ever\<close> is not in the code: it
  collects the tenants the catalogue has had.

  A panic in a connection ends the process, so the step that panics leads to a state without
  successors.
\<close>

subsection \<open>Model\<close>

record system =
  catalogue :: memoryResolver
  ever :: "Tenant set"
  loop :: accept_loop
  flying :: "nat \<rightharpoonup> conn"
  ended :: "nat \<rightharpoonup> conn"
  crashed :: bool

abbreviation conn_id :: "system \<Rightarrow> nat" where
  "conn_id s \<equiv> length (spawned (loop s))"

definition boot :: "memoryResolver \<Rightarrow> system" where
  "boot R = \<lparr>catalogue = R, ever = tenants_of R, loop = accept_begin, flying = Map.empty, ended = Map.empty, crashed = False\<rparr>"

inductive sys_step :: "(nat \<Rightarrow> 's env) \<Rightarrow> 'x kmsg \<Rightarrow> Server \<Rightarrow> system \<Rightarrow> system \<Rightarrow> bool" for E K S where
  admin_set: "\<not> crashed s \<Longrightarrow> Service_Set Error (\<lambda>p. p) (catalogue s) p = (r, R) \<Longrightarrow>
     sys_step E K S s (s\<lparr>catalogue := R, ever := ever s \<union> tenants_of R\<rparr>)"
| admin_delete: "\<not> crashed s \<Longrightarrow> Service_Delete Error (\<lambda>p. p) (catalogue s) p = (r, R) \<Longrightarrow>
     sys_step E K S s (s\<lparr>catalogue := R, ever := ever s \<union> tenants_of R\<rparr>)"
| accepts: "\<not> crashed s \<Longrightarrow> \<not> returned (loop s) \<Longrightarrow>
     sys_step E K S s (s\<lparr>loop := accept_step (Accepted sock) (loop s),
       flying := (flying s)(conn_id s \<mapsto> handle_begin (s_cfg S) (s_metrics S) sock)\<rparr>)"
| accept_fails: "\<not> crashed s \<Longrightarrow> \<not> returned (loop s) \<Longrightarrow>
     sys_step E K S s (s\<lparr>loop := accept_step (Failed err ctx w) (loop s)\<rparr>)"
| request: "\<not> crashed s \<Longrightarrow> flying s n = Some c \<Longrightarrow> resolver_now t = catalogue s \<Longrightarrow> serve_step (E n) K t c = (Ok (), c') \<Longrightarrow>
     sys_step E K S s (s\<lparr>flying := (flying s)(n \<mapsto> c')\<rparr>)"
| finish: "\<not> crashed s \<Longrightarrow> flying s n = Some c \<Longrightarrow> resolver_now t = catalogue s \<Longrightarrow> serve_step (E n) K t c = (Err err, c') \<Longrightarrow>
     sys_step E K S s (s\<lparr>flying := (flying s)(n := None), ended := (ended s)(n \<mapsto> handle_end c')\<rparr>)"
| panic: "\<not> crashed s \<Longrightarrow> flying s n = Some c \<Longrightarrow> resolver_now t = catalogue s \<Longrightarrow> serve_step (E n) K t c = (Panic, c') \<Longrightarrow>
     sys_step E K S s (s\<lparr>flying := (flying s)(n := None), ended := (ended s)(n \<mapsto> handle_end c'), crashed := True\<rparr>)"

abbreviation sys_reach :: "(nat \<Rightarrow> 's env) \<Rightarrow> 'x kmsg \<Rightarrow> Server \<Rightarrow> system \<Rightarrow> system \<Rightarrow> bool" where
  "sys_reach E K S \<equiv> (sys_step E K S)\<^sup>*\<^sup>*"

inductive_cases sys_stepE: "sys_step E K S s s'"

subsection \<open>Each connection runs as if alone\<close>

definition good_ticks :: "Tenant set \<Rightarrow> (nat \<Rightarrow> tick) \<Rightarrow> bool" where
  "good_ticks T ticks \<longleftrightarrow> (\<forall>m. resolver_inv (resolver_now (ticks m)) \<and> tenants_of (resolver_now (ticks m)) \<subseteq> T)"

lemma good_ticks_mono: "good_ticks T ticks \<Longrightarrow> T \<subseteq> U \<Longrightarrow> good_ticks U ticks"
  by (auto simp: good_ticks_def)

lemma good_ticks_upd:
  "good_ticks T ticks \<Longrightarrow> resolver_inv (resolver_now t) \<Longrightarrow> tenants_of (resolver_now t) \<subseteq> T \<Longrightarrow> good_ticks T (ticks(k := t))"
  by (simp add: good_ticks_def)

lemma rounds_upd: "n + k \<le> m \<Longrightarrow> rounds E K (ticks(m := t)) n k c = rounds E K ticks n k c"
  by (induction k arbitrary: n c) (auto split: prod.split go.split)

lemma rounds_extend:
  "rounds E K ticks n k c = Some d \<Longrightarrow> serve_step E K (ticks (n + k)) d = (Ok u, e) \<Longrightarrow> rounds E K ticks n (Suc k) c = Some e"
proof (induction k arbitrary: n c)
  case (Suc k)
  then obtain c1 where "serve_step E K (ticks n) c = (Ok (), c1)" "rounds E K ticks (Suc n) k c1 = Some d"
    by (auto split: prod.splits go.splits)
  then show ?case using Suc.IH [of "Suc n" c1] Suc.prems(2) by (simp del: rounds.simps(2) add: rounds.simps(2) [of E K ticks n])
qed simp

lemma rounds_serve:
  assumes "rounds E K ticks n k c = Some d" and "serve_step E K (ticks (n + k)) d = (r, e)" and "\<nexists>u. r = Ok u"
  shows "serve E K ticks n c = (r, e)"
  using assms
proof (induction k arbitrary: n c)
  case 0
  then show ?case using serve_cases [of E K ticks n c] by auto
next
  case (Suc k)
  then obtain c1 where "serve_step E K (ticks n) c = (Ok (), c1)" "rounds E K ticks (Suc n) k c1 = Some d"
    by (auto split: prod.splits go.splits)
  then show ?case using Suc serve_cases [of E K ticks n c] by auto
qed

text \<open>A connection that goes on, and one that has ended, as the connection alone would.\<close>

definition goes_on :: "'s env \<Rightarrow> 'x kmsg \<Rightarrow> Tenant set \<Rightarrow> Server \<Rightarrow> stream \<Rightarrow> conn \<Rightarrow> bool" where
  "goes_on E K T S sock c \<longleftrightarrow>
     (\<exists>ticks k. good_ticks T ticks \<and> rounds E K ticks 0 k (handle_begin (s_cfg S) (s_metrics S) sock) = Some c)"

definition has_ended :: "'s env \<Rightarrow> 'x kmsg \<Rightarrow> Tenant set \<Rightarrow> Server \<Rightarrow> stream \<Rightarrow> conn \<Rightarrow> bool" where
  "has_ended E K T S sock c \<longleftrightarrow>
     (\<exists>ticks. good_ticks T ticks \<and> snd (snd (handle E K ticks (s_cfg S) (s_metrics S) sock)) = c)"

definition sys_inv :: "(nat \<Rightarrow> 's env) \<Rightarrow> 'x kmsg \<Rightarrow> Server \<Rightarrow> system \<Rightarrow> bool" where
  "sys_inv E K S s \<longleftrightarrow>
     resolver_inv (catalogue s) \<and> tenants_of (catalogue s) \<subseteq> ever s \<and>
     dom (flying s) \<inter> dom (ended s) = {} \<and> dom (flying s) \<union> dom (ended s) = {..<conn_id s} \<and>
     (\<forall>n c. flying s n = Some c \<longrightarrow> goes_on (E n) K (ever s) S (spawned (loop s) ! n) c) \<and>
     (\<forall>n c. ended s n = Some c \<longrightarrow> has_ended (E n) K (ever s) S (spawned (loop s) ! n) c)"

lemma Service_catalogue:
  assumes "resolver_inv R"
  shows "Service_Set Error Bind R p = (r, R') \<Longrightarrow> resolver_inv R'" "Service_Delete Error Bind' R q = (r', R') \<Longrightarrow> resolver_inv R'"
  using assms
  by (auto simp: Service_Set_def Service_Delete_def Let_def split: sum.splits prod.splits option.splits
      dest: memory.Set_inv memory.Delete_inv)

lemma accept_step_loop [simp]: "spawned (accept_step (Failed err ctx w) l) = spawned l" "spawned (accept_step (Accepted s) l) = spawned l @ [s]"
  by (simp_all add: accept_step_spawned)

lemma sys_inv_boot: "resolver_inv R \<Longrightarrow> sys_inv E K S (boot R)"
  by (simp add: sys_inv_def boot_def accept_begin_def)

lemma alone_mono:
  "T \<subseteq> U \<Longrightarrow> goes_on E K T S sock c \<Longrightarrow> goes_on E K U S sock c"
  "T \<subseteq> U \<Longrightarrow> has_ended E K T S sock c \<Longrightarrow> has_ended E K U S sock c"
  unfolding goes_on_def has_ended_def using good_ticks_mono by blast+

lemma goes_on_begin:
  assumes "resolver_inv R" and "tenants_of R \<subseteq> T"
  shows "goes_on E K T S sock (handle_begin (s_cfg S) (s_metrics S) sock)"
proof -
  have "good_ticks T (\<lambda>_. \<lparr>ctx_Err = None, resolver_now = R, elapsed = 0\<rparr>)"
    using assms by (simp add: good_ticks_def)
  then show ?thesis
    unfolding goes_on_def using rounds.simps(1) by blast
qed

lemma goes_on_request:
  assumes "goes_on E K T S sock c" and "resolver_inv (resolver_now t)" and "tenants_of (resolver_now t) \<subseteq> T"
    and "serve_step E K t c = (Ok (), c')"
  shows "goes_on E K T S sock c'"
proof -
  let ?b = "handle_begin (s_cfg S) (s_metrics S) sock"
  obtain ticks k where k: "good_ticks T ticks" "rounds E K ticks 0 k ?b = Some c"
    using assms(1) by (auto simp: goes_on_def)
  have "rounds E K (ticks(k := t)) 0 k ?b = Some c"
    using k(2) by (simp add: rounds_upd)
  then have "rounds E K (ticks(k := t)) 0 (Suc k) ?b = Some c'"
    by (rule rounds_extend) (use assms(4) in simp)
  with good_ticks_upd [OF k(1) assms(2,3)] show ?thesis
    unfolding goes_on_def by blast
qed

lemma goes_on_ends:
  assumes "goes_on E K T S sock c" and "resolver_inv (resolver_now t)" and "tenants_of (resolver_now t) \<subseteq> T"
    and "serve_step E K t c = (r, c')" and "\<nexists>u. r = Ok u"
  shows "has_ended E K T S sock (handle_end c')"
proof -
  let ?b = "handle_begin (s_cfg S) (s_metrics S) sock"
  obtain ticks k where k: "good_ticks T ticks" "rounds E K ticks 0 k ?b = Some c"
    using assms(1) by (auto simp: goes_on_def)
  have "rounds E K (ticks(k := t)) 0 k ?b = Some c"
    using k(2) by (simp add: rounds_upd)
  then have "serve E K (ticks(k := t)) 0 ?b = (r, c')"
    by (rule rounds_serve) (use assms(4,5) in simp_all)
  then have "snd (snd (handle E K (ticks(k := t)) (s_cfg S) (s_metrics S) sock)) = handle_end c'"
    by (simp add: handle_def split: go.split)
  with good_ticks_upd [OF k(1) assms(2,3)] show ?thesis
    unfolding has_ended_def by blast
qed

lemma sys_inv_step: "sys_step E K S s s' \<Longrightarrow> sys_inv E K S s \<Longrightarrow> sys_inv E K S s'"
proof (induction rule: sys_step.induct)
  case (admin_set s Error p r R)
  then have "resolver_inv R" using Service_catalogue(1) by (auto simp: sys_inv_def)
  with admin_set show ?case
    by (auto simp: sys_inv_def intro: alone_mono [OF Un_upper1])
next
  case (admin_delete s Error p r R)
  then have "resolver_inv R" using Service_catalogue(2) by (auto simp: sys_inv_def)
  with admin_delete show ?case
    by (auto simp: sys_inv_def intro: alone_mono [OF Un_upper1])
next
  case (accepts s sock)
  have id: "n < conn_id s" if "flying s n = Some c \<or> ended s n = Some c" for n c
    using accepts.prems that by (auto simp: sys_inv_def)
  have "goes_on (E n) K (ever s) S ((spawned (loop s) @ [sock]) ! n) c" if "flying s n = Some c" for n c
    using accepts.prems that id [of n c] by (simp add: sys_inv_def nth_append)
  moreover have "has_ended (E n) K (ever s) S ((spawned (loop s) @ [sock]) ! n) c" if "ended s n = Some c" for n c
    using accepts.prems that id [of n c] by (simp add: sys_inv_def nth_append)
  moreover have "goes_on (E n) K (ever s) S sock (handle_begin (s_cfg S) (s_metrics S) sock)" for n
    using accepts.prems by (intro goes_on_begin) (auto simp: sys_inv_def)
  moreover have "conn_id s \<notin> dom (flying s) \<union> dom (ended s)"
    using accepts.prems by (auto simp: sys_inv_def)
  ultimately show ?case
    using accepts.prems by (auto simp: sys_inv_def lessThan_Suc)
next
  case (accept_fails s err ctx w)
  then show ?case by (simp add: sys_inv_def)
next
  case (request s n c t c')
  have "goes_on (E n) K (ever s) S (spawned (loop s) ! n) c'"
    by (rule goes_on_request [of _ _ _ _ _ c t]) (use request in \<open>auto simp: sys_inv_def\<close>)
  with request show ?case by (auto simp: sys_inv_def)
next
  case (finish s n c t err c')
  have "has_ended (E n) K (ever s) S (spawned (loop s) ! n) (handle_end c')"
    by (rule goes_on_ends [of _ _ _ _ _ c t]) (use finish in \<open>auto simp: sys_inv_def\<close>)
  with finish show ?case by (auto simp: sys_inv_def)
next
  case (panic s n c t c')
  have "has_ended (E n) K (ever s) S (spawned (loop s) ! n) (handle_end c')"
    by (rule goes_on_ends [of _ _ _ _ _ c t]) (use panic in \<open>auto simp: sys_inv_def\<close>)
  with panic show ?case by (auto simp: sys_inv_def)
qed

lemma sys_inv_reach: "sys_reach E K S (boot R) s \<Longrightarrow> resolver_inv R \<Longrightarrow> sys_inv E K S s"
  by (induction rule: rtranclp_induct) (auto intro: sys_inv_boot sys_inv_step)

lemma sys_reach_ever: "sys_reach E K S s s' \<Longrightarrow> ever s \<subseteq> ever s'"
  by (induction rule: rtranclp_induct) (auto elim!: sys_stepE)

subsection \<open>What holds of every connection\<close>

lemma goes_on_keeps:
  assumes "frame_condition Q"
    and "\<And>t. resolver_inv (resolver_now t) \<Longrightarrow> tenants_of (resolver_now t) \<subseteq> T \<Longrightarrow> keeps Q (serve_step E K t)"
    and "goes_on E K T S sock c"
  shows "Q (handle_begin (s_cfg S) (s_metrics S) sock) c"
proof -
  obtain ticks k where k: "good_ticks T ticks" "rounds E K ticks 0 k (handle_begin (s_cfg S) (s_metrics S) sock) = Some c"
    using assms(3) by (auto simp: goes_on_def)
  show ?thesis
    by (rule rounds_keeps [OF assms(1) _ k(2)]) (use k(1) in \<open>auto simp: good_ticks_def intro: assms(2)\<close>)
qed

lemma goes_on_inv: "goes_on E K T S sock c \<Longrightarrow> auth_inv (auth_of c)"
  using goes_on_keeps [where Q = "\<lambda>c d. auth_inv (auth_of c) \<longrightarrow> auth_inv (auth_of d)" and T = T and E = E and K = K and S = S and sock = sock and c = c]
  by (auto simp: frame_condition_def keeps_def auth_inv_init serve_step_inv)

lemma dials_known_frame: "frame_condition (dials_known T)"
  by unfold_locales (auto simp: dials_known_def dialf.R_refl dest: dialf.R_trans)

lemma handle_begin_fields [simp]:
  "dialed (handle_begin cf m s) = []" "lost (handle_begin cf m s) = []" "state (handle_begin cf m s) = stateAwaitHandshake"
  by (simp_all add: handle_begin_def with_metrics_def newConn_def)

lemma goes_on_tenants:
  assumes "goes_on E K T S sock c"
  shows "tenant_known T c" "set (dialed c) \<subseteq> Upstream ` T"
proof -
  let ?b = "handle_begin (s_cfg S) (s_metrics S) sock"
  have "dials_known T ?b c"
    by (rule goes_on_keeps [OF dials_known_frame serve_step_dials assms])
  moreover have "tenant_known T ?b" by (simp add: tenant_known_def less_eq_connState_def)
  ultimately show "tenant_known T c" "set (dialed c) \<subseteq> Upstream ` T"
    by (auto simp: dials_known_def dials_in_def)
qed

lemma goes_on_conn_step:
  "goes_on E K T S sock c \<Longrightarrow> conn_step (handle_begin (s_cfg S) (s_metrics S) sock) c"
  by (rule goes_on_keeps [OF connf.frame_condition_axioms serve_step_keeps])

text \<open>The gauge of active connections over all connections.\<close>

definition active_of :: "conn option \<Rightarrow> int" where
  "active_of c = (case c of None \<Rightarrow> 0 | Some c \<Rightarrow> (case metrics c of None \<Rightarrow> 0 | Some m \<Rightarrow> active m))"

definition gauge :: "system \<Rightarrow> int" where
  "gauge s = (\<Sum>n<conn_id s. active_of (flying s n) + active_of (ended s n))"

lemma goes_on_active:
  assumes "goes_on E K T S sock c" and "s_metrics S = Some NewMetrics"
  shows "active_of (Some c) = 1"
proof -
  have "metrics_step (Some [ConnectionsTotal_Inc, ConnectionsActive_Inc]) (metrics c)"
    using goes_on_conn_step [OF assms(1)] assms(2) by (simp add: conn_step_def NewMetrics_def)
  then obtain n where "metrics c = Some ([ConnectionsTotal_Inc, ConnectionsActive_Inc] @ n)" "list_all conn_metric n"
    by (auto simp: metrics_step_def)
  then show ?thesis using conn_metric_neutral [of n] by (simp add: active_of_def)
qed

lemma has_ended_active:
  assumes "has_ended E K T S sock c" and "s_metrics S = Some NewMetrics"
  shows "active_of (Some c) = 0"
proof -
  obtain ticks where "snd (snd (handle E K ticks (s_cfg S) (Some NewMetrics) sock)) = c"
    using assms by (auto simp: has_ended_def)
  from handle_metrics [OF this] show ?thesis
    by (auto simp: active_of_def NewMetrics_def)
qed

lemma gauge_flying:
  assumes "sys_inv E K S s" and "s_metrics S = Some NewMetrics"
  shows "gauge s = int (card (dom (flying s)))"
proof -
  have "active_of (flying s n) + active_of (ended s n) = (if n \<in> dom (flying s) then 1 else 0)" for n
    using assms goes_on_active has_ended_active
    by (cases "flying s n"; cases "ended s n") (fastforce simp: sys_inv_def active_of_def [of None])+
  then have "gauge s = (\<Sum>n<conn_id s. if n \<in> dom (flying s) then 1 else 0)"
    by (simp add: gauge_def)
  also have "\<dots> = int (card ({..<conn_id s} \<inter> dom (flying s)))"
    by (simp add: sum.If_cases)
  also have "{..<conn_id s} \<inter> dom (flying s) = dom (flying s)"
    using assms(1) by (auto simp: sys_inv_def)
  finally show ?thesis .
qed

subsection \<open>Tenants come and go\<close>

text \<open>An authenticated connection keeps its tenant to its end, whatever happens to the catalogue.\<close>

definition serves_as :: "nat \<Rightarrow> conn \<Rightarrow> system \<Rightarrow> bool" where
  "serves_as n c s \<longleftrightarrow>
     (\<exists>d. flying s n = Some d \<and> state d = stateAuthenticated \<and> tenant d = tenant c \<and> password d = password c \<or>
        ended s n = Some d \<and> tenant d = tenant c \<and> password d = password c)"

lemma handle_end_identity [simp]: "tenant (handle_end c) = tenant c" "password (handle_end c) = password c"
  by (simp_all add: handle_end_def conn_close_def with_metrics_def)

lemma serves_as_step:
  assumes "sys_step E K S s s'" and "sys_inv E K S s" and "serves_as n c s"
  shows "serves_as n c s'"
proof -
  have fixed: "identity_fixed d d'" if "serve_step (E m) K t d = (r, d')" for m t d r d'
    by (rule keepsD [OF serve_step_fixed that])
  have fresh: "flying s (conn_id s) = None" "ended s (conn_id s) = None"
    using assms(2) by (auto simp: sys_inv_def domIff [symmetric])
  have disj: "ended s m = None" if "flying s m = Some d" for m d
    using assms(2) that by (auto simp: sys_inv_def)
  from assms(1) show ?thesis
    by cases (use assms(3) fixed fresh disj in \<open>fastforce simp: serves_as_def identity_fixed_def split: if_splits\<close>)+
qed

lemma serves_as_reach:
  "sys_reach E K S s s' \<Longrightarrow> sys_inv E K S s \<Longrightarrow> serves_as n c s \<Longrightarrow> sys_inv E K S s' \<and> serves_as n c s'"
  by (induction rule: rtranclp_induct) (auto intro: sys_inv_step serves_as_step)

text \<open>A connection can take a tenant only while the catalogue has it.\<close>

lemma admitted:
  assumes "sys_step E K S s s'" and "sys_inv E K S s" and "flying s n = Some c" and "state c < stateRelaySaslInFlight"
    and "flying s' n = Some d" and "stateRelaySaslInFlight \<le> state d"
  shows "memoryResolver_Get (catalogue s) (ID (tenant d)) = Inr (tenant d)"
proof -
  have new: "tenant d \<in> tenants_of (resolver_now t)" if "serve_step (E n) K t c = (r, d)" for t r
  proof -
    have "auth_reach (resolver_now t) c d" by (rule keepsD [OF serve_step_auth that])
    then have "tenant_known (tenants_of (resolver_now t)) d"
      by (rule auth_reach_known) (use assms(4) in \<open>auto simp: tenant_known_def dest: leD\<close>)
    with assms(6) show ?thesis by (simp add: tenant_known_def)
  qed
  have "flying s (conn_id s) = None"
    using assms(2) by (auto simp: sys_inv_def domIff [symmetric])
  with assms(1) have "tenant d \<in> tenants_of (catalogue s)"
    by cases (use assms(3-6) new in \<open>fastforce split: if_splits\<close>)+
  then obtain i where i: "memoryResolver_Get (catalogue s) i = Inr (tenant d)" by (auto simp: tenants_of_def)
  then have "ID (tenant d) = i"
    using memory.Get_valid [of "catalogue s"] assms(2) by (simp add: sys_inv_def)
  with i show ?thesis by simp
qed

subsection \<open>Shutdown\<close>

definition unread :: "system \<Rightarrow> nat" where
  "unread s = (\<Sum>n<conn_id s. case flying s n of None \<Rightarrow> 0 | Some c \<Rightarrow> Suc (length (rd (nc c))))"

lemma unread_less:
  assumes "n < conn_id s" and "flying s n = Some c"
    and "(case x of None \<Rightarrow> 0 | Some d \<Rightarrow> Suc (length (rd (nc d)))) < Suc (length (rd (nc c)))"
  shows "(\<Sum>m<conn_id s. case ((flying s)(n := x)) m of None \<Rightarrow> 0 | Some c \<Rightarrow> Suc (length (rd (nc c)))) < unread s"
  unfolding unread_def
  by (rule sum_strict_mono_ex1) (use assms in \<open>auto intro!: bexI [of _ n]\<close>)

lemma sys_step_drains:
  assumes "sys_step E K S s s'" and "sys_inv E K S s" and "returned (loop s)"
  shows "returned (loop s') \<and> (flying s' = flying s \<and> unread s' = unread s \<or> unread s' < unread s)"
proof -
  have id: "n < conn_id s" if "flying s n = Some c" for n c
    using assms(2) that by (auto simp: sys_inv_def)
  show ?thesis
    using assms(1)
  proof cases
    case (request n c t c')
    then have "unread s' < unread s"
      using unread_less [of n s c "Some c'"] id serve_step_consumes [of "E n" K t c "()" c'] by (simp add: unread_def)
    with assms(3) request show ?thesis by simp
  next
    case (finish n c t err c')
    then have "unread s' < unread s"
      using unread_less [of n s c None] id by (simp add: unread_def)
    with assms(3) finish show ?thesis by simp
  next
    case (panic n c t c')
    then have "unread s' < unread s"
      using unread_less [of n s c None] id by (simp add: unread_def)
    with assms(3) panic show ?thesis by simp
  qed (use assms(3) in \<open>simp_all add: unread_def\<close>)
qed

lemma sys_step_exists:
  assumes "\<not> crashed s" and "flying s n = Some c"
  shows "\<exists>s'. sys_step E K S s s' \<and> flying s' n \<noteq> Some c"
proof -
  let ?t = "\<lparr>ctx_Err = None, resolver_now = catalogue s, elapsed = 0\<rparr>"
  obtain r d where r: "serve_step (E n) K ?t c = (r, d)" by force
  show ?thesis
  proof (cases r)
    case (Ok u)
    then have "sys_step E K S s (s\<lparr>flying := (flying s)(n \<mapsto> d)\<rparr>)"
      using sys_step.request [OF assms, of ?t E K d] r by simp
    moreover have "d \<noteq> c" using serve_step_consumes [of "E n" K ?t c u d] r Ok by auto
    ultimately show ?thesis by fastforce
  next
    case (Err e)
    then have "sys_step E K S s (s\<lparr>flying := (flying s)(n := None), ended := (ended s)(n \<mapsto> handle_end d)\<rparr>)"
      using sys_step.finish [OF assms, of ?t E K e d] r by simp
    then show ?thesis by fastforce
  next
    case Panic
    then have "sys_step E K S s (s\<lparr>flying := (flying s)(n := None), ended := (ended s)(n \<mapsto> handle_end d), crashed := True\<rparr>)"
      using sys_step.panic [OF assms, of ?t E K d] r by simp
    then show ?thesis by fastforce
  qed
qed

subsection \<open>One client can end the process\<close>

definition attacker :: stream where
  "attacker = \<lparr>rd = frame_bytes negative_tag_frame, rd_end = EOF, wr = [], wr_left = None, wr_err = ErrClosed, deadline_err = None,
     rd_deadline = None, wr_deadline = None, closed = False, remote_addr = ''192.0.2.1:40000''\<rparr>"

lemma negative_tag_frame_ok: "frame_ok negative_tag_frame"
  by (simp add: frame_ok_def negative_tag_frame_def uvarint_bytes.simps)

lemma serve_step_negative:
  assumes "rd (nc c) = frame_bytes negative_tag_frame @ rest" and "deadline_err (nc c) = None" and "ctx_Err t = None"
  shows "fst (serve_step E K t c) = Panic"
proof -
  have "slice_from negative_tag_frame (22 - 2 ^ 63) = Panic"
    by (simp add: slice_from_def)
  then show ?thesis
    unfolding serve_step_serves [OF assms(3,2) negative_tag_frame_ok assms(1)]
    by (simp add: serve_frame_def op_bind_def op_wrap_def negative_tag_frame_parse)
qed

lemma crash_reachable:
  "\<exists>s. sys_reach E K S (boot R) s \<and> crashed s \<and> spawned (loop s) = [attacker] \<and> (\<forall>s'. \<not> sys_step E K S s s')"
proof -
  let ?b = "handle_begin (s_cfg S) (s_metrics S) attacker"
  let ?s = "(boot R)\<lparr>loop := accept_step (Accepted attacker) accept_begin, flying := [0 \<mapsto> ?b]\<rparr>"
  let ?t = "\<lparr>ctx_Err = None, resolver_now = R, elapsed = 0\<rparr>"
  have 1: "sys_step E K S (boot R) ?s"
    using sys_step.accepts [of "boot R" E K S attacker] by (simp add: boot_def accept_begin_def)
  have "fst (serve_step (E 0) K ?t ?b) = Panic"
    by (rule serve_step_negative [where rest = "[]"]) (simp_all add: attacker_def)
  then obtain d where d: "serve_step (E 0) K ?t ?b = (Panic, d)"
    by (metis prod.collapse)
  let ?s' = "?s\<lparr>flying := (flying ?s)(0 := None), ended := (ended ?s)(0 \<mapsto> handle_end d), crashed := True\<rparr>"
  have 2: "sys_step E K S ?s ?s'"
    by (rule sys_step.panic [where c = ?b and t = ?t]) (use d in \<open>simp_all add: boot_def\<close>)
  have "\<not> sys_step E K S ?s' s'" for s'
    by (auto elim!: sys_stepE)
  moreover have "sys_reach E K S (boot R) ?s'"
    using 1 2 by (rule converse_rtranclp_into_rtranclp [OF _ r_into_rtranclp])
  ultimately show ?thesis by (intro exI [of _ ?s']) (simp add: accept_begin_def)
qed

subsection \<open>An example\<close>

text \<open>A proxy with one tenant, one client that asks for the API versions, and its steps.\<close>

definition acme_tenant :: Tenant where
  "acme_tenant = \<lparr>ID = ''acme'', TopicPrefix = ''acme.'', Upstream = ''k:9092''\<rparr>"

definition example_resolver :: memoryResolver where
  "example_resolver = \<lparr>tenants = [(''acme'', acme_tenant)]\<rparr>"

definition example_server :: Server where
  "example_server = NewServer (cfg (example_conn (input_stream []))) example_resolver (Some NewMetrics) (NewLogger ''info'' ''json'')"

lemma example_resolver_inv: "resolver_inv example_resolver"
  by (simp add: resolver_inv_def example_resolver_def acme_tenant_def valid_tenant_def)

abbreviation example_boot :: system where
  "example_boot \<equiv> boot example_resolver"

definition example_running :: "byte list \<Rightarrow> system" where
  "example_running b = example_boot\<lparr>loop := accept_step (Accepted (input_stream b)) accept_begin,
     flying := [0 \<mapsto> handle_begin (s_cfg example_server) (s_metrics example_server) (input_stream b)]\<rparr>"

lemma example_accepts: "sys_step (\<lambda>_. example_env) example_lib example_server example_boot (example_running b)"
  using sys_step.accepts [of example_boot "\<lambda>_. example_env" example_lib example_server "input_stream b"]
  by (simp add: boot_def accept_begin_def example_running_def)

lemma example_running_reach: "sys_reach (\<lambda>_. example_env) example_lib example_server example_boot (example_running b)"
  by (rule r_into_rtranclp [of "sys_step (\<lambda>_. example_env) example_lib example_server", OF example_accepts])

lemma example_finish:
  "\<exists>s c. sys_reach (\<lambda>_. example_env) example_lib example_server example_boot s \<and> ended s 0 = Some c"
proof -
  let ?t = "\<lparr>ctx_Err = Some (ErrCtx ''context canceled''), resolver_now = example_resolver, elapsed = 0\<rparr>"
  let ?b = "handle_begin (s_cfg example_server) (s_metrics example_server) (input_stream [])"
  have "serve_step example_env example_lib ?t ?b = (Err (ErrCtx ''context canceled''), ?b)"
    by (simp add: serve_step_def op_bind_def)
  then have "\<exists>s. sys_step (\<lambda>_. example_env) example_lib example_server (example_running []) s \<and> ended s 0 = Some (handle_end ?b)"
    using sys_step.finish [of "example_running []" 0 ?b ?t "\<lambda>_. example_env" example_lib "ErrCtx ''context canceled''" ?b example_server]
    by (fastforce simp: example_running_def boot_def)
  then show ?thesis
    using example_running_reach [of "[]"] by (meson rtranclp.rtrancl_into_rtrancl)
qed

text \<open>A client that logs in with PLAIN.\<close>

definition login_env :: "nat env" where
  "login_env = example_env\<lparr>kmsg_of := example_kmsg
     \<lparr>k_SASLHandshake := (k_SASLHandshake example_kmsg)\<lparr>ReadReq := (\<lambda>_ _. Inr \<lparr>HandshakeMechanism = MechanismPlain\<rparr>)\<rparr>,
      k_SASLAuthenticate := (k_SASLAuthenticate example_kmsg)\<lparr>ReadReq := (\<lambda>_ b. Inr \<lparr>SASLAuthBytes = b\<rparr>)\<rparr>\<rparr>\<rparr>"

definition login_frame :: "int16 \<Rightarrow> byte list \<Rightarrow> byte list" where
  "login_frame key body = PutUint16 key @ PutUint16 1 @ PutUint32 5 @ PutUint16 0 @ body"

lemma login_frame_parse:
  assumes "key \<in> {SaslHandshakeKey, SaslAuthenticateKey}"
  shows "ParseRequestHeader (login_frame key body) =
      Ok \<lparr>APIKey = key, APIVersion = 1, CorrelationID = 5, ClientID = [], HeaderVersion = 1, HeaderSize = 10\<rparr>"
    and "slice_from (login_frame key body) 10 = Ok body"
    and "length body < 100 \<Longrightarrow> frame_ok (login_frame key body)"
proof -
  have "RequestHeaderVersion key 1 = 1"
    using assms by (auto simp: RequestHeaderVersion_def isFlexibleRequest_def key_defs)
  then show "ParseRequestHeader (login_frame key body) =
      Ok \<lparr>APIKey = key, APIVersion = 1, CorrelationID = 5, ClientID = [], HeaderVersion = 1, HeaderSize = 10\<rparr>"
    using ParseRequestHeader_fixed [of key 1 5 "PutUint16 0 @ body"]
    by (simp add: login_frame_def parse_client_id_def Let_def)
  show "slice_from (login_frame key body) 10 = Ok body"
    by (simp add: slice_from_def login_frame_def)
  show "length body < 100 \<Longrightarrow> frame_ok (login_frame key body)"
    by (simp add: frame_ok_def login_frame_def PutUint16_def)
qed

definition login_payload :: "byte list" where
  "login_payload = plain_payload [] ''acme'' ''pw''"

definition login_bytes :: "byte list" where
  "login_bytes = frame_bytes (login_frame SaslHandshakeKey []) @ frame_bytes (login_frame SaslAuthenticateKey login_payload)"

lemma login_handshake:
  assumes "rd (nc c) = frame_bytes (login_frame SaslHandshakeKey []) @ rest" and "wr_left (nc c) = None"
    and "deadline_err (nc c) = None" and "state c = stateAwaitHandshake" and "ctx_Err t = None"
  shows "\<exists>d. serve_step login_env K t c = (Ok (), d) \<and> state d = stateAwaitAuth \<and> clientMechanism d = MechanismPlain \<and>
    rd (nc d) = rest \<and> wr_left (nc d) = None \<and> deadline_err (nc d) = None"
  using assms login_frame_parse [of SaslHandshakeKey "[]"]
  by (subst serve_step_serves [where f = "login_frame SaslHandshakeKey []" and rest = rest])
    (auto simp: serve_frame_def dispatch_def key_defs handleSaslHandshake_def Let_def login_env_def
      writeResponse_def op_bind_def op_wrap_def observed_def on_nc_def split: prod.split)

lemma login_parse: "ParsePlain login_payload = Inr \<lparr>Authzid = [], Username = ''acme'', Password = ''pw''\<rparr>"
  unfolding login_payload_def by (rule ParsePlain_payload) (simp_all add: no_nul_def)

lemma login_authenticate:
  assumes "rd (nc c) = frame_bytes (login_frame SaslAuthenticateKey login_payload) @ rest" and "wr_left (nc c) = None"
    and "deadline_err (nc c) = None" and "state c = stateAwaitAuth" and "clientMechanism c = MechanismPlain"
    and "ctx_Err t = None" and "resolver_now t = example_resolver"
  shows "\<exists>d. serve_step login_env K t c = (Ok (), d) \<and> state d = stateAuthenticated \<and> tenant d = acme_tenant"
proof -
  have "length login_payload < 100" by (simp add: login_payload_def plain_payload_def)
  then show ?thesis
    using assms login_frame_parse [of SaslAuthenticateKey login_payload]
    by (subst serve_step_serves [where f = "login_frame SaslAuthenticateKey login_payload" and rest = rest])
      (auto simp: serve_frame_def dispatch_def key_defs handleSaslAuthenticate_def handleSaslAuthenticatePlain_def login_env_def
        login_parse memoryResolver_Get_def example_resolver_def auth_response_def writeResponse_def op_bind_def op_wrap_def
        observed_def on_nc_def split: prod.split)
qed

abbreviation login_steps :: "system \<Rightarrow> system \<Rightarrow> bool" where
  "login_steps \<equiv> sys_step (\<lambda>_. login_env) example_lib example_server"

lemma login_accepts: "login_steps example_boot (example_running b)"
  using sys_step.accepts [of example_boot "\<lambda>_. login_env" example_lib example_server "input_stream b"]
  by (simp add: boot_def accept_begin_def example_running_def)

lemma login_run:
  "\<exists>c d. login_steps\<^sup>*\<^sup>* example_boot ((example_running login_bytes)\<lparr>flying := [0 \<mapsto> c]\<rparr>) \<and> state c = stateAwaitAuth \<and>
     login_steps ((example_running login_bytes)\<lparr>flying := [0 \<mapsto> c]\<rparr>) ((example_running login_bytes)\<lparr>flying := [0 \<mapsto> d]\<rparr>) \<and>
     state d = stateAuthenticated \<and> tenant d = acme_tenant"
proof -
  let ?s = "example_running login_bytes"
  let ?t = "\<lparr>ctx_Err = None, resolver_now = example_resolver, elapsed = 0\<rparr>"
  let ?b = "handle_begin (s_cfg example_server) (s_metrics example_server) (input_stream login_bytes)"
  obtain c where c: "serve_step login_env example_lib ?t ?b = (Ok (), c)" "state c = stateAwaitAuth" "clientMechanism c = MechanismPlain"
    "rd (nc c) = frame_bytes (login_frame SaslAuthenticateKey login_payload)" "wr_left (nc c) = None" "deadline_err (nc c) = None"
    using login_handshake [of ?b "frame_bytes (login_frame SaslAuthenticateKey login_payload)" ?t example_lib]
    by (auto simp: input_stream_def login_bytes_def)
  obtain d where d: "serve_step login_env example_lib ?t c = (Ok (), d)" "state d = stateAuthenticated" "tenant d = acme_tenant"
    using login_authenticate [of c "[]" ?t example_lib] c by auto
  have 1: "login_steps ?s (?s\<lparr>flying := [0 \<mapsto> c]\<rparr>)"
    using sys_step.request [of ?s 0 ?b ?t "\<lambda>_. login_env" example_lib c example_server] c(1)
    by (simp add: example_running_def boot_def)
  have "login_steps (?s\<lparr>flying := [0 \<mapsto> c]\<rparr>) (?s\<lparr>flying := [0 \<mapsto> d]\<rparr>)"
    using sys_step.request [of "?s\<lparr>flying := [0 \<mapsto> c]\<rparr>" 0 c ?t "\<lambda>_. login_env" example_lib d example_server] d(1)
    by (simp add: example_running_def boot_def)
  moreover have "login_steps\<^sup>*\<^sup>* example_boot (?s\<lparr>flying := [0 \<mapsto> c]\<rparr>)"
    using login_accepts 1 by (rule converse_rtranclp_into_rtranclp [OF _ r_into_rtranclp])
  ultimately show ?thesis using c(2) d(2,3) by blast
qed

lemma login_deletes:
  assumes "catalogue s = example_resolver" and "\<not> crashed s"
  shows "\<exists>s'. sys_step E K S s s' \<and> catalogue s' = \<lparr>tenants = []\<rparr> \<and> flying s' = flying s"
proof -
  have "Service_Delete (\<lambda>_. []) (\<lambda>p. p) (catalogue s) (Inr \<lparr>DeleteID = ''acme''\<rparr>) = (Inr \<lparr>OK = True\<rparr>, \<lparr>tenants = []\<rparr>)"
    using assms(1) by (simp add: Service_Delete_def memoryResolver_Delete_def example_resolver_def)
  from sys_step.admin_delete [OF assms(2) this, of E K S] show ?thesis by fastforce
qed

subsection \<open>Properties\<close>



text \<open>C9: what holds of every connection at every moment. In every reachable state of the running proxy the
  catalogue is well-formed, and each connection in flight satisfies the invariant of the authentication
  machine: in particular it has no upstream before a tenant was resolved for it, and from then on its
  tenant is valid and is one that was configured or added. It has dialled no address but upstreams of
  such tenants.\<close>

theorem system_invariant:
  assumes "resolver_inv R" and "sys_reach E K S (boot R) s" and "flying s n = Some c"
  shows "resolver_inv (catalogue s) \<and> auth_inv (auth_of c) \<and> (upstream c \<noteq> None \<longrightarrow> stateRelaySaslInFlight \<le> state c) \<and>
    (stateRelaySaslInFlight \<le> state c \<longrightarrow> tenant c \<in> ever s \<and> valid_tenant (tenant c)) \<and>
    set (dialed c) \<subseteq> Upstream ` ever s"
proof -
  have inv: "sys_inv E K S s" by (rule sys_inv_reach [OF assms(2,1)])
  then have g: "goes_on (E n) K (ever s) S (spawned (loop s) ! n) c"
    using assms(3) by (simp add: sys_inv_def)
  note a = goes_on_inv [OF g]
  have "upstream c \<noteq> None \<longrightarrow> stateRelaySaslInFlight \<le> state c"
    using a by (cases "state c") (auto simp: auth_inv_def auth_init_def auth_of_def less_eq_connState_def)
  moreover have "stateRelaySaslInFlight \<le> state c \<longrightarrow> valid_tenant (tenant c)"
    using a by (simp add: auth_inv_def)
  ultimately show ?thesis
    using inv a goes_on_tenants [OF g] by (simp add: sys_inv_def tenant_known_def)
qed

theorem system_invariant_witness:
  "\<exists>c. sys_reach (\<lambda>_. example_env) example_lib example_server example_boot (example_running []) \<and>
     flying (example_running []) 0 = Some c \<and> auth_inv (auth_of c) \<and> set (dialed c) \<subseteq> Upstream ` ever (example_running [])"
proof -
  obtain c where c: "flying (example_running []) 0 = Some c" by (simp add: example_running_def)
  from system_invariant [OF example_resolver_inv example_running_reach c] c example_running_reach show ?thesis by blast
qed

text \<open>C36: the gauge of active connections is right. In every reachable state with the metrics enabled, the
  increments and decrements that all connections made of it add up to the number of connections in
  flight.\<close>

theorem system_gauge:
  assumes "resolver_inv R" and "sys_reach E K S (boot R) s" and "s_metrics S = Some NewMetrics"
  shows "gauge s = int (card (dom (flying s)))"
  by (rule gauge_flying [OF sys_inv_reach [OF assms(2,1)] assms(3)])

theorem system_gauge_witness: "gauge (example_running []) = 1"
proof -
  have "s_metrics example_server = Some NewMetrics" by (simp add: example_server_def NewServer_def)
  from system_gauge [OF example_resolver_inv example_running_reach this] show ?thesis
    by (simp add: example_running_def boot_def)
qed

text \<open>C17: tenants come and go without disturbing those connected. A connection that authenticated keeps its
  tenant and password for as long as it is in flight and in the state it ends in, over every further
  step of the system: deleting the tenant from the catalogue neither ends the connection nor changes
  whom it speaks for.\<close>

theorem deletion_keeps_connections:
  assumes "resolver_inv R" and "sys_reach E K S (boot R) s" and "flying s n = Some c" and "state c = stateAuthenticated"
    and "sys_reach E K S s s'"
  shows "\<exists>d. (flying s' n = Some d \<and> state d = stateAuthenticated \<or> ended s' n = Some d) \<and> tenant d = tenant c \<and> password d = password c"
proof -
  have "serves_as n c s" using assms(3,4) by (auto simp: serves_as_def)
  from serves_as_reach [OF assms(5) sys_inv_reach [OF assms(2,1)] this] show ?thesis
    by (auto simp: serves_as_def)
qed

theorem deletion_keeps_connections_witness:
  "\<exists>s s' c d. login_steps\<^sup>*\<^sup>* example_boot s \<and> flying s 0 = Some c \<and> state c = stateAuthenticated \<and>
     login_steps\<^sup>*\<^sup>* s s' \<and> tenants (catalogue s') = [] \<and> (flying s' 0 = Some d \<or> ended s' 0 = Some d) \<and> tenant d = acme_tenant"
proof -
  obtain c d where r: "login_steps\<^sup>*\<^sup>* example_boot ((example_running login_bytes)\<lparr>flying := [0 \<mapsto> c]\<rparr>)"
    and s: "login_steps ((example_running login_bytes)\<lparr>flying := [0 \<mapsto> c]\<rparr>) ((example_running login_bytes)\<lparr>flying := [0 \<mapsto> d]\<rparr>)"
    and d: "state d = stateAuthenticated" "tenant d = acme_tenant"
    using login_run by blast
  let ?s = "(example_running login_bytes)\<lparr>flying := [0 \<mapsto> d]\<rparr>"
  have r': "login_steps\<^sup>*\<^sup>* example_boot ?s" using r s by (rule rtranclp.rtrancl_into_rtrancl)
  obtain s' where s': "login_steps ?s s'" "tenants (catalogue s') = []"
    using login_deletes [of ?s] by (fastforce simp: example_running_def boot_def)
  have "flying ?s 0 = Some d" by simp
  from deletion_keeps_connections [OF example_resolver_inv r' this d(1) r_into_rtranclp [of login_steps, OF s'(1)]] r' s' d this
  show ?thesis by (metis r_into_rtranclp)
qed

text \<open>C10: only a tenant in the catalogue is admitted. When a step takes a connection past the resolution of
  its tenant (to the relaying of SCRAM messages or to being authenticated), the catalogue of that very
  moment has that tenant under its id. So a deleted tenant is not admitted again.\<close>

theorem admission_needs_catalogue:
  assumes "resolver_inv R" and "sys_reach E K S (boot R) s" and "sys_step E K S s s'"
    and "flying s n = Some c" and "state c < stateRelaySaslInFlight"
    and "flying s' n = Some d" and "stateRelaySaslInFlight \<le> state d"
  shows "memoryResolver_Get (catalogue s) (ID (tenant d)) = Inr (tenant d)"
  by (rule admitted [OF assms(3) sys_inv_reach [OF assms(2,1)] assms(4-7)])

theorem admission_needs_catalogue_witness:
  "\<exists>s s' d. login_steps\<^sup>*\<^sup>* example_boot s \<and> login_steps s s' \<and> flying s' 0 = Some d \<and> state d = stateAuthenticated \<and>
     memoryResolver_Get (catalogue s) (ID (tenant d)) = Inr (tenant d)"
proof -
  obtain c d where r: "login_steps\<^sup>*\<^sup>* example_boot ((example_running login_bytes)\<lparr>flying := [0 \<mapsto> c]\<rparr>)"
    and s: "login_steps ((example_running login_bytes)\<lparr>flying := [0 \<mapsto> c]\<rparr>) ((example_running login_bytes)\<lparr>flying := [0 \<mapsto> d]\<rparr>)"
    and c: "state c = stateAwaitAuth" and d: "state d = stateAuthenticated"
    using login_run by blast
  have "memoryResolver_Get (catalogue ((example_running login_bytes)\<lparr>flying := [0 \<mapsto> c]\<rparr>)) (ID (tenant d)) = Inr (tenant d)"
    by (rule admission_needs_catalogue [OF example_resolver_inv r s, where n = 0 and c = c and d = d])
      (simp_all add: c d less_connState_def less_eq_connState_def)
  moreover have "flying ((example_running login_bytes)\<lparr>flying := [0 \<mapsto> d]\<rparr>) 0 = Some d" by simp
  ultimately show ?thesis using r s d by blast
qed



text \<open>C15: one client can end the process for all. Against every configuration there is a run in which a client
  that has not authenticated sends one request of 26 bytes and the proxy is gone: the frame's header
  declares a tagged field whose length is negative as a signed number, the slice of the body panics, and
  a panic in a connection's goroutine ends the process, after which no step is possible.\<close>

theorem unauthenticated_crash:
  "\<exists>s. sys_reach E K S (boot R) s \<and> crashed s \<and> spawned (loop s) = [attacker] \<and> (\<forall>s'. \<not> sys_step E K S s s')"
  by (rule crash_reachable)

end
