(* ===== verification/Go_Flags.thy ===== *)
theory Go_Flags
  imports Kroxy_Prelude "HOL-Library.AList"
begin

text \<open>
  The command-line flags of Go's library (package \<open>flag\<close>) as far as kroxy uses them: string and
  boolean flags on the default set, whose \<open>Parse\<close> exits the process on an error. The definitions
  follow the branches of \<open>FlagSet.parseOne\<close> and of \<open>strconv.ParseBool\<close>.
\<close>

subsection \<open>Model\<close>

datatype flag_value = StringFlag string | BoolFlag bool

type_synonym flag_set = "(string \<times> flag_value) list"

text \<open>Why parsing stops: a request for help, or a malformed command line.\<close>

datatype flag_stop = ErrHelp | ErrFlag go_error

definition StringVar :: "string \<Rightarrow> string \<Rightarrow> flag_set \<Rightarrow> flag_set" where
  "StringVar name v fs = fs @ [(name, StringFlag v)]"

definition BoolVar :: "string \<Rightarrow> bool \<Rightarrow> flag_set \<Rightarrow> flag_set" where
  "BoolVar name v fs = fs @ [(name, BoolFlag v)]"

definition ParseBool :: "string \<Rightarrow> bool option" where
  "ParseBool s =
     (if s \<in> {''1'', ''t'', ''T'', ''true'', ''TRUE'', ''True''} then Some True
      else if s \<in> {''0'', ''f'', ''F'', ''false'', ''FALSE'', ''False''} then Some False
      else None)"

definition split_value :: "string \<Rightarrow> string \<times> string option" where
  "split_value name =
     (case IndexByte (tl name) (CHR ''='') of
        None \<Rightarrow> (name, None)
      | Some i \<Rightarrow> (take (i + 1) name, Some (drop (i + 2) name)))"

datatype parsed = Stop flag_stop | Done flag_set "string list" | Seen flag_set "string list"

definition set_flag :: "string \<Rightarrow> string option \<Rightarrow> string list \<Rightarrow> flag_set \<Rightarrow> parsed" where
  "set_flag name value args fs =
     (case map_of fs name of
        None \<Rightarrow>
          if name = ''help'' \<or> name = ''h'' then Stop ErrHelp
          else Stop (ErrFlag (Errorf ''flag provided but not defined: -%s'' [FStr name]))
      | Some (BoolFlag _) \<Rightarrow>
          (case value of
             None \<Rightarrow> Seen (AList.update name (BoolFlag True) fs) args
           | Some v \<Rightarrow>
               (case ParseBool v of
                  None \<Rightarrow> Stop (ErrFlag (Errorf ''invalid boolean value %q for -%s: parse error'' [FStr v, FStr name]))
                | Some b \<Rightarrow> Seen (AList.update name (BoolFlag b) fs) args))
      | Some (StringFlag _) \<Rightarrow>
          (case value of
             Some v \<Rightarrow> Seen (AList.update name (StringFlag v) fs) args
           | None \<Rightarrow>
               (case args of
                  v # args \<Rightarrow> Seen (AList.update name (StringFlag v) fs) args
                | [] \<Rightarrow> Stop (ErrFlag (Errorf ''flag needs an argument: -%s'' [FStr name])))))"

definition parseOne :: "flag_set \<Rightarrow> string list \<Rightarrow> parsed" where
  "parseOne fs args =
     (case args of
        [] \<Rightarrow> Done fs []
      | s # rest \<Rightarrow>
          if length s < 2 \<or> hd s \<noteq> CHR ''-'' then Done fs args
          else if s = ''--'' then Done fs rest
          else let name = drop (if s ! 1 = CHR ''-'' then 2 else 1) s
               in if hd name = CHR ''-'' \<or> hd name = CHR ''='' then Stop (ErrFlag (Errorf ''bad flag syntax: %s'' [FStr s]))
                  else case split_value name of (name, value) \<Rightarrow> set_flag name value rest fs)"

lemma set_flag_shorter: "set_flag name value args fs = Seen fs' args' \<Longrightarrow> length args' \<le> length args"
  by (auto simp: set_flag_def split: option.splits flag_value.splits list.splits if_splits)

lemma parseOne_shorter: "parseOne fs args = Seen fs' args' \<Longrightarrow> length args' < length args"
  by (auto simp: parseOne_def Let_def dest!: set_flag_shorter split: list.splits if_splits prod.splits)

function flag_Parse :: "flag_set \<Rightarrow> string list \<Rightarrow> flag_stop + flag_set \<times> string list" where
  "flag_Parse fs args =
     (case parseOne fs args of
        Stop e \<Rightarrow> Inl e
      | Done fs args \<Rightarrow> Inr (fs, args)
      | Seen fs args \<Rightarrow> flag_Parse fs args)"
  by pat_completeness auto

termination
  by (relation "measure (\<lambda>(fs, args). length args)") (auto dest: parseOne_shorter)

declare flag_Parse.simps [simp del]

subsection \<open>The spellings of a flag\<close>

text \<open>A flag is given with one or two dashes, and its value after an equals sign or, for a string, as the
  next argument.\<close>

definition flag_name :: "string \<Rightarrow> bool" where
  "flag_name n \<longleftrightarrow> n \<noteq> [] \<and> hd n \<noteq> CHR ''-'' \<and> CHR ''='' \<notin> set n"

lemma split_value_plain: "flag_name n \<Longrightarrow> split_value n = (n, None)"
  by (cases n) (auto simp: split_value_def flag_name_def dest: IndexByte_None_iff [THEN iffD2])

lemma split_value_equals: "flag_name n \<Longrightarrow> split_value (n @ CHR ''='' # v) = (n, Some v)"
  by (cases n) (auto simp: split_value_def flag_name_def)

definition dashes :: "string set" where
  "dashes = {''-'', ''--''}"

lemma parseOne_name:
  assumes "d \<in> dashes" and "flag_name n"
  shows "parseOne fs ((d @ n) # rest) = set_flag n None rest fs"
    and "parseOne fs ((d @ n @ CHR ''='' # v) # rest) = set_flag n (Some v) rest fs"
proof -
  obtain x xs where x: "n = x # xs" "x \<noteq> CHR ''-''" "x \<noteq> CHR ''=''"
    using assms(2) by (cases n) (auto simp: flag_name_def)
  show "parseOne fs ((d @ n) # rest) = set_flag n None rest fs"
    using assms x split_value_plain [OF assms(2)] by (auto simp: parseOne_def dashes_def)
  show "parseOne fs ((d @ n @ CHR ''='' # v) # rest) = set_flag n (Some v) rest fs"
    using assms x split_value_equals [OF assms(2), of v] by (auto simp: parseOne_def dashes_def)
qed

lemma Parse_string:
  assumes "d \<in> dashes" and "flag_name n" and "map_of fs n = Some (StringFlag u)"
  shows "flag_Parse fs ((d @ n) # v # rest) = flag_Parse (AList.update n (StringFlag v) fs) rest"
    and "flag_Parse fs ((d @ n @ CHR ''='' # v) # rest) = flag_Parse (AList.update n (StringFlag v) fs) rest"
  using assms by (subst flag_Parse.simps, simp add: parseOne_name set_flag_def)+

lemma Parse_bool:
  assumes "d \<in> dashes" and "flag_name n" and "map_of fs n = Some (BoolFlag u)"
  shows "flag_Parse fs ((d @ n) # rest) = flag_Parse (AList.update n (BoolFlag True) fs) rest"
    and "ParseBool v = Some b \<Longrightarrow>
      flag_Parse fs ((d @ n @ CHR ''='' # v) # rest) = flag_Parse (AList.update n (BoolFlag b) fs) rest"
  using assms by (subst flag_Parse.simps, simp add: parseOne_name set_flag_def)+

lemma Parse_rest:
  "flag_Parse fs [] = Inr (fs, [])"
  "length s < 2 \<or> hd s \<noteq> CHR ''-'' \<Longrightarrow> flag_Parse fs (s # rest) = Inr (fs, s # rest)"
  "flag_Parse fs (''--'' # rest) = Inr (fs, rest)"
  by (subst flag_Parse.simps, simp add: parseOne_def)+

text \<open>Parsing changes the values of the declared flags only, and never their kind.\<close>

fun same_kind :: "flag_value \<Rightarrow> flag_value \<Rightarrow> bool" where
  "same_kind (StringFlag _) (StringFlag _) = True"
| "same_kind (BoolFlag _) (BoolFlag _) = True"
| "same_kind _ _ = False"

definition same_flags :: "flag_set \<Rightarrow> flag_set \<Rightarrow> bool" where
  "same_flags fs gs \<longleftrightarrow> (\<forall>n. rel_option same_kind (map_of fs n) (map_of gs n))"

lemma same_kind_refl [simp]: "same_kind v v"
  by (cases v) auto

lemma same_kind_trans: "same_kind u v \<Longrightarrow> same_kind v w \<Longrightarrow> same_kind u w"
  by (cases u; cases v; cases w) auto

lemma same_flags_refl: "same_flags fs fs"
  by (simp add: same_flags_def option.rel_refl)

lemma same_flags_update:
  "map_of fs n = Some u \<Longrightarrow> same_kind u v \<Longrightarrow> same_flags fs (AList.update n v fs)"
  by (simp add: same_flags_def update_conv' option.rel_refl)

lemma same_flags_trans: "same_flags fs gs \<Longrightarrow> same_flags gs hs \<Longrightarrow> same_flags fs hs"
  unfolding same_flags_def using same_kind_trans by (blast intro: option.rel_transp [unfolded transp_def, rule_format])

lemma set_flag_kinds: "set_flag name value args fs = Seen fs' args' \<Longrightarrow> same_flags fs fs'"
  by (auto simp: set_flag_def intro!: same_flags_update split: option.splits flag_value.splits list.splits if_splits)

lemma parseOne_kinds: "parseOne fs args = Seen fs' args' \<or> parseOne fs args = Done fs' args' \<Longrightarrow> same_flags fs fs'"
  by (auto simp: parseOne_def Let_def same_flags_refl dest: set_flag_kinds split: list.splits if_splits prod.splits)
    (auto simp: set_flag_def split: option.splits flag_value.splits list.splits if_splits)

lemma Parse_kinds: "flag_Parse fs args = Inr (fs', rest) \<Longrightarrow> same_flags fs fs'"
proof (induction fs args rule: flag_Parse.induct)
  case (1 fs args)
  show ?case
  proof (cases "parseOne fs args")
    case (Seen gs as)
    then show ?thesis
      using 1 parseOne_kinds same_flags_trans by (metis (no_types) flag_Parse.simps parsed.simps(12))
  next
    case (Done gs as)
    then show ?thesis
      using 1(2) parseOne_kinds by (simp add: flag_Parse.simps [of fs args]) blast
  next
    case (Stop e)
    then show ?thesis using 1(2) by (simp add: flag_Parse.simps [of fs args])
  qed
qed

end
