(* ===== verification/Kroxy_Main.thy ===== *)
theory Kroxy_Main
  imports Proxy_System Go_Flags
begin

text \<open>
  \<open>cmd/kroxy/main.go\<close>, and the two HTTP servers it starts: \<open>Serve\<close> of \<open>admin/server.go\<close> with the
  construction and the registry of the service, and \<open>ServeMetrics\<close> of \<open>observability/metrics.go\<close>.

  The HTTP and RPC servers belong to libraries. What kroxy adds is what they are set up with, when they
  are started and what becomes of their errors, so a running server is what it returned and which case
  of the \<open>select\<close> came first: \<open>Cancelled\<close>, with the outcome of its shutdown, or \<open>Stopped\<close>, with the
  error it stopped on. Likewise \<open>run\<close> is given the channel that becomes ready first, and how long after
  that the last connection returns.
\<close>

subsection \<open>The HTTP servers\<close>

definition http_ErrServerClosed :: go_error where
  "http_ErrServerClosed = ErrNew ''http: Server closed''"

text \<open>A route is served by a handler of a library, or answers with a fixed status and body.\<close>

datatype 'h route = Handler 'h | Reply int string

record 'h http_Server =
  Addr :: string
  Mux :: "(string \<times> 'h route) list"
  ReadHeaderTimeout :: int

datatype http_server = Cancelled "go_error option" | Stopped go_error

definition metrics_http :: "string \<Rightarrow> 'h \<Rightarrow> 'h http_Server" where
  "metrics_http addr promhttp =
     \<lparr>Addr = addr, Mux = [(''/metrics'', Handler promhttp), (''/healthz'', Reply 200 ''ok'')], ReadHeaderTimeout = 5 * 1000000000\<rparr>"

definition ServeMetrics :: "http_server \<Rightarrow> go_error option" where
  "ServeMetrics ev =
     (case ev of
        Cancelled _ \<Rightarrow> None
      | Stopped err \<Rightarrow> if errors_Is err http_ErrServerClosed then None else Some err)"

record Service =
  store :: memoryResolver
  service_log :: Logger

definition NewService :: "Logger \<Rightarrow> memoryResolver \<Rightarrow> Logger option \<Rightarrow> Service" where
  "NewService slog_Default st log = \<lparr>store = st, service_log = (case log of None \<Rightarrow> slog_Default | Some l \<Rightarrow> l)\<rparr>"

datatype rpc_result = Result_OK OKResult | Result_List ListResult

type_synonym 'q rpc_method = "memoryResolver \<Rightarrow> 'q \<Rightarrow> (service_error + rpc_result) \<times> memoryResolver"

definition Registry ::
    "(go_error \<Rightarrow> string) \<Rightarrow> ('q \<Rightarrow> go_error + SetParams) \<Rightarrow> ('q \<Rightarrow> go_error + DeleteParams) \<Rightarrow> (Tenant list \<Rightarrow> Tenant list) \<Rightarrow>
     string \<times> (string \<times> 'q rpc_method) list" where
  "Registry Error BindSet BindDelete order =
     (''Tenants'',
      [(''Set'', \<lambda>st p. apfst (map_sum id Result_OK) (Service_Set Error BindSet st p)),
       (''Delete'', \<lambda>st p. apfst (map_sum id Result_OK) (Service_Delete Error BindDelete st p)),
       (''List'', \<lambda>st p. (Inr (Result_List (Service_List order st)), st))])"

definition admin_http :: "'h \<Rightarrow> 'h http_Server" where
  "admin_http rpc_server =
     \<lparr>Addr = [], Mux = [(''/rpc'', Handler rpc_server), (''/healthz'', Reply 200 ''ok'')], ReadHeaderTimeout = 5 * 1000000000\<rparr>"

definition admin_Serve :: "(string \<Rightarrow> go_error option) \<Rightarrow> string \<Rightarrow> http_server \<Rightarrow> go_error option" where
  "admin_Serve net_listen addr ev =
     (case net_listen addr of
        Some err \<Rightarrow> Some (Wrap err ''Serve'')
      | None \<Rightarrow>
          (case ev of
             Cancelled shutdown \<Rightarrow> map_option (\<lambda>err. Wrap err ''Serve'') shutdown
           | Stopped err \<Rightarrow> if errors_Is err http_ErrServerClosed then None else Some (Wrap err ''Serve'')))"

subsection \<open>The command\<close>

definition command_flags :: flag_set where
  "command_flags = BoolVar ''version'' False (StringVar ''config'' ''config.yaml'' [])"

definition cfgPath :: "flag_set \<Rightarrow> string" where
  "cfgPath fs = (case map_of fs ''config'' of Some (StringFlag s) \<Rightarrow> s | _ \<Rightarrow> [])"

definition showVersion :: "flag_set \<Rightarrow> bool" where
  "showVersion fs = (case map_of fs ''version'' of Some (BoolFlag b) \<Rightarrow> b | _ \<Rightarrow> False)"

datatype run_event = Ctx_Done | Proxy_Err "go_error option" | Metrics_Err "go_error option" | Admin_Err "go_error option"

definition start ::
    "(string \<Rightarrow> go_error + byte list) \<Rightarrow> (byte list \<Rightarrow> go_error + Config) \<Rightarrow> (string \<Rightarrow> string \<Rightarrow> go_error + tls_Certificate) \<Rightarrow>
     string \<Rightarrow> go_error + Config \<times> Server" where
  "start ReadFile Unmarshal LoadX509KeyPair path =
     (case Load ReadFile Unmarshal path of
        Inl err \<Rightarrow> Inl err
      | Inr cf \<Rightarrow>
     (let log = NewLogger (Level (Log cf)) (Format (Log cf)) in
      case resolver_New (ResolverCfg cf) of
        Inl err \<Rightarrow> Inl err
      | Inr res \<Rightarrow>
     (let metrics = (if Metrics_Enabled (MetricsCfg cf) then Some NewMetrics else None) in
      case TLSConfig_Build LoadX509KeyPair (TLS cf) of
        Inl err \<Rightarrow> Inl err
      | Inr tlsCfg \<Rightarrow>
          Inr (cf, NewServer \<lparr>srv_Listen = Listen cf, srv_Advertised = Advertised cf, srv_TLS = tlsCfg,
            UpstreamSASLMechanism = Mechanism (SASL (UpstreamCfg cf))\<rparr> res metrics log))))"

text \<open>A channel that no goroutine sends to never becomes ready.\<close>

fun ready :: "Config \<Rightarrow> Server \<Rightarrow> run_event \<Rightarrow> bool" where
  "ready cf srv (Metrics_Err _) \<longleftrightarrow> s_metrics srv \<noteq> None"
| "ready cf srv (Admin_Err _) \<longleftrightarrow> Admin_Enabled (AdminCfg cf)"
| "ready cf srv _ \<longleftrightarrow> True"

fun sent_err :: "run_event \<Rightarrow> go_error option" where
  "sent_err Ctx_Done = None"
| "sent_err (Proxy_Err e) = e"
| "sent_err (Metrics_Err e) = e"
| "sent_err (Admin_Err e) = e"

text \<open>What \<open>run\<close> prints, the status \<open>flag.Parse\<close> exits with if it does, the error \<open>run\<close> returns, and how it
  waited for the connections in flight.\<close>

record exit =
  printed :: string
  exits :: "int option"
  returns :: "go_error option"
  waited :: "(int \<times> bool) option"

definition run ::
    "(string \<Rightarrow> go_error + byte list) \<Rightarrow> (byte list \<Rightarrow> go_error + Config) \<Rightarrow> (string \<Rightarrow> string \<Rightarrow> go_error + tls_Certificate) \<Rightarrow>
     string \<Rightarrow> string list \<Rightarrow> run_event \<Rightarrow> int option \<Rightarrow> exit option" where
  "run ReadFile Unmarshal LoadX509KeyPair version args ev drained =
     (case flag_Parse command_flags args of
        Inl ErrHelp \<Rightarrow> Some \<lparr>printed = [], exits = Some 0, returns = None, waited = None\<rparr>
      | Inl (ErrFlag _) \<Rightarrow> Some \<lparr>printed = [], exits = Some 2, returns = None, waited = None\<rparr>
      | Inr (fs, _) \<Rightarrow>
     (if showVersion fs then Some \<lparr>printed = version @ [CHR 0x0A], exits = None, returns = None, waited = None\<rparr>
      else case start ReadFile Unmarshal LoadX509KeyPair (cfgPath fs) of
             Inl err \<Rightarrow> Some \<lparr>printed = [], exits = None, returns = Some err, waited = None\<rparr>
           | Inr (cf, srv) \<Rightarrow>
               if \<not> ready cf srv ev then None
               else (case sent_err ev of
                       Some err \<Rightarrow> Some \<lparr>printed = [], exits = None, returns = Some err, waited = None\<rparr>
                     | None \<Rightarrow> Some \<lparr>printed = [], exits = None, returns = None, waited = Some (Wait drained)\<rparr>)))"

definition exit_code :: "exit \<Rightarrow> int" where
  "exit_code x = (case exits x of Some n \<Rightarrow> n | None \<Rightarrow> (case returns x of None \<Rightarrow> 0 | Some _ \<Rightarrow> 1))"

subsection \<open>What is started\<close>

lemma newMemoryResolver_tenants: "newMemoryResolver ts = Inr r \<Longrightarrow> tenants_of r = set ts"
  using newMemoryResolver_abs [of ts r]
  by (auto simp: tenants_of_def memory.Get_Inr newMemoryResolver_Inr map_of_eq_Some_iff comp_def)

lemma start_Inr:
  "start ReadFile Unmarshal LoadX509KeyPair path = Inr (cf, S) \<longleftrightarrow>
     Load ReadFile Unmarshal path = Inr cf \<and>
     (\<exists>res tlsCfg. newMemoryResolver (config_tenants cf) = Inr res \<and> TLSConfig_Build LoadX509KeyPair (TLS cf) = Inr tlsCfg \<and>
        S = NewServer \<lparr>srv_Listen = Listen cf, srv_Advertised = Advertised cf, srv_TLS = tlsCfg,
            UpstreamSASLMechanism = Mechanism (SASL (UpstreamCfg cf))\<rparr> res
          (if Metrics_Enabled (MetricsCfg cf) then Some NewMetrics else None) (NewLogger (Level (Log cf)) (Format (Log cf))))"
  using resolver_New_config by (fastforce simp: start_def Let_def split: sum.splits)

subsection \<open>The command line\<close>

lemma command_names: "flag_name ''config''" "flag_name ''version''"
  by (simp_all add: flag_name_def)

lemma command_flags_of:
  "map_of command_flags ''config'' = Some (StringFlag ''config.yaml'')" "map_of command_flags ''version'' = Some (BoolFlag False)"
  by (simp_all add: command_flags_def BoolVar_def StringVar_def)

lemma cfgPath_update [simp]:
  "cfgPath (AList.update ''config'' (StringFlag path) fs) = path"
  "cfgPath (AList.update ''version'' b fs) = cfgPath fs"
  "showVersion (AList.update ''config'' v fs) = showVersion fs"
  "showVersion (AList.update ''version'' (BoolFlag c) fs) = c"
  by (simp_all add: cfgPath_def showVersion_def update_conv')

lemma command_defaults [simp]: "cfgPath command_flags = ''config.yaml''" "\<not> showVersion command_flags"
  by (simp_all add: cfgPath_def showVersion_def command_flags_of)

text \<open>The command lines that name a configuration.\<close>

inductive names_config :: "string list \<Rightarrow> string \<Rightarrow> bool" where
  default: "names_config [] ''config.yaml''"
| separate: "d \<in> dashes \<Longrightarrow> names_config [d @ ''config'', path] path"
| joined: "d \<in> dashes \<Longrightarrow> names_config [d @ ''config'' @ CHR ''='' # path] path"

lemma Parse_config:
  assumes "names_config args path"
  obtains fs where "flag_Parse command_flags args = Inr (fs, [])" "cfgPath fs = path" "\<not> showVersion fs"
  using assms
proof cases
  case default
  then show ?thesis using that [of command_flags] by (simp add: Parse_rest)
next
  case (separate d)
  then show ?thesis
    using that Parse_string(1) [OF separate(2) command_names(1) command_flags_of(1), of path "[]"] by (simp add: Parse_rest)
next
  case (joined d)
  then show ?thesis
    using that Parse_string(2) [OF joined(2) command_names(1) command_flags_of(1), of path "[]"] by (simp add: Parse_rest)
qed

lemma Wait_bounds: "Wait drained = (t, b) \<Longrightarrow> t \<le> drainTimeout \<and> (b \<longleftrightarrow> (\<exists>u\<le>drainTimeout. drained = Some u))"
  by (auto simp: Wait_def split: option.splits if_splits)

subsection \<open>Properties\<close>

text \<open>C22: the proxy starts exactly on the configurations it documents, and starts on what they say. \<open>start\<close>
  succeeds exactly when the file loads to a valid configuration, the tenant ids are distinct, and TLS is
  off or its key pair loads; the server then has exactly the configured tenants (each with the shared
  bootstrap address where it named none) in a well-formed catalogue, serves TLS exactly when enabled, and
  translates to the configured mechanism.\<close>

theorem start_exact:
  "start ReadFile Unmarshal LoadX509KeyPair path = Inr (cf, S) \<longleftrightarrow>
     Load ReadFile Unmarshal path = Inr cf \<and> config_ok cf \<and> distinct (map ID (config_tenants cf)) \<and>
     (\<exists>certs. (if TLS_Enabled (TLS cf) then \<exists>cert. LoadX509KeyPair (CertFile (TLS cf)) (KeyFile (TLS cf)) = Inr cert \<and> certs = [cert] else certs = []) \<and>
        S = \<lparr>s_cfg = \<lparr>srv_Listen = Listen cf, srv_Advertised = Advertised cf,
                srv_TLS = (if TLS_Enabled (TLS cf) then Some \<lparr>Certificates = certs, TLS_MinVersion = VersionTLS12\<rparr> else None),
                UpstreamSASLMechanism = Mechanism (SASL (UpstreamCfg cf))\<rparr>,
             s_resolver = \<lparr>tenants = map (\<lambda>t. (ID t, t)) (config_tenants cf)\<rparr>,
             s_metrics = (if Metrics_Enabled (MetricsCfg cf) then Some [] else None),
             s_log = NewLogger (Level (Log cf)) (Format (Log cf)), s_listener = None, s_wg = []\<rparr>)"
proof -
  have "config_ok cf" "list_all valid_tenant (config_tenants cf)" if "Load ReadFile Unmarshal path = Inr cf"
    using that Load_tenants_valid [OF that] by (auto simp: Load_Inr)
  then show ?thesis
    unfolding start_Inr by (auto simp: newMemoryResolver_Inr TLSConfig_Build_def NewServer_def NewMetrics_def split: sum.splits)
qed



end
