(* ===== verification/Proxy_Conversation.thy ===== *)
theory Proxy_Conversation
  imports Proxy_System
begin

text \<open>
  Everything a connection has said to its broker, from the first byte: the negotiation of the dial, then
  the credentials of the client (as one PLAIN message, or as the relayed messages of the client's own
  SCRAM exchange), then messages of the tenant. An invariant of the connections in flight in the running
  proxy.
\<close>

subsection \<open>Relayed SASL messages\<close>

definition relay_message :: "'s env \<Rightarrow> byte list \<Rightarrow> bool" where
  "relay_message E b \<longleftrightarrow>
     (\<exists>payload cid. b = AppendRequest (k_SASLAuthenticate (kmsg_of E)) ''kroxy'' 1 \<lparr>SASLAuthBytes = payload\<rparr> cid)"

lemma RelaySASLAuthenticate_sends:
  assumes "RelaySASLAuthenticate K payload u = (Ok r, v)"
  shows "wr (unc v) = wr (unc u) @ AppendRequest (k_SASLAuthenticate K) ''kroxy'' 1 \<lparr>SASLAuthBytes = payload\<rparr> (corrIDGen u + 1)"
proof -
  from assms obtain u1 body where d: "applyRequestDeadline u = (Ok (), u1)"
    and r: "directRoundTrip (k_SASLAuthenticate K) \<lparr>SASLAuthBytes = payload\<rparr> SaslAuthenticateKey 1 u1 = (Ok body, v)"
    by (auto simp: RelaySASLAuthenticate_def op_bind_Ok)
  from d have "wr (unc u1) = wr (unc u)" "corrIDGen u1 = corrIDGen u"
    by (auto simp: applyRequestDeadline_Ok split: if_splits)
  with directRoundTrip_sends [OF r] show ?thesis by (simp add: sends_def)
qed

lemma responses_sel [simp]:
  "upstream (snd (writeResponse api hdr resp c)) = upstream c" "tenant (snd (writeResponse api hdr resp c)) = tenant c"
  "clientMechanism (snd (writeResponse api hdr resp c)) = clientMechanism c" "state (snd (writeResponse api hdr resp c)) = state c"
  "cfg (snd (writeResponse api hdr resp c)) = cfg c"
  by (simp_all add: writeResponse_def)

lemma refuse_sel [simp]:
  "upstream (snd (refuse E hdr mech res code m c)) = upstream c" "tenant (snd (refuse E hdr mech res code m c)) = tenant c"
  "clientMechanism (snd (refuse E hdr mech res code m c)) = clientMechanism c" "state (snd (refuse E hdr mech res code m c)) = state c"
  "cfg (snd (refuse E hdr mech res code m c)) = cfg c"
  by (simp_all add: refuse_def auth_response_def)

lemma scram_answer_sel:
  "upstream (snd (scram_answer E hdr b code msg c)) = upstream c" "tenant (snd (scram_answer E hdr b code msg c)) = tenant c"
  "clientMechanism (snd (scram_answer E hdr b code msg c)) = clientMechanism c" "cfg (snd (scram_answer E hdr b code msg c)) = cfg c"
  by (simp_all add: scram_answer_def Let_def auth_response_def)

lemma scram_relay_Ok:
  assumes "scram_relay E hdr payload c = (Ok (), d)"
  obtains u v b where "upstream c = Some u" "upstream d = Some v" "relay_message E b" "wr (unc v) = wr (unc u) @ b"
    "tenant d = tenant c" "clientMechanism d = clientMechanism c" "cfg d = cfg c"
proof -
  obtain q c1 where q: "on_upstream (RelaySASLAuthenticate (kmsg_of E) payload) c = (q, c1)" by force
  with assms obtain r code msg where ok: "q = Ok (r, code, msg)" and a: "scram_answer E hdr r code msg c1 = (Ok (), d)"
    by (cases q) (auto simp: scram_relay_def scram_failed_def)
  from q ok obtain u v where u: "upstream c = Some u" "RelaySASLAuthenticate (kmsg_of E) payload u = (Ok (r, code, msg), v)"
    and c1: "c1 = c\<lparr>upstream := Some v\<rparr>"
    by (auto simp: on_upstream_Pair split: option.splits)
  have d: "d = snd (scram_answer E hdr r code msg c1)" using a by simp
  show thesis
    by (rule that [OF u(1), of v, OF _ _ RelaySASLAuthenticate_sends [OF u(2)]])
      (auto simp: d scram_answer_sel c1 relay_message_def)
qed

subsection \<open>The SASL requests and the upstream\<close>

definition dialled_scram :: "'s env \<Rightarrow> conn \<Rightarrow> UConn \<Rightarrow> bool" where
  "dialled_scram E c u \<longleftrightarrow>
     (\<exists>i. fst (DialForSCRAM (kmsg_of E) (net_dial E i) (Upstream (tenant c)) (clientMechanism c)) = Ok u)"

lemma handshake_upstream:
  "upstream (snd (handleApiVersions E hdr c)) = upstream c" "upstream (snd (handleSaslHandshake E hdr body c)) = upstream c"
  "upstream (snd (handleSaslAuthenticatePlain E R hdr body c)) = upstream c"
  by (auto simp: handleApiVersions_def handleSaslHandshake_def handleSaslAuthenticatePlain_def Let_def auth_response_def
      op_bind_def op_wrap_def split: sum.split go.split)

lemma negotiation_kept:
  "auth_of (snd (handleApiVersions E hdr c)) = auth_of c"
  "state c \<noteq> stateAwaitHandshake \<Longrightarrow> auth_of (snd (handleSaslHandshake E hdr body c)) = auth_of c"
  by (auto simp: handleApiVersions_def handleSaslHandshake_def Let_def op_bind_def op_wrap_def split: go.split)

lemma scram_first:
  assumes "handleSaslAuthenticateSCRAM E R hdr body c = (Ok (), d)" and "state c = stateAwaitAuth" and "upstream c = None"
  obtains "upstream d = None"
  | u c1 payload where "upstream c1 = Some u" "dialled_scram E c1 u" "clientMechanism c1 = clientMechanism c"
      "state c1 = stateRelaySaslInFlight" "scram_relay E hdr payload c1 = (Ok (), d)"
proof -
  obtain req where req: "ReadReq (k_SASLAuthenticate (kmsg_of E)) (APIVersion hdr) body = Inr req"
    using assms(1) by (auto simp: handleSaslAuthenticateSCRAM_def op_bind_Ok)
  have ref: "upstream e = None" if "refuse E hdr m r code msg b = (Ok (), e)" "upstream b = None" for m r code msg b e
    using that refuse_sel(1) [of E hdr m r code msg b] by simp
  show thesis
  proof (cases "\<exists>u t. ParseSCRAMClientFirstUsername (SASLAuthBytes req) = Inr u \<and> memoryResolver_Get R u = Inr t")
    case False
    then have "upstream d = None"
      using assms req ref by (auto simp: handleSaslAuthenticateSCRAM_def split: sum.splits)
    then show thesis by (rule that(1))
  next
    case True
    then obtain name t where t: "ParseSCRAMClientFirstUsername (SASLAuthBytes req) = Inr name" "memoryResolver_Get R name = Inr t"
      by blast
    let ?up = "DialForSCRAM (kmsg_of E) (net_dial E (length (dialed c))) (Upstream t) (clientMechanism c)"
    let ?c = "note_dial (Upstream t) ?up (c\<lparr>metrics := map_option (\<lambda>m. m @ [ResolverCallsTotal_Inc ''ok'']) (metrics c), tenant := t\<rparr>)"
    show thesis
    proof (cases "fst ?up")
      case (Ok u)
      let ?c1 = "?c\<lparr>upstream := Some u, state := stateRelaySaslInFlight\<rparr>"
      have "scram_relay E hdr (SASLAuthBytes req) ?c1 = (Ok (), d)"
        using assms(1,2) req t Ok by (simp add: handleSaslAuthenticateSCRAM_def dial_scram_def Let_def)
      moreover have "dialled_scram E ?c1 u"
        using Ok by (auto simp: dialled_scram_def)
      ultimately show thesis by (intro that(2) [of ?c1]) simp_all
    next
      case (Err e)
      then have "upstream d = None"
        using assms req t ref by (auto simp: handleSaslAuthenticateSCRAM_def dial_scram_def Let_def)
      then show thesis by (rule that(1))
    next
      case Panic
      then show thesis
        using assms(1,2) req t by (simp add: handleSaslAuthenticateSCRAM_def dial_scram_def Let_def)
    qed
  qed
qed

lemma scram_again:
  assumes "handleSaslAuthenticateSCRAM E R hdr body c = (Ok (), d)" and "state c = stateRelaySaslInFlight"
  obtains payload where "scram_relay E hdr payload c = (Ok (), d)"
  using assms by (auto simp: handleSaslAuthenticateSCRAM_def op_bind_Ok)

subsection \<open>The invariant\<close>

definition dialled_for :: "'s env \<Rightarrow> conn \<Rightarrow> UConn \<Rightarrow> bool" where
  "dialled_for E c u \<longleftrightarrow>
     (\<exists>c0. tenant c0 = tenant c \<and> password c0 = password c \<and> clientMechanism c0 = clientMechanism c \<and> cfg c0 = cfg c \<and>
        fst (dial_upstream E c0) = Ok u)"

definition said :: "'s env \<Rightarrow> 'x kmsg \<Rightarrow> conn \<Rightarrow> UConn \<Rightarrow> byte list list \<Rightarrow> byte list list \<Rightarrow> bool" where
  "said E K c u rs ms \<longleftrightarrow>
     list_all (relay_message E) rs \<and> list_all (tenant_message K (TopicPrefix (tenant c))) ms \<and>
     (ms \<noteq> [] \<longrightarrow> state c = stateAuthenticated) \<and>
     (if IsSCRAMMechanism (clientMechanism c) then dialled_scram E c u
      else rs = [] \<and> state c = stateAuthenticated \<and> dialled_for E c u)"

definition conversation :: "'s env \<Rightarrow> 'x kmsg \<Rightarrow> conn \<Rightarrow> bool" where
  "conversation E K c \<longleftrightarrow>
     (\<forall>v. upstream c = Some v \<longrightarrow> (\<exists>u rs ms. wr (unc v) = wr (unc u) @ concat rs @ concat ms \<and> said E K c u rs ms))"

lemma conversationI:
  "upstream c = Some v \<Longrightarrow> wr (unc v) = wr (unc u) @ concat rs @ concat ms \<Longrightarrow> said E K c u rs ms \<Longrightarrow> conversation E K c"
  unfolding conversation_def by auto

lemma said_same:
  assumes "tenant d = tenant c" and "clientMechanism d = clientMechanism c" and "state d = state c" and "password d = password c"
    and "cfg d = cfg c"
  shows "said E K d = said E K c"
  using assms by (intro ext) (simp add: said_def dialled_scram_def dialled_for_def)

lemma conversation_same:
  assumes "conversation E K c" and "upstream d = upstream c" and "tenant d = tenant c" and "clientMechanism d = clientMechanism c"
    and "state d = state c" and "password d = password c" and "cfg d = cfg c"
  shows "conversation E K d"
  using assms(1) unfolding conversation_def said_same [OF assms(3-7)] assms(2) .

lemma conversation_relayed:
  assumes "scram_relay E hdr payload c = (Ok (), d)" and "conversation E K c" and "IsSCRAMMechanism (clientMechanism c)"
    and "state c \<noteq> stateAuthenticated"
  shows "conversation E K d"
proof -
  from assms(1) obtain u v b where r: "upstream c = Some u" "upstream d = Some v" "relay_message E b" "wr (unc v) = wr (unc u) @ b"
    "tenant d = tenant c" "clientMechanism d = clientMechanism c"
    by (rule scram_relay_Ok)
  from assms(2) r(1) obtain u0 rs ms where w: "wr (unc u) = wr (unc u0) @ concat rs @ concat ms" and s: "said E K c u0 rs ms"
    unfolding conversation_def by blast
  then have "ms = []" using assms(4) by (auto simp: said_def)
  then have "said E K d u0 (rs @ [b]) []"
    using s r assms(3) by (simp add: said_def dialled_scram_def)
  then show ?thesis
    by (rule conversationI [OF r(2), rotated]) (simp add: r(4) w \<open>ms = []\<close>)
qed

lemma conversation_traffic:
  assumes "traffic E K c True d" and "conversation E K c" and "auth_inv (auth_of c)" and "state c = stateAuthenticated"
    and "identity_fixed c d" and "cfg d = cfg c"
  shows "conversation E K d"
proof (cases "upstream d = upstream c")
  case True
  show ?thesis
    by (rule conversation_same [OF assms(2) True]) (use assms(4-6) in \<open>simp_all add: identity_fixed_def\<close>)
next
  case False
  have same: "said E K d = said E K c"
    by (rule said_same) (use assms(4-6) in \<open>simp_all add: identity_fixed_def\<close>)
  from assms(1) False obtain u v ms where u: "opened E c u" and v: "upstream d = Some v" "wr (unc v) = wr (unc u) @ concat ms"
    and ms: "list_all (tenant_message K (TopicPrefix (tenant c))) ms"
    by (auto simp: traffic_def)
  show ?thesis
  proof (cases "upstream c")
    case None
    then have "\<not> IsSCRAMMechanism (clientMechanism c)" "dialled_for E c u"
      using assms(3,4) u by (auto simp: auth_inv_def opened_def dialled_for_def)
    then have "said E K d u [] ms"
      unfolding same using ms assms(4) by (simp add: said_def)
    then show ?thesis
      by (rule conversationI [OF v(1), rotated]) (simp add: v(2))
  next
    case (Some u')
    then have "u' = u" using u by (simp add: opened_def)
    with assms(2) Some obtain u0 rs ms0 where c: "wr (unc u) = wr (unc u0) @ concat rs @ concat ms0" "said E K c u0 rs ms0"
      unfolding conversation_def by blast
    then have "said E K d u0 rs (ms0 @ ms)"
      unfolding same using ms assms(4) by (simp add: said_def)
    then show ?thesis
      by (rule conversationI [OF v(1), rotated]) (simp add: v(2) c(1))
  qed
qed

lemma unauthenticated:
  assumes "auth_inv (auth_of c)" and "state c \<noteq> stateAuthenticated"
  shows "upstream c \<noteq> None \<Longrightarrow> state c = stateRelaySaslInFlight \<and> IsSCRAMMechanism (clientMechanism c)"
    and "IsSCRAMMechanism (clientMechanism c) \<Longrightarrow> state c \<noteq> stateRelaySaslInFlight \<Longrightarrow> state c = stateAwaitAuth \<and> upstream c = None"
proof -
  have "clientMechanism c = [] \<and> upstream c = None" if "state c = stateAwaitHandshake"
    using assms(1) that auth_of_sel(2,5) [of c] by (auto simp: auth_inv_def auth_init_def simp del: auth_of_sel(2,5))
  then show "upstream c \<noteq> None \<Longrightarrow> state c = stateRelaySaslInFlight \<and> IsSCRAMMechanism (clientMechanism c)"
    and "IsSCRAMMechanism (clientMechanism c) \<Longrightarrow> state c \<noteq> stateRelaySaslInFlight \<Longrightarrow> state c = stateAwaitAuth \<and> upstream c = None"
    using assms
    by (cases "state c"; simp add: auth_inv_def IsSCRAMMechanism_def MechanismSCRAMSHA256_def MechanismSCRAMSHA512_def)+
qed

lemma conversation_sasl:
  assumes "dispatch E K R hdr f body c = (Ok (), d)" and "conversation E K c" and "auth_inv (auth_of c)"
    and "state c \<noteq> stateAuthenticated" and "conn_step c d"
  shows "conversation E K d"
proof (cases "APIKey hdr = SaslAuthenticateKey \<and> IsSCRAMMechanism (clientMechanism c)")
  case True
  then have h: "handleSaslAuthenticateSCRAM E R hdr body c = (Ok (), d)"
    using assms(1) by (simp add: dispatch_def handleSaslAuthenticate_def key_defs)
  show ?thesis
  proof (cases "state c = stateRelaySaslInFlight")
    case r: True
    from scram_again [OF h r] obtain payload where "scram_relay E hdr payload c = (Ok (), d)" .
    then show ?thesis by (rule conversation_relayed) (use assms True in auto)
  next
    case False
    with True have s: "state c = stateAwaitAuth" "upstream c = None"
      using unauthenticated(2) [OF assms(3,4)] by auto
    show ?thesis
      using h s
    proof (rule scram_first)
      fix u c1 payload
      assume c1: "upstream c1 = Some u" "dialled_scram E c1 u" "clientMechanism c1 = clientMechanism c"
        "state c1 = stateRelaySaslInFlight" and r: "scram_relay E hdr payload c1 = (Ok (), d)"
      have "conversation E K c1"
        by (rule conversationI [OF c1(1), of u "[]" "[]"]) (use c1 True in \<open>simp_all add: said_def\<close>)
      with r show ?thesis by (rule conversation_relayed) (use c1 True in simp_all)
    qed (simp add: conversation_def)
  qed
next
  case False
  have d: "d = snd (dispatch E K R hdr f body c)" using assms(1) by simp
  have up: "upstream d = upstream c"
    using False assms(1,4) unfolding d
    by (auto simp: dispatch_def handleSaslAuthenticate_def handshake_upstream split: if_splits)
  show ?thesis
  proof (cases "upstream c")
    case None
    with up show ?thesis by (simp add: conversation_def)
  next
    case (Some u)
    then have r: "state c = stateRelaySaslInFlight" "IsSCRAMMechanism (clientMechanism c)"
      using unauthenticated(1) [OF assms(3,4)] by auto
    have "auth_of d = auth_of c"
      using False assms(1,4) r unfolding d by (auto simp: dispatch_def negotiation_kept split: if_splits)
    then have "tenant d = tenant c" "clientMechanism d = clientMechanism c" "state d = state c" "password d = password c"
      by (auto simp: auth_of_def)
    then show ?thesis
      by (rule conversation_same [OF assms(2) up]) (use assms(5) in \<open>simp add: conn_step_def\<close>)
  qed
qed

lemma serve_step_conversation:
  assumes "serve_step E K t c = (Ok (), d)" and "conversation E K c" and "auth_inv (auth_of c)"
    and "blob_ok (k_Subscription K)" and "blob_ok (k_Assignment K)"
  shows "conversation E K d"
proof (cases "state c = stateAuthenticated")
  case True
  have "traffic E K c True d"
    using serve_step_traffic [OF True assms(4,5), of E t] assms(1) by simp
  then show ?thesis
    by (rule conversation_traffic [OF _ assms(2,3) True keepsD [OF serve_step_fixed assms(1)]])
      (use keepsD [OF serve_step_keeps assms(1)] in \<open>simp add: conn_step_def\<close>)
next
  case False
  show ?thesis
  proof (rule serve_step_dispatch [of E K t c])
    fix f rest hdr body s r e m
    assume e: "dispatch E K (resolver_now t) hdr f body (c\<lparr>nc := s\<rparr>) = (r, e)"
      and r: "(\<exists>a. fst (serve_step E K t c) = Ok a) \<longleftrightarrow> (\<exists>a. r = Ok a)" and d: "snd (serve_step E K t c) = e\<lparr>metrics := m\<rparr>"
    from r assms(1) have ok: "r = Ok ()" by auto
    have "conversation E K (c\<lparr>nc := s\<rparr>)" by (rule conversation_same [OF assms(2)]) simp_all
    then have "conversation E K e"
      using conversation_sasl [OF e [unfolded ok]] assms(3) False keepsD [OF dispatch_keeps e] by simp
    then show ?thesis by (rule conversation_same) (use d assms(1) in simp_all)
  qed (use assms(1) in simp)
qed

lemma rounds_conversation:
  assumes "rounds E K ticks n k c = Some d" and "conversation E K c" and "auth_inv (auth_of c)"
    and "\<And>m. resolver_inv (resolver_now (ticks m))" and "blob_ok (k_Subscription K)" and "blob_ok (k_Assignment K)"
  shows "conversation E K d"
  using assms(1-3)
proof (induction k arbitrary: n c)
  case (Suc k)
  then obtain c1 where s: "serve_step E K (ticks n) c = (Ok (), c1)" and r: "rounds E K ticks (Suc n) k c1 = Some d"
    by (auto split: prod.splits go.splits)
  have "auth_inv (auth_of c1)"
    using serve_step_inv [of "ticks n" c E K] assms(4) Suc.prems(3) s by simp
  then show ?case
    by (rule Suc.IH [OF r serve_step_conversation [OF s Suc.prems(2,3) assms(5,6)]])
qed simp

lemma goes_on_conversation:
  assumes "goes_on E K T S sock c" and "blob_ok (k_Subscription K)" and "blob_ok (k_Assignment K)"
  shows "conversation E K c"
proof -
  obtain ticks k where k: "good_ticks T ticks" "rounds E K ticks 0 k (handle_begin (s_cfg S) (s_metrics S) sock) = Some c"
    using assms(1) by (auto simp: goes_on_def)
  show ?thesis
    by (rule rounds_conversation [OF k(2) _ _ _ assms(2,3)])
      (use k(1) in \<open>auto simp: good_ticks_def conversation_def auth_inv_init, simp add: handle_begin_def with_metrics_def newConn_def\<close>)
qed

text \<open>A connection dialled for its credentials has sent them, and nothing else.\<close>

lemma dialled_scram_sent:
  assumes "dialled_scram E c u"
  shows "\<exists>i sock. net_dial E i (Upstream (tenant c)) = Inr sock \<and>
    wr (unc u) = wr sock @ negotiation (kmsg_of E) (clientMechanism c)"
proof -
  from assms obtain i where "fst (DialForSCRAM (kmsg_of E) (net_dial E i) (Upstream (tenant c)) (clientMechanism c)) = Ok u"
    by (auto simp: dialled_scram_def)
  then obtain l where "DialForSCRAM (kmsg_of E) (net_dial E i) (Upstream (tenant c)) (clientMechanism c) = (Ok u, l)"
    by (metis prod.collapse)
  from DialForSCRAM_Ok(1) [OF this] show ?thesis by blast
qed

definition credentials :: "'s env \<Rightarrow> Tenant \<Rightarrow> string \<Rightarrow> byte list" where
  "credentials E t pw = negotiation (kmsg_of E) MechanismPlain @
     AppendRequest (k_SASLAuthenticate (kmsg_of E)) ''kroxy'' 1 \<lparr>SASLAuthBytes = plain_payload [] (ID t) pw\<rparr> 3"

lemma dialled_for_sent:
  assumes "dialled_for E c u" and "\<not> shouldTranslatePlainToSCRAM c"
  shows "\<exists>i sock. net_dial E i (Upstream (tenant c)) = Inr sock \<and> wr (unc u) = wr sock @ credentials E (tenant c) (password c)"
proof -
  from assms obtain i where "fst (Dial (kmsg_of E) (net_dial E i) (Upstream (tenant c)) (ID (tenant c)) (password c)) = Ok u"
    by (auto simp: dialled_for_def dial_upstream_def Let_def shouldTranslatePlainToSCRAM_def)
  then obtain l where "Dial (kmsg_of E) (net_dial E i) (Upstream (tenant c)) (ID (tenant c)) (password c) = (Ok u, l)"
    by (metis prod.collapse)
  from Dial_Ok(1) [OF this] show ?thesis by (auto simp: credentials_def)
qed

lemma dialled_for_translated:
  assumes "dialled_for E c u" and "shouldTranslatePlainToSCRAM c"
  shows "\<exists>i. fst (DialSCRAM (kmsg_of E) (scram_of E) (net_dial E i) (Upstream (tenant c)) (UpstreamSASLMechanism (cfg c))
    (ID (tenant c)) (password c)) = Ok u"
  using assms by (auto simp: dialled_for_def dial_upstream_def Let_def shouldTranslatePlainToSCRAM_def)

subsection \<open>Properties\<close>


text \<open>A client that starts a SCRAM exchange, up to the first message relayed.\<close>

definition relay_env :: "nat env" where
  "relay_env = example_env\<lparr>kmsg_of := example_kmsg
     \<lparr>k_SASLHandshake := (k_SASLHandshake example_kmsg)\<lparr>ReadReq := (\<lambda>_ _. Inr \<lparr>HandshakeMechanism = MechanismSCRAMSHA256\<rparr>)\<rparr>,
      k_SASLAuthenticate := (k_SASLAuthenticate example_kmsg)\<lparr>ReadReq := (\<lambda>_ b. Inr \<lparr>SASLAuthBytes = b\<rparr>)\<rparr>\<rparr>\<rparr>"

definition relay_payload :: "byte list" where
  "relay_payload = client_first [] [] ''acme'' ''r=x''"

definition relay_bytes :: "byte list" where
  "relay_bytes = frame_bytes (login_frame SaslHandshakeKey []) @ frame_bytes (login_frame SaslAuthenticateKey relay_payload)"

lemma relay_handshake:
  assumes "rd (nc c) = frame_bytes (login_frame SaslHandshakeKey []) @ rest" and "wr_left (nc c) = None"
    and "deadline_err (nc c) = None" and "state c = stateAwaitHandshake" and "ctx_Err t = None"
  shows "\<exists>d. serve_step relay_env K t c = (Ok (), d) \<and> state d = stateAwaitAuth \<and> clientMechanism d = MechanismSCRAMSHA256 \<and>
    rd (nc d) = rest \<and> wr_left (nc d) = None \<and> deadline_err (nc d) = None"
  using assms login_frame_parse [of SaslHandshakeKey "[]"]
  by (subst serve_step_serves [where f = "login_frame SaslHandshakeKey []" and rest = rest])
    (auto simp: serve_frame_def dispatch_def key_defs handleSaslHandshake_def Let_def relay_env_def IsSCRAMMechanism_def
      writeResponse_def op_bind_def op_wrap_def observed_def on_nc_def split: prod.split)

lemma relay_dial:
  "\<exists>u v. DialForSCRAM (kmsg_of relay_env) (net_dial relay_env i) addr MechanismSCRAMSHA256 = (Ok u, []) \<and>
     RelaySASLAuthenticate (kmsg_of relay_env) payload u = (Ok ([], 0, []), v)"
proof -
  have "net_dial relay_env i addr = Inr example_broker"
    and hs: "ReadResp (k_SASLHandshake (kmsg_of relay_env)) 1 [] = Inr \<lparr>HandshakeErrorCode = 0, SupportedMechanisms = []\<rparr>"
    by (simp_all add: relay_env_def example_env_def example_kmsg_def example_kapi_def)
  from dialAndNegotiate_answered [where nd = "net_dial relay_env i" and addr = addr and mech = MechanismSCRAMSHA256,
      OF this(1) example_broker_answers hs]
  obtain c where c: "dialAndNegotiate (kmsg_of relay_env) (net_dial relay_env i) addr MechanismSCRAMSHA256 = (Ok c, [])"
    and a: "answering (unc c) [reply 3 []]" and k: "corrIDGen c = 2"
    by auto
  from deadline_answering [OF a, of None] obtain u where u: "on_unc (op_error (SetDeadline None)) c = (Ok (), u)"
    "answering (unc u) [reply 3 []]" "corrIDGen u = 2"
    using k by auto
  let ?d = "if reqTO u \<le> 0 then None else Some (reqTO u)"
  let ?u = "u\<lparr>unc := (unc u)\<lparr>rd_deadline := ?d, wr_deadline := ?d\<rparr>\<rparr>"
  have d: "applyRequestDeadline u = (Ok (), ?u)"
    using u(2) by (simp add: applyRequestDeadline_Ok answering_def)
  have "answering (unc ?u) [reply 3 []]" "3 = corrIDGen ?u + 1"
    using u(2,3) by (simp_all add: answering_def)
  from directRoundTrip_reply [OF this handshake_header_versions(3), of "k_SASLAuthenticate (kmsg_of relay_env)" "\<lparr>SASLAuthBytes = payload\<rparr>"]
  obtain v where "directRoundTrip (k_SASLAuthenticate (kmsg_of relay_env)) \<lparr>SASLAuthBytes = payload\<rparr> SaslAuthenticateKey 1 ?u = (Ok [], v)"
    by blast
  then have "RelaySASLAuthenticate (kmsg_of relay_env) payload u = (Ok ([], 0, []), v)"
    using d by (simp add: RelaySASLAuthenticate_def op_bind_def op_wrap_def relay_env_def example_kmsg_def example_kapi_def)
  moreover have "DialForSCRAM (kmsg_of relay_env) (net_dial relay_env i) addr MechanismSCRAMSHA256 = (Ok u, [])"
    using c u by (simp add: DialForSCRAM_def IsSCRAMMechanism_def negotiated_def dial_step_def dial_done_def del: on_unc_Ok)
  ultimately show ?thesis by blast
qed

lemma relay_authenticate:
  assumes "rd (nc c) = frame_bytes (login_frame SaslAuthenticateKey relay_payload) @ rest" and "wr_left (nc c) = None"
    and "deadline_err (nc c) = None" and "state c = stateAwaitAuth" and "clientMechanism c = MechanismSCRAMSHA256"
    and "ctx_Err t = None" and "resolver_now t = example_resolver"
  shows "\<exists>d v. serve_step relay_env K t c = (Ok (), d) \<and> upstream d = Some v \<and> clientMechanism d = MechanismSCRAMSHA256"
proof -
  let ?h = "\<lparr>APIKey = SaslAuthenticateKey, APIVersion = 1, CorrelationID = 5, ClientID = [], HeaderVersion = 1, HeaderSize = 10\<rparr>"
  let ?c = "c\<lparr>nc := (nc c)\<lparr>rd := rest, rd_deadline := None\<rparr>\<rparr>"
  have p: "ParseSCRAMClientFirstUsername relay_payload = Inr ''acme''" "IsSCRAMMechanism MechanismSCRAMSHA256"
    "ReadReq (k_SASLAuthenticate (kmsg_of relay_env)) 1 relay_payload = Inr \<lparr>SASLAuthBytes = relay_payload\<rparr>"
    unfolding relay_payload_def
    by (rule ParseSCRAM_client_first) (simp_all add: mext_ok_def IsSCRAMMechanism_def relay_env_def)
  have t: "memoryResolver_Get example_resolver ''acme'' = Inr acme_tenant" "Upstream acme_tenant = ''k:9092''"
    by (simp_all add: memoryResolver_Get_def example_resolver_def acme_tenant_def)
  obtain u v where u: "DialForSCRAM (kmsg_of relay_env) (net_dial relay_env (length (dialed c))) ''k:9092'' MechanismSCRAMSHA256 = (Ok u, [])"
    "RelaySASLAuthenticate (kmsg_of relay_env) relay_payload u = (Ok ([], 0, []), v)"
    using relay_dial by blast
  obtain c1 where h: "handleSaslAuthenticateSCRAM relay_env example_resolver ?h relay_payload ?c = scram_relay relay_env ?h relay_payload c1"
    and c1: "upstream c1 = Some u" "wr_left (nc c1) = None" "clientMechanism c1 = MechanismSCRAMSHA256"
    using assms(2,4,5) p t u(1) by (simp add: handleSaslAuthenticateSCRAM_def dial_scram_def Let_def)
  have "\<exists>d. scram_relay relay_env ?h relay_payload c1 = (Ok (), d) \<and> upstream d = Some v \<and> clientMechanism d = MechanismSCRAMSHA256"
    using c1 u(2)
    by (simp add: scram_relay_def on_upstream_def scram_answer_def Let_def auth_response_def writeResponse_def op_bind_def op_wrap_def on_nc_def)
  then obtain d where d: "handleSaslAuthenticateSCRAM relay_env example_resolver ?h relay_payload ?c = (Ok (), d)" "upstream d = Some v"
      "clientMechanism d = MechanismSCRAMSHA256"
    unfolding h by blast
  have "length relay_payload < 100" by (simp add: relay_payload_def client_first_def)
  then have f: "frame_ok (login_frame SaslAuthenticateKey relay_payload)" "ParseRequestHeader (login_frame SaslAuthenticateKey relay_payload) = Ok ?h"
    "slice_from (login_frame SaslAuthenticateKey relay_payload) 10 = Ok relay_payload"
    using login_frame_parse [of SaslAuthenticateKey relay_payload] by simp_all
  have "dispatch relay_env K example_resolver ?h (login_frame SaslAuthenticateKey relay_payload) relay_payload ?c = (Ok (), d)"
    using d(1) p(2) assms(5) by (simp add: dispatch_def handleSaslAuthenticate_def key_defs)
  then show ?thesis
    unfolding serve_step_serves [OF assms(6,3) f(1) assms(1)]
    using f(2,3) d(2,3) assms(7) by (simp add: serve_frame_def op_bind_def op_wrap_def observed_def)
qed

abbreviation relay_steps :: "system \<Rightarrow> system \<Rightarrow> bool" where
  "relay_steps \<equiv> sys_step (\<lambda>_. relay_env) example_lib example_server"

lemma relay_run: "\<exists>s d v. relay_steps\<^sup>*\<^sup>* example_boot s \<and> flying s 0 = Some d \<and> upstream d = Some v \<and> clientMechanism d = MechanismSCRAMSHA256"
proof -
  let ?s = "example_running relay_bytes"
  let ?t = "\<lparr>ctx_Err = None, resolver_now = example_resolver, elapsed = 0\<rparr>"
  let ?b = "handle_begin (s_cfg example_server) (s_metrics example_server) (input_stream relay_bytes)"
  obtain c where c: "serve_step relay_env example_lib ?t ?b = (Ok (), c)" "state c = stateAwaitAuth" "clientMechanism c = MechanismSCRAMSHA256"
    "rd (nc c) = frame_bytes (login_frame SaslAuthenticateKey relay_payload)" "wr_left (nc c) = None" "deadline_err (nc c) = None"
    using relay_handshake [of ?b "frame_bytes (login_frame SaslAuthenticateKey relay_payload)" ?t example_lib]
    by (auto simp: input_stream_def relay_bytes_def)
  obtain d v where d: "serve_step relay_env example_lib ?t c = (Ok (), d)" "upstream d = Some v" "clientMechanism d = MechanismSCRAMSHA256"
    using relay_authenticate [of c "[]" ?t example_lib] c by auto
  have 0: "relay_steps example_boot ?s"
    using sys_step.accepts [of example_boot "\<lambda>_. relay_env" example_lib example_server "input_stream relay_bytes"]
    by (simp add: boot_def accept_begin_def example_running_def)
  have 1: "relay_steps ?s (?s\<lparr>flying := [0 \<mapsto> c]\<rparr>)"
    using sys_step.request [of ?s 0 ?b ?t "\<lambda>_. relay_env" example_lib c example_server] c(1)
    by (simp add: example_running_def boot_def)
  have 2: "relay_steps (?s\<lparr>flying := [0 \<mapsto> c]\<rparr>) (?s\<lparr>flying := [0 \<mapsto> d]\<rparr>)"
    using sys_step.request [of "?s\<lparr>flying := [0 \<mapsto> c]\<rparr>" 0 c ?t "\<lambda>_. relay_env" example_lib d example_server] d(1)
    by (simp add: example_running_def boot_def)
  have "relay_steps\<^sup>*\<^sup>* example_boot (?s\<lparr>flying := [0 \<mapsto> d]\<rparr>)"
    using 0 1 2 by (meson rtranclp.rtrancl_into_rtrancl rtranclp.rtrancl_refl)
  with d(2,3) show ?thesis by fastforce
qed


end
