(* ===== verification/Proxy_Metrics.thy ===== *)
theory Proxy_Metrics
  imports Proxy_System
begin

text \<open>
  The time series the proxy creates. Every combination of label values that is observed is a series that
  the metrics library keeps for ever, so the values must not be chosen by clients at will. Shown here
  for all connections together: the values come from fixed sets, from the 16-bit API keys and from the
  ids of tenants that were configured or added.
\<close>

subsection \<open>Requests are observed by the loop alone\<close>

definition request_calls :: "conn \<Rightarrow> metric list option" where
  "request_calls c = map_option (filter request_call) (metrics c)"

definition same_requests :: "conn \<Rightarrow> conn \<Rightarrow> bool" where
  "same_requests c d \<longleftrightarrow> request_calls d = request_calls c"

interpretation requestf: sasl_frame same_requests
  by unfold_locales (auto simp: same_requests_def request_calls_def option.map_comp comp_def)

lemma same_metrics: "metrics d = metrics c \<Longrightarrow> same_requests c d"
  by (simp add: same_requests_def request_calls_def)

lemma dial_scram_requests: "keeps same_requests (dial_scram E mech t)"
  by (auto simp: keeps_def dial_scram_def Let_def note_dial_def intro: same_metrics)

lemma ensureUpstream_requests: "keeps same_requests (ensureUpstream E)"
  by (auto simp: keeps_def ensureUpstream_def Let_def note_dial_def same_requests_def request_calls_def option.map_comp comp_def
      split: go.split)

lemma handleSaslAuthenticateSCRAM_requests: "keeps same_requests (handleSaslAuthenticateSCRAM E R hdr body)"
proof -
  have "keeps same_requests (op_modify (\<lambda>c. c\<lparr>tenant := t\<rparr>))"
    "keeps same_requests (op_modify (\<lambda>c. c\<lparr>upstream := up, state := st\<rparr>))" for t up st
    by (auto simp: keeps_def intro: same_metrics)
  then show ?thesis
    unfolding handleSaslAuthenticateSCRAM_def
    by (intro requestf.keeps_rules keeps_go requestf.record_metric_free requestf.refuse_free requestf.scram_relay_free
        dial_scram_requests) simp_all
qed

lemma dispatch_requests: "keeps same_requests (dispatch E K R hdr frame body)"
proof -
  have "keeps same_requests (handleSaslAuthenticate E R hdr body)"
    using handleSaslAuthenticateSCRAM_requests [of E R hdr body] requestf.handleSaslAuthenticatePlain_free [of E R hdr body]
    by (simp add: keeps_def handleSaslAuthenticate_def)
  then show ?thesis
    unfolding dispatch_def forwardRewritten_def forwardPassthrough_def
    by (intro requestf.keeps_rules requestf.on_nc_free requestf.on_upstream_free requestf.handleApiVersions_free
        requestf.handleSaslHandshake_free requestf.handler_free ensureUpstream_requests)
qed

text \<open>An iteration observes at most one request, under the label of the tenant it leaves.\<close>

definition observed_as :: "conn \<Rightarrow> int16 \<Rightarrow> int \<Rightarrow> metric list" where
  "observed_as d key dur =
     [RequestsTotal_Inc (Itoa (sint key)) (tenantLabel d), RequestDuration_Observe (Itoa (sint key)) (tenantLabel d) dur]"

lemma ObserveRequest_calls:
  "request_calls (d\<lparr>metrics := map_option (ObserveRequest key (tenantLabel d) dur) (metrics d)\<rparr>) =
     map_option (\<lambda>n. n @ observed_as d key dur) (request_calls d)"
  by (simp add: request_calls_def observed_as_def ObserveRequest_def Let_def option.map_comp comp_def)

lemma observed_as_metrics [simp]: "observed_as (d\<lparr>metrics := m\<rparr>) = observed_as d"
  by (simp add: observed_as_def tenantLabel_def fun_eq_iff)

lemma observed_request_calls:
  assumes "keeps same_requests m"
  shows "request_calls (snd (observed hdr dur m c)) = request_calls c \<or>
    request_calls (snd (observed hdr dur m c)) =
      map_option (\<lambda>n. n @ observed_as (snd (observed hdr dur m c)) (APIKey hdr) dur) (request_calls c)"
proof -
  obtain r d where m: "m c = (r, d)" by force
  have "request_calls d = request_calls c" using keepsD [OF assms m] by (simp add: same_requests_def)
  then show ?thesis
    using m by (cases r) (simp_all add: observed_def ObserveRequest_calls)
qed

lemma serve_frame_requests:
  "request_calls (snd (serve_frame E K t f c)) = request_calls c \<or>
   (\<exists>key. request_calls (snd (serve_frame E K t f c)) =
      map_option (\<lambda>n. n @ observed_as (snd (serve_frame E K t f c)) key (elapsed t)) (request_calls c))"
proof (cases "ParseRequestHeader f")
  case (Ok hdr)
  show ?thesis
  proof (cases "slice_from f (HeaderSize hdr)")
    case body: (Ok body)
    have "snd (serve_frame E K t f c) = snd (observed hdr (elapsed t) (dispatch E K (resolver_now t) hdr f body) c)"
      using Ok body by (simp add: serve_frame_def op_bind_def op_wrap_def split: prod.split go.split)
    then show ?thesis
      using observed_request_calls [OF dispatch_requests, of hdr "elapsed t" E K "resolver_now t" hdr f body c] by auto
  qed (use Ok in \<open>simp_all add: serve_frame_def op_bind_def op_wrap_def\<close>)
qed (simp_all add: serve_frame_def op_bind_def op_wrap_def)

lemma serve_step_requests:
  "request_calls (snd (serve_step E K t c)) = request_calls c \<or>
   (\<exists>key. request_calls (snd (serve_step E K t c)) =
      map_option (\<lambda>n. n @ observed_as (snd (serve_step E K t c)) key (elapsed t)) (request_calls c))"
proof (rule serve_step_frame [of E K t c])
  fix f rest s
  assume e: "serve_step E K t c = serve_frame E K t f (c\<lparr>nc := s\<rparr>)"
  have "request_calls (c\<lparr>nc := s\<rparr>) = request_calls c" by (simp add: request_calls_def)
  with serve_frame_requests [of E K t f "c\<lparr>nc := s\<rparr>"] e show ?thesis by simp
qed (simp add: request_calls_def)

subsection \<open>The labels of a connection\<close>

text \<open>The tenant of a connection is the zero value until one is resolved for it.\<close>

lemma auth_step_tenant: "auth_step R a b \<Longrightarrow> a_tenant b = a_tenant a \<or> a_tenant b \<in> tenants_of R"
  by (induction rule: auth_step.induct) (auto simp: tenants_of_def)

lemma auth_reach_tenant: "auth_reach R c d \<Longrightarrow> tenant d = tenant c \<or> tenant d \<in> tenants_of R"
proof -
  have "(auth_step R)\<^sup>*\<^sup>* a b \<Longrightarrow> a_tenant b = a_tenant a \<or> a_tenant b \<in> tenants_of R" for a b
    by (induction rule: rtranclp_induct) (auto dest: auth_step_tenant)
  then show "auth_reach R c d \<Longrightarrow> ?thesis" by (fastforce simp: auth_reach_def auth_of_def)
qed

definition request_label :: "Tenant set \<Rightarrow> string \<Rightarrow> string \<Rightarrow> bool" where
  "request_label T k l \<longleftrightarrow> (\<exists>key :: int16. k = Itoa (sint key)) \<and> l \<in> insert ''_unauth'' (ID ` T)"

fun known_label :: "Tenant set \<Rightarrow> metric \<Rightarrow> bool" where
  "known_label T (RequestsTotal_Inc k l) \<longleftrightarrow> request_label T k l"
| "known_label T (RequestDuration_Observe k l _) \<longleftrightarrow> request_label T k l"
| "known_label T ConnectionsActive_Inc \<longleftrightarrow> True"
| "known_label T ConnectionsActive_Dec \<longleftrightarrow> True"
| "known_label T ConnectionsTotal_Inc \<longleftrightarrow> True"
| "known_label T e \<longleftrightarrow> conn_metric e"

lemma known_label_conn: "conn_metric e \<Longrightarrow> \<not> request_call e \<Longrightarrow> known_label T e"
  by (cases e) auto

definition calls :: "conn \<Rightarrow> metric list" where
  "calls c = (case metrics c of None \<Rightarrow> [] | Some m \<Rightarrow> m)"

definition labels_ok :: "Tenant set \<Rightarrow> conn \<Rightarrow> bool" where
  "labels_ok T c \<longleftrightarrow> tenant c \<in> insert zero_tenant T \<and> list_all (known_label T) (calls c)"

lemma tenantLabel_known: "tenant c \<in> insert zero_tenant T \<Longrightarrow> tenantLabel c \<in> insert ''_unauth'' (ID ` T)"
  by (auto simp: tenantLabel_def zero_tenant_def)

lemma metrics_split:
  assumes "metrics c = Some m" and "conn_step c d" and "request_calls d = map_option (\<lambda>n. n @ xs) (request_calls c)"
  obtains n where "metrics d = Some (m @ n)" and "list_all conn_metric n" and "filter request_call n = xs"
  using assms by (auto simp: conn_step_def metrics_step_def request_calls_def)

lemma serve_step_labels:
  assumes "tenants_of (resolver_now t) \<subseteq> T" and ok: "labels_ok T c"
  shows "labels_ok T (snd (serve_step E K t c))"
proof -
  let ?d = "snd (serve_step E K t c)"
  have step: "conn_step c ?d" "auth_reach (resolver_now t) c ?d"
    using serve_step_keeps [of E K t] serve_step_auth [of t E K] by (simp_all add: keeps_def)
  then have tenant: "tenant ?d \<in> insert zero_tenant T"
    using auth_reach_tenant [OF step(2)] assms by (auto simp: labels_ok_def)
  obtain xs where xs: "request_calls ?d = map_option (\<lambda>n. n @ xs) (request_calls c)" "list_all (known_label T) xs"
  proof -
    have "list_all (known_label T) (observed_as ?d key dur)" for key dur
      using tenantLabel_known [OF tenant] by (auto simp: observed_as_def request_label_def)
    moreover have "map_option (\<lambda>n. n @ []) x = x" for x :: "metric list option"
      by (simp add: option.map_ident)
    ultimately show thesis
      using serve_step_requests [of E K t c] that [of "[]"] that by auto
  qed
  have "list_all (known_label T) (calls ?d)"
  proof (cases "metrics c")
    case None
    then show ?thesis using step(1) by (simp add: conn_step_def metrics_step_def calls_def)
  next
    case (Some m)
    then obtain n where n: "metrics ?d = Some (m @ n)" "list_all conn_metric n" "filter request_call n = xs"
      by (rule metrics_split [OF _ step(1) xs(1)])
    have "known_label T e" if "e \<in> set n" for e
    proof (cases "request_call e")
      case True
      then have "e \<in> set xs" using that n(3) by auto
      then show ?thesis using xs(2) by (simp add: list_all_iff)
    qed (use that n(2) known_label_conn in \<open>auto simp: list_all_iff\<close>)
    then show ?thesis using n(1) ok Some by (auto simp: labels_ok_def calls_def list_all_iff)
  qed
  with tenant show ?thesis by (simp add: labels_ok_def)
qed

definition labels_kept :: "Tenant set \<Rightarrow> conn \<Rightarrow> conn \<Rightarrow> bool" where
  "labels_kept T c d \<longleftrightarrow> (labels_ok T c \<longrightarrow> labels_ok T d)"

interpretation labelf: frame_condition "labels_kept T" for T
  by unfold_locales (simp_all add: labels_kept_def)

lemma serve_step_labels_kept: "tenants_of (resolver_now t) \<subseteq> T \<Longrightarrow> keeps (labels_kept T) (serve_step E K t)"
  by (simp add: keeps_def labels_kept_def serve_step_labels)

lemma handle_begin_labels: "m = None \<or> m = Some [] \<Longrightarrow> labels_ok T (handle_begin cf m sock)"
  by (auto simp: handle_begin_def with_metrics_def newConn_def labels_ok_def calls_def)

lemma handle_end_labels: "labels_ok T c \<Longrightarrow> labels_ok T (handle_end c)"
  by (auto simp: handle_end_def conn_close_def with_metrics_def labels_ok_def calls_def split: option.splits)

lemma goes_on_labels:
  assumes "goes_on E K T S sock c" and "s_metrics S = Some NewMetrics"
  shows "labels_ok T c"
  using goes_on_keeps [OF labelf.frame_condition_axioms serve_step_labels_kept assms(1)]
    handle_begin_labels [of "s_metrics S" T "s_cfg S" sock] assms(2)
  by (simp add: labels_kept_def NewMetrics_def)

lemma has_ended_labels:
  assumes "has_ended E K T S sock c" and "s_metrics S = Some NewMetrics"
  shows "labels_ok T c"
proof -
  let ?b = "handle_begin (s_cfg S) (s_metrics S) sock"
  obtain ticks where t: "good_ticks T ticks" "snd (snd (handle E K ticks (s_cfg S) (s_metrics S) sock)) = c"
    using assms(1) by (auto simp: has_ended_def)
  have "labels_kept T ?b (snd (serve E K ticks 0 ?b))"
    by (rule serve_keeps [OF labelf.frame_condition_axioms serve_step_labels_kept]) (use t(1) in \<open>simp add: good_ticks_def\<close>)
  then have "labels_ok T (snd (serve E K ticks 0 ?b))"
    using handle_begin_labels [of "s_metrics S"] assms(2) by (simp add: labels_kept_def NewMetrics_def)
  moreover have "c = handle_end (snd (serve E K ticks 0 ?b))"
    using t(2) by (cases "serve E K ticks 0 ?b") (auto simp: handle_def split: go.splits)
  ultimately show ?thesis by (simp add: handle_end_labels)
qed

subsection \<open>The time series of the proxy\<close>

definition time_series :: "system \<Rightarrow> (string \<times> string list) set" where
  "time_series s = (\<Union>c \<in> ran (flying s) \<union> ran (ended s). series ` set (calls c))"

text \<open>The series that can arise: 31 whose labels are fixed, and two for each API key and tenant.\<close>

definition upstream_kinds :: "string list" where
  "upstream_kinds = [''dial'', ''scram_dial'', ''scram_relay'']"

definition resolver_results :: "string list" where
  "resolver_results = [''ok'', ''unauthorized'']"

definition handshake_mechs :: "string list" where
  "handshake_mechs = [''PLAIN'', ''SCRAM-SHA-256'', ''SCRAM-SHA-512'', ''unknown'']"

definition handshake_results :: "string list" where
  "handshake_results = [''ok'', ''illegal_state'', ''unsupported'', ''malformed'', ''unauthorized'', ''upstream_error'']"

lemma conn_metric_lists:
  "conn_metric (UpstreamErrorTotal_Inc k) \<longleftrightarrow> k \<in> set upstream_kinds"
  "conn_metric (ResolverCallsTotal_Inc r) \<longleftrightarrow> r \<in> set resolver_results"
  "conn_metric (SaslHandshakeTotal_Inc m q) \<longleftrightarrow> m \<in> set handshake_mechs \<and> q \<in> set handshake_results"
  by (simp_all add: upstream_kinds_def resolver_results_def handshake_mechs_def handshake_results_def)

definition fixed_series :: "(string \<times> string list) list" where
  "fixed_series = [(''connections_active'', []), (''connections_total'', [])] @
     map (\<lambda>k. (''upstream_errors_total'', [k])) upstream_kinds @
     map (\<lambda>r. (''resolver_calls_total'', [r])) resolver_results @
     map (\<lambda>(m, r). (''sasl_handshakes_total'', [m, r])) (List.product handshake_mechs handshake_results)"

lemma length_fixed_series: "length fixed_series = 31"
  by (simp add: fixed_series_def length_product upstream_kinds_def resolver_results_def handshake_mechs_def handshake_results_def)

definition request_series :: "Tenant set \<Rightarrow> (string \<times> string list) set" where
  "request_series T = (\<lambda>((n, key), l). (n, [Itoa (sint key), l])) `
     (({''requests_total'', ''request_duration_seconds''} \<times> (UNIV :: int16 set)) \<times> insert ''_unauth'' (ID ` T))"

lemma request_label_series:
  assumes "request_label T k l" and "n \<in> {''requests_total'', ''request_duration_seconds''}"
  shows "(n, [k, l]) \<in> request_series T"
proof -
  obtain key :: int16 where "k = Itoa (sint key)" "l \<in> insert ''_unauth'' (ID ` T)"
    using assms(1) by (auto simp: request_label_def)
  with assms(2) show ?thesis
    unfolding request_series_def by (intro image_eqI [of _ _ "((n, key), l)"]) simp_all
qed

lemma conn_metric_series: "conn_metric e \<Longrightarrow> \<not> request_call e \<Longrightarrow> series e \<in> set fixed_series"
  by (cases e) (auto simp: fixed_series_def conn_metric_lists simp del: conn_metric.simps(1-3))

lemma connections_series:
  "(''connections_active'', []) \<in> set fixed_series" "(''connections_total'', []) \<in> set fixed_series"
  by (simp_all add: fixed_series_def)

lemma known_label_series:
  assumes "known_label T e"
  shows "series e \<in> set fixed_series \<union> request_series T"
proof (cases "conn_metric e \<and> \<not> request_call e")
  case True
  then show ?thesis using conn_metric_series by blast
next
  case False
  with assms show ?thesis
    by (cases e) (simp_all add: connections_series request_label_series)
qed

lemma labels_ok_series: "labels_ok T c \<Longrightarrow> series ` set (calls c) \<subseteq> set fixed_series \<union> request_series T"
  using known_label_series by (fastforce simp: labels_ok_def list_all_iff)

lemma time_series_known:
  assumes "sys_inv E K S s" and "s_metrics S = Some NewMetrics"
  shows "time_series s \<subseteq> set fixed_series \<union> request_series (ever s)"
proof -
  have "labels_ok (ever s) c" if "c \<in> ran (flying s) \<union> ran (ended s)" for c
    using that assms goes_on_labels has_ended_labels by (fastforce simp: sys_inv_def ran_def)
  then show ?thesis
    unfolding time_series_def using labels_ok_series by blast
qed

lemma card_int16: "card (UNIV :: int16 set) = 65536"
  by (simp add: card_word)

lemma card_request_series: "finite T \<Longrightarrow> finite (request_series T) \<and> card (request_series T) \<le> 131072 * (1 + card (ID ` T))"
proof -
  let ?A = "{''requests_total'', ''request_duration_seconds''} \<times> (UNIV :: int16 set)"
  let ?B = "insert ''_unauth'' (ID ` T)"
  assume T: "finite T"
  then have f: "finite (?A \<times> ?B)" by simp
  have "card (request_series T) \<le> card (?A \<times> ?B)"
    unfolding request_series_def by (rule card_image_le [OF f])
  also have "\<dots> = 131072 * card ?B"
    by (simp add: card_cartesian_product card_int16)
  also have "\<dots> \<le> 131072 * (1 + card (ID ` T))"
    using card_insert_le_m1 [of "1 + card (ID ` T)" "ID ` T" "''_unauth''"] by simp
  finally show ?thesis using f by (simp add: request_series_def)
qed

lemma finite_tenants_of: "finite (tenants_of R)"
proof -
  have "tenants_of R \<subseteq> snd ` set (tenants R)"
    by (force simp: tenants_of_def memoryResolver_Get_def dest: map_of_SomeD split: option.splits)
  then show ?thesis by (rule finite_subset) simp
qed

lemma finite_ever: "sys_reach E K S (boot R) s \<Longrightarrow> finite (ever s)"
  by (induction rule: rtranclp_induct) (auto simp: boot_def finite_tenants_of elim!: sys_stepE)

subsection \<open>Properties\<close>

text \<open>C18: clients cannot make the metrics grow at will. The registered instruments have distinct names.
  Whatever the clients of a running proxy send, a call of the metrics is one of a registered instrument,
  with as many label values as the instrument has labels, and its values are from fixed lists, the 16-bit API keys, and \<open>_unauth\<close> or the id of a tenant that was configured or
  added: never a user name or a mechanism of the client's choice. So the time series of all connections,
  past and present, are finitely many, at most 31 and two for each API key and each such tenant.\<close>

theorem metrics_bounded:
  assumes "resolver_inv R" and "sys_reach E K S (boot R) s" and "s_metrics S = Some NewMetrics"
  shows "distinct (map (\<lambda>i. (Namespace i, InstrumentName i)) instruments) \<and>
    (\<forall>c \<in> ran (flying s) \<union> ran (ended s). list_all (\<lambda>e. declared e \<and> known_label (ever s) e) (calls c)) \<and>
    time_series s \<subseteq> set fixed_series \<union> request_series (ever s) \<and> finite (time_series s) \<and>
    card (time_series s) \<le> 31 + 2 * 2 ^ 16 * (1 + card (ID ` ever s))"
proof -
  have inv: "sys_inv E K S s" by (rule sys_inv_reach [OF assms(2,1)])
  have "labels_ok (ever s) c" if "c \<in> ran (flying s) \<union> ran (ended s)" for c
    using that inv assms(3) goes_on_labels has_ended_labels by (fastforce simp: sys_inv_def ran_def)
  moreover have sub: "time_series s \<subseteq> set fixed_series \<union> request_series (ever s)"
    by (rule time_series_known [OF inv assms(3)])
  moreover have c: "finite (request_series (ever s))" "card (request_series (ever s)) \<le> 131072 * (1 + card (ID ` ever s))"
    using card_request_series [OF finite_ever [OF assms(2)]] by simp_all
  moreover have "card (time_series s) \<le> card (set fixed_series) + card (request_series (ever s))"
    using card_mono [OF _ sub] c(1) card_Un_le [of "set fixed_series" "request_series (ever s)"] by simp
  moreover have "card (set fixed_series) \<le> 31"
    using card_length [of fixed_series] by (simp add: length_fixed_series)
  moreover have "finite (time_series s)"
    by (rule finite_subset [OF sub]) (simp add: c(1))
  ultimately show ?thesis
    by (simp add: instruments_distinct calls_declared labels_ok_def)
qed

theorem metrics_bounded_witness:
  "\<exists>s. sys_reach (\<lambda>_. example_env) example_lib example_server example_boot s \<and> flying s 0 \<noteq> None \<and>
     card (time_series s) \<le> 31 + 2 * 2 ^ 16 * (1 + card (ID ` ever s))"
proof -
  have m: "s_metrics example_server = Some NewMetrics" by (simp add: example_server_def NewServer_def)
  have f: "flying (example_running []) 0 \<noteq> None" by (simp add: example_running_def)
  from metrics_bounded [OF example_resolver_inv example_running_reach m, of "[]"] f example_running_reach [of "[]"]
  show ?thesis by blast
qed

end
