(* ===== verification/Proxy_Debug.thy ===== *)
theory Proxy_Debug
  imports Proxy_Handlers
begin

text \<open>
  \<open>proxy/debug.go\<close>: the summaries of messages that the handlers log at debug level. The messages are
  those of \<open>Kafka_Messages\<close>, extended with the fields a summary reads. A \<open>strings.Builder\<close> is the text
  written to it, \<open>%d\<close> is \<open>Itoa\<close>, and \<open>TrimSpace\<close> removes the encodings of white space at both ends.
\<close>

subsection \<open>Formatting\<close>

text \<open>The white space of \<open>unicode.IsSpace\<close>, as it is encoded in a string.\<close>

definition space_seqs :: "string list" where
  "space_seqs = map (\<lambda>n. [char_of (n::nat)]) [0x09, 0x0A, 0x0B, 0x0C, 0x0D, 0x20] @
     map (map char_of) [[0xC2, 0x85], [0xC2, 0xA0], [0xE1, 0x9A, 0x80], [0xE2, 0x80, 0xA8], [0xE2, 0x80, 0xA9],
       [0xE2, 0x80, 0xAF], [0xE2, 0x81, 0x9F], [0xE3, 0x80, 0x80 :: nat]] @
     map (\<lambda>n. map char_of [0xE2, 0x80, n :: nat]) [0x80..<0x8B]"

function drop_seqs :: "string list \<Rightarrow> string \<Rightarrow> string" where
  "drop_seqs ws s =
     (case find (\<lambda>w. w \<noteq> [] \<and> prefix w s) ws of None \<Rightarrow> s | Some w \<Rightarrow> drop_seqs ws (drop (length w) s))"
  by pat_completeness auto

termination
  by (relation "measure (\<lambda>(ws, s). length s)") (auto simp: find_Some_iff prefix_def)

declare drop_seqs.simps [simp del]

definition TrimSpace :: "string \<Rightarrow> string" where
  "TrimSpace s = rev (drop_seqs (map rev space_seqs) (rev (drop_seqs space_seqs s)))"

definition hex_digit :: "nat \<Rightarrow> char" where
  "hex_digit n = char_of (if n < 10 then 48 + n else 87 + n)"

definition fmt_x :: "byte list \<Rightarrow> string" where
  "fmt_x bs = concat (map (\<lambda>b. [hex_digit (unat b div 16), hex_digit (unat b mod 16)]) bs)"

definition derefStr :: "string option \<Rightarrow> string" where
  "derefStr s = (case s of None \<Rightarrow> ''<nil>'' | Some s \<Rightarrow> s)"

subsection \<open>The fields the summaries read\<close>

record PartitionError =
  PartitionNo :: int32
  PartitionErrorCode :: int16

record 'x PartitionedTopic = NamedTopic +
  TopicPartitions :: "'x PartitionError_scheme list"

record FetchTopic = NamedTopic +
  TopicID :: "byte list"

record 'x MetadataTopicError = "'x MetadataTopic" +
  MetadataErrorCode :: int16

record 'x GroupError = "'x GroupTopicsMsg" +
  GroupErrorCode :: int16

record ('x, 'y) OffsetFetchResponseError = "('x, 'y) OffsetFetchResponse" +
  FetchErrorCode :: int16

type_synonym ('x, 'y) partitioned_topic = "('x, 'y) PartitionedTopic_ext"

subsection \<open>The summaries\<close>

definition dbg_partitions :: "string \<Rightarrow> string \<Rightarrow> ('x, 'y) PartitionedTopic_scheme list \<Rightarrow> string" where
  "dbg_partitions before after ts =
     concat (map (\<lambda>t. concat (map (\<lambda>p. before @ Topic t @ ''/'' @ Itoa (sint (PartitionNo p)) @ ''=err'' @
       Itoa (sint (PartitionErrorCode p)) @ after) (TopicPartitions t))) ts)"

definition dbgOffsetFetchReq :: "('x, 'y, 'z) OffsetFetchRequest_scheme \<Rightarrow> string" where
  "dbgOffsetFetchReq req =
     TrimSpace (concat (map (\<lambda>t. Topic t @ '' '') (Topics req)) @
       concat (map (\<lambda>g. ''{group='' @ Group g @ '':'' @ concat (map (\<lambda>t. '' '' @ Topic t) (Topics g)) @ ''}'') (RequestGroups req)))"

definition dbgOffsetFetchResp ::
    "(('x, 'y) partitioned_topic, 'z GroupError_ext, 'v) OffsetFetchResponseError_scheme \<Rightarrow> string" where
  "dbgOffsetFetchResp resp =
     ''topErr='' @ Itoa (sint (FetchErrorCode resp)) @ dbg_partitions '' '' [] (Topics resp) @
     concat (map (\<lambda>g. '' {group='' @ Group g @ '' gErr='' @ Itoa (sint (GroupErrorCode g)) @ '':'' @
       dbg_partitions '' '' [] (Topics g) @ ''}'') (ResponseGroups resp))"

definition dbgMetadataReq :: "('x, 'y) MetadataRequest_scheme \<Rightarrow> string" where
  "dbgMetadataReq req =
     (case MetadataTopics req of
        None \<Rightarrow> ''<all>''
      | Some ts \<Rightarrow> TrimSpace (concat (map (\<lambda>t. derefStr (TopicPtr t) @ '' '') ts)))"

definition dbgMetadataResp :: "('x, 'y MetadataTopicError_ext, 'z) MetadataResponse_scheme \<Rightarrow> string" where
  "dbgMetadataResp resp =
     TrimSpace (concat (map (\<lambda>t. derefStr (TopicPtr t) @ ''=err'' @ Itoa (sint (MetadataErrorCode t)) @ '' '') (ResponseTopics resp)))"

definition dbgFetchReq :: "('x FetchTopic_ext, 'y) TopicsMsg_scheme \<Rightarrow> string" where
  "dbgFetchReq req = TrimSpace (concat (map (\<lambda>t. Topic t @ ''/id='' @ fmt_x (TopicID t) @ '' '') (Topics req)))"

definition dbgFetchResp :: "(('x, 'y) partitioned_topic, 'z) TopicsMsg_scheme \<Rightarrow> string" where
  "dbgFetchResp resp = TrimSpace (dbg_partitions [] '' '' (Topics resp))"

definition dbgListOffsetsReq :: "('x, 'y) TopicsMsg_scheme \<Rightarrow> string" where
  "dbgListOffsetsReq req = TrimSpace (concat (map (\<lambda>t. Topic t @ '' '') (Topics req)))"

definition dbgListOffsetsResp :: "(('x, 'y) partitioned_topic, 'z) TopicsMsg_scheme \<Rightarrow> string" where
  "dbgListOffsetsResp resp = TrimSpace (dbg_partitions [] '' '' (Topics resp))"

subsection \<open>The names in a summary\<close>

text \<open>A name of printable ASCII characters, as Kafka's are.\<close>

definition printable :: "string \<Rightarrow> bool" where
  "printable n \<longleftrightarrow> n \<noteq> [] \<and> list_all (\<lambda>c. 0x20 < (of_char c :: nat) \<and> (of_char c :: nat) < 0x7F) n"

lemma space_seqs_ends:
  "w \<in> set space_seqs \<Longrightarrow> w \<noteq> [] \<and> \<not> (0x20 < (of_char (hd w) :: nat) \<and> (of_char (hd w) :: nat) < 0x7F) \<and>
     \<not> (0x20 < (of_char (last w) :: nat) \<and> (of_char (last w) :: nat) < 0x7F)"
  by (auto simp: space_seqs_def)

lemma drop_seqs_stop: "(\<And>w. w \<in> set ws \<Longrightarrow> w \<noteq> [] \<Longrightarrow> \<not> prefix w s) \<Longrightarrow> drop_seqs ws s = s"
  by (subst drop_seqs.simps) (auto simp: find_Some_iff split: option.split)

lemma drop_left:
  assumes "s \<noteq> []" and "0x20 < (of_char (hd s) :: nat)" and "(of_char (hd s) :: nat) < 0x7F"
  shows "drop_seqs space_seqs s = s"
proof (rule drop_seqs_stop)
  fix w
  assume "w \<in> set space_seqs" "w \<noteq> []"
  then show "\<not> prefix w s"
    using space_seqs_ends [of w] assms by (auto simp: prefix_def)
qed

lemma drop_right:
  assumes "s \<noteq> []" and "0x20 < (of_char (last s) :: nat)" and "(of_char (last s) :: nat) < 0x7F"
  shows "drop_seqs (map rev space_seqs) (rev s) = rev s"
proof (rule drop_seqs_stop)
  fix w
  assume "w \<in> set (map rev space_seqs)" "w \<noteq> []"
  then obtain v where v: "v \<in> set space_seqs" "w = rev v" by auto
  then show "\<not> prefix w (rev s)"
    using space_seqs_ends [of v] assms by (auto simp: prefix_def hd_rev [symmetric])
qed

lemma space_seqs_blank: "w \<in> set space_seqs \<Longrightarrow> of_char (last w) = (0x20 :: nat) \<Longrightarrow> length w = 1"
  by (auto simp: space_seqs_def)

lemma drop_right_space: "drop_seqs (map rev space_seqs) (rev (s @ '' '')) = drop_seqs (map rev space_seqs) (rev s)"
proof -
  let ?P = "\<lambda>w. w \<noteq> [] \<and> prefix w (CHR '' '' # rev s)"
  have "char_of (of_char (CHR '' '') :: nat) = CHR '' ''" by (simp only: char_of_char)
  then have "'' '' \<in> set (map rev space_seqs)" by (simp add: space_seqs_def)
  then have "find ?P (map rev space_seqs) \<noteq> None" by (auto simp: find_None_iff)
  then obtain w where w: "find ?P (map rev space_seqs) = Some w" by blast
  then have "w \<in> set (map rev space_seqs)" "?P w" by (auto simp: find_Some_iff)
  then obtain zs where z: "w = CHR '' '' # zs" "rev w \<in> set space_seqs"
    by (auto simp: prefix_Cons)
  then have "length w = 1" using space_seqs_blank [of "rev w"] by simp
  then show ?thesis using w by (subst drop_seqs.simps) simp
qed

lemma TrimSpace_blank:
  assumes "s \<noteq> []" and "printable [hd s]" and "printable [last s]"
  shows "TrimSpace (s @ '' '') = s"
  using assms drop_left [of "s @ '' ''"] drop_right [of s] drop_right_space [of s]
  by (simp add: TrimSpace_def printable_def)

text \<open>The summary of a request separates its names by single blanks.\<close>

lemma TrimSpace_words:
  assumes "list_all printable ns" and "ns \<noteq> []"
  shows "TrimSpace (concat (map (\<lambda>n. n @ '' '') ns)) @ '' '' = concat (map (\<lambda>n. n @ '' '') ns)"
proof -
  obtain ms m where ns: "ns = ms @ [m]" using assms(2) by (metis rev_exhaust)
  let ?s = "concat (map (\<lambda>n. n @ '' '') ms) @ m"
  have m: "printable m" and ms: "list_all printable ms" using assms(1) ns by simp_all
  have "?s \<noteq> []" "printable [hd ?s]" "last ?s = last m"
    using m ms by (cases ms; auto simp: printable_def list_all_iff)+
  moreover have "printable [last m]"
    using m by (auto simp: printable_def list_all_iff)
  ultimately have "TrimSpace (?s @ '' '') = ?s" by (intro TrimSpace_blank) simp_all
  then show ?thesis using ns by simp
qed

lemma dbgListOffsetsReq_names:
  assumes "list_all printable (topic_names req)" and "topic_names req \<noteq> []" and "printable p"
  shows "dbgListOffsetsReq (ListOffsetsRequestIn p req) @ '' '' = concat (map (\<lambda>n. p @ n @ '' '') (topic_names req))"
proof -
  have "map Topic (Topics (ListOffsetsRequestIn p req)) = map (PrefixIn p) (topic_names req)"
    by (simp add: ListOffsetsRequestIn_def topic_names_def)
  moreover have "map (PrefixIn p) (topic_names req) = map ((@) p) (topic_names req)"
    using assms by (auto simp: PrefixIn_def printable_def list_all_iff)
  ultimately have t: "map Topic (Topics (ListOffsetsRequestIn p req)) = map ((@) p) (topic_names req)" by simp
  have "map (\<lambda>t. Topic t @ '' '') (Topics (ListOffsetsRequestIn p req)) =
      map (\<lambda>n. n @ '' '') (map Topic (Topics (ListOffsetsRequestIn p req)))" by simp
  also note t
  finally have "dbgListOffsetsReq (ListOffsetsRequestIn p req) = TrimSpace (concat (map (\<lambda>n. n @ '' '') (map ((@) p) (topic_names req))))"
    by (simp only: dbgListOffsetsReq_def)
  moreover have "list_all printable (map ((@) p) (topic_names req))"
    using assms(1,3) by (auto simp: list_all_iff printable_def)
  ultimately show ?thesis
    using TrimSpace_words [of "map ((@) p) (topic_names req)"] assms(2) by (simp add: comp_def)
qed

end
