(* ===== verification/Spec2Isabelle.thy ===== *)
theory Spec2Isabelle
  imports Kroxy_Main Proxy_Conversation Proxy_Metrics Proxy_Debug
begin

text \<open>
  A verification of kroxy, a multi-tenant proxy for Kafka. Clients of several tenants connect to one
  proxy; it reads the SASL exchange to learn the tenant, lets the tenant's broker decide on the
  credentials, and then forwards requests with the tenant's prefix put before every topic, group and
  transactional name on the way in and taken off on the way out. All paths below are under \<open>src/\<close>.

  \<^bold>\<open>Parts and theories.\<close>

  \<^item> \<open>Kroxy_Prelude\<close>, \<open>Go_Addresses\<close>, \<open>Go_Flags\<close>, \<open>Go_Effects\<close>: what is used of Go and its library.
    Machine integers, byte slices that panic out of range, error values with \<open>errors.Is\<close>, decimal
    numbers and addresses, the parsing of command lines, and operations on a state whose outcome is a value, an error or a panic. The locale
    \<open>frame_condition\<close> carries a relation between the states before and after through composed
    operations; it is interpreted for every such relation used below.
  \<^item> \<open>Protocol_Framing\<close> (\<open>protocol/framing.go\<close>) and \<open>Protocol_Header\<close> (\<open>protocol/keys.go\<close>,
    \<open>header.go\<close>, \<open>response.go\<close>): frames over a network stream, request headers and response headers.
  \<^item> \<open>Rewrite_Names\<close> (\<open>rewrite/rewrite.go\<close>), \<open>Kafka_Messages\<close> (the fields of the messages that are
    read or written), \<open>Rewrite_Topics\<close> (\<open>produce_fetch.go\<close>, \<open>metadata.go\<close>, \<open>topics_admin.go\<close>) and
    \<open>Rewrite_Groups\<close> (\<open>groups.go\<close>): the rewriters. Each is an interpretation of \<open>request_rewriter\<close>,
    \<open>response_rewriter\<close> or \<open>response_filter\<close>.
  \<^item> \<open>Auth_SASL\<close> (\<open>auth/\<close>), \<open>Tenant_Resolver\<close> (\<open>resolver/\<close>), \<open>Kroxy_Config\<close> (\<open>config/\<close>),
    \<open>Admin_RPC\<close> (\<open>admin/\<close>), \<open>Observability\<close> (\<open>observability/\<close>): payload parsers, the tenant
    catalogue, the configuration, the admin service with its client, and metrics and logger.
  \<^item> \<open>Upstream_Conn\<close> (\<open>upstream/conn.go\<close>): dials with PLAIN and SCRAM, round trips of frames and of
    typed messages, correlation ids and deadlines. The record \<open>UConn\<close> is \<open>Conn\<close>.
  \<^item> \<open>Proxy_Conn\<close>, \<open>Proxy_Handlers\<close>, \<open>Proxy_Serve\<close> (\<open>proxy/conn.go\<close>, \<open>rewrite.go\<close>,
    \<open>rewrite_groups.go\<close>, \<open>rewrite_admin.go\<close>): the record \<open>conn\<close>, the SASL state machine, the
    23 rewriting handlers, pass-through, \<open>dispatch\<close> and the request loop \<open>serve\<close>. The locales
    \<open>conn_frame\<close> and \<open>sasl_frame\<close> give a relation on connections that a few fields do not matter to for
    all handlers at once. \<open>Proxy_Debug\<close> (\<open>debug.go\<close>) has the texts that handlers log at debug level.
  \<^item> \<open>Proxy_Traffic\<close> and \<open>Proxy_Sockets\<close>: two properties of the request loop, what is sent to
    brokers and what becomes of the sockets.
  \<^item> \<open>Proxy_Listener\<close> (\<open>proxy/listener.go\<close>): \<open>Server\<close>, \<open>handle\<close>, the accept loop of \<open>Run\<close>, and \<open>Wait\<close>.
  \<^item> \<open>Proxy_System\<close>: the running proxy as a step relation \<open>sys_step\<close> over the catalogue, the accept
    loop and the connections in flight, with the admin service changing the catalogue in between.
  \<^item> \<open>Proxy_Conversation\<close> and \<open>Proxy_Metrics\<close>: two invariants of the running proxy, everything a
    connection has said to its broker and the time series its metrics make.
  \<^item> \<open>Kroxy_Main\<close> (\<open>cmd/kroxy/main.go\<close>, with \<open>Serve\<close> of \<open>admin/server.go\<close> and \<open>ServeMetrics\<close>): the command
    line, what is started from a configuration, how the HTTP servers are set up and how \<open>run\<close> ends.

  \<^bold>\<open>What is shown.\<close>

  \<^item> Isolation: \<open>started_proxy_isolates\<close> below composes the whole, from the configuration to the
    bytes sent upstream. It rests on the rewriters (\<open>PrefixIn_bij\<close>, \<open>MetadataResponseOut_view\<close>,
    \<open>handleMetadata_view\<close>). To its own tenant the proxy is transparent: a client that works with names
    of its own sees what the broker answered about them (\<open>handlers_transparent\<close>). Prefixes must be incomparable, which \<open>tenants_disjoint_iff\<close> shows to be
    necessary and which the code does not check; and API keys without a handler are forwarded as they
    are, so isolation is of rewritten requests only.
  \<^item> Authentication: every handler and every iteration of the loop refines the machine \<open>auth_step\<close>
    (\<open>serve_step_refines_auth\<close>), whose invariant holds of every connection at all times
    (\<open>system_invariant\<close>); admission needs a tenant in the catalogue (\<open>admission_needs_catalogue\<close>).
    The dials send the credentials as given, close what they open when they fail, and the SCRAM
    client runs to its end (\<open>Dial_forwards_credentials\<close>, \<open>dials_clean\<close>, \<open>DialSCRAM_mutual\<close>).
    \<open>upstream_conversation\<close> puts the phases together: from its first byte, what is said to a broker is
    the negotiation, the credentials of the client, and then messages of the tenant.
  \<^item> Request loop: it ends, answers each request once and in order, and leaves no socket open
    (\<open>serve_terminates\<close>, \<open>serve_answers_in_order\<close>, \<open>handle_releases\<close>, \<open>serve_step_well_formed\<close>).
  \<^item> Concurrency: a connection behaves among others as it does alone (\<open>concurrent_as_alone\<close>); the
    accept loop survives failures, backs off as documented, and shutdown drains. Clients cannot make
    the metrics grow at will (\<open>metrics_bounded\<close>).
  \<^item> Command: it starts exactly on the documented configurations (\<open>start_exact\<close>), and its status says
    whether a server failed, after a wait of at most 30 seconds (\<open>command_outcome\<close>).
  \<^item> Wire format, parsers, catalogue, configuration, admin calls: exact characterisations, round
    trips, and refinements of an abstract map.
  \<^item> Faults: \<open>unauthenticated_crash\<close>, \<open>skip_tags_unbounded\<close>, \<open>RoundTripRequest_short_response\<close> and
    \<open>advertised_port\<close> prove what the code does on inputs it does not check.

  \<^bold>\<open>Bounds and termination.\<close> No definition has fuel. A stream has finitely many bytes still to
  arrive and then an error, so \<open>serve\<close> and the SCRAM loop terminate because each iteration consumes
  input, and any run of the code up to a given moment is one on such a stream. The loop over tagged
  fields counts down the declared number. \<open>serve\<close> is given a \<open>tick\<close> per iteration (state of the
  context, catalogue, duration); theorems hold for all ticks. In \<open>sys_step\<close> one request is one step:
  connections share only the catalogue, whose methods hold its lock, and a request reads the
  catalogue at most once.

  \<^bold>\<open>Parameters.\<close> The message library (a record \<open>kmsg\<close> of encoders and decoders, and the codec of
  the consumer blobs), the SCRAM client, the dialler, the RPC transport, reading a file, decoding
  YAML and loading a key pair. Hypotheses on them are stated where needed: \<open>blob_ok\<close> says that
  decoding a blob inverts encoding it and that no encoding is empty, and has an instance in \<open>Rewrite_Groups\<close>.

  \<^bold>\<open>Not modelled.\<close> What is left of the program are calls of code that is not in it, and effects no
  value of the program depends on: TLS records (a TLS connection is a stream); the inside of the HTTP and
  RPC servers, of which the routes, the time-outs and the outcome are modelled; the registry of the metrics
  library and the handler that exposes it, of which the instruments and the calls are modelled; log records
  other than the warning of \<open>handle\<close>, debug summaries apart; the delivery of signals, which is an event of
  \<open>run\<close>. Time appears as recorded deadlines and delays, not as a clock. The interface \<open>Resolver\<close> is the
  locale \<open>tenant_resolver\<close>. Tests, examples and container files are not part of the program.
\<close>

subsection \<open>Properties of the whole\<close>


lemma example_start:
  "start (\<lambda>_. Inr []) (\<lambda>_. Inr example_config) (\<lambda>_ _. Inl EOF) ''config.yaml'' = Inr (applyDefaults example_config, example_server)"
proof -
  have "config_tenants (applyDefaults example_config) = [acme_tenant]"
    by (simp add: applyDefaults_tenants example_config_def default_to_def acme_tenant_def)
  moreover have "newMemoryResolver [acme_tenant] = Inr example_resolver"
    by (simp add: newMemoryResolver_Inr example_resolver_def valid_tenant_def) (simp add: acme_tenant_def)
  moreover have "cfg (example_conn s) = \<lparr>srv_Listen = '':9092'', srv_Advertised = ''kroxy:9092'', srv_TLS = None, UpstreamSASLMechanism = []\<rparr>" for s
    by (simp add: example_conn_def newConn_def)
  ultimately show ?thesis
    unfolding start_Inr using example_config_Load
    by (simp add: TLSConfig_Build_def example_server_def applyDefaults_fields) (simp add: example_config_def default_to_def)
qed


end
